(* ===== verification/Go_Prelude.thy ===== *)
theory Go_Prelude
  imports Main "HOL-Library.Char_ord" "HOL-Library.List_Lexorder"
begin

text \<open>
  The shared base of the development: what the operator's Go code uses of the language and of its
  standard library, and the generic lemmas every component rests on.

  \<^item> Go strings are byte strings; they are \<^typ>\<open>string\<close> here, and Go's \<open><\<close> on them is the bytewise
    lexicographic order of \<open>List_Lexorder\<close> over \<open>Char_ord\<close>.
  \<^item> \<open>int32\<close> and \<open>int64\<close> are \<^typ>\<open>int\<close>; where the code does arithmetic on them that can leave the
    width, the wrap-around is written out with \<open>wrap32\<close>.
  \<^item> a Go map that is only looked up is a partial function; a Go map that is ranged over is an
    association list with distinct keys, the list standing for the unspecified iteration order.
  \<^item> a Go \<open>error\<close> is its message; \<open>nil\<close> is \<^term>\<open>None\<close>.
\<close>

named_theorems go_string \<comment> \<open>rewriting of the string library\<close>
named_theorems go_map \<comment> \<open>rewriting of maps built by loops\<close>

type_synonym int32 = int
type_synonym int64 = int
type_synonym goerror = string

section \<open>Fixed-width integers\<close>

definition int32_min :: int where "int32_min = - (2 ^ 31)"
definition int32_max :: int where "int32_max = 2 ^ 31 - 1"

definition is_int32 :: "int \<Rightarrow> bool" where
  "is_int32 i \<longleftrightarrow> int32_min \<le> i \<and> i \<le> int32_max"

definition wrap32 :: "int \<Rightarrow> int32" where
  "wrap32 i = (i + 2 ^ 31) mod 2 ^ 32 - 2 ^ 31"

lemma wrap32_is_int32 [simp]: "is_int32 (wrap32 i)"
proof -
  have "0 \<le> (i + 2 ^ 31) mod 2 ^ 32" and "(i + 2 ^ 31) mod 2 ^ 32 < (2 ^ 32 :: int)"
    by simp_all
  then show ?thesis
    by (simp add: is_int32_def wrap32_def int32_min_def int32_max_def)
qed

lemma wrap32_id [simp]: "is_int32 i \<Longrightarrow> wrap32 i = i"
  by (simp add: is_int32_def wrap32_def int32_min_def int32_max_def)

section \<open>Strings\<close>

subsection \<open>Prefixes, cuts, joins\<close>

text \<open>\<open>strings.CutPrefix\<close>: the rest after the prefix, or \<^term>\<open>None\<close> when it is not one.\<close>

fun cutPrefix :: "string \<Rightarrow> string \<Rightarrow> string option" where
  "cutPrefix s [] = Some s"
| "cutPrefix [] (p # ps) = None"
| "cutPrefix (c # cs) (p # ps) = (if c = p then cutPrefix cs ps else None)"

definition hasPrefix :: "string \<Rightarrow> string \<Rightarrow> bool" where
  "hasPrefix s p \<longleftrightarrow> cutPrefix s p \<noteq> None"

lemma cutPrefix_append [simp, go_string]: "cutPrefix (p @ s) p = Some s"
  by (induction p) auto

lemma cutPrefix_Some: "cutPrefix s p = Some r \<longleftrightarrow> s = p @ r"
  by (induction s p rule: cutPrefix.induct) auto

text \<open>\<open>strings.Cut\<close>: around the first occurrence of the separator.\<close>

fun cut :: "string \<Rightarrow> string \<Rightarrow> (string \<times> string) option" where
  "cut s sep = (case cutPrefix s sep of
       Some rest \<Rightarrow> Some ([], rest)
     | None \<Rightarrow> (case s of
           [] \<Rightarrow> None
         | c # cs \<Rightarrow> map_option (\<lambda>(a, b). (c # a, b)) (cut cs sep)))"

declare cut.simps [simp del]

lemma cut_char: "cut s [x] = (if x \<in> set s
    then Some (takeWhile (\<lambda>c. c \<noteq> x) s, tl (dropWhile (\<lambda>c. c \<noteq> x) s)) else None)"
proof (induction s)
  case Nil
  then show ?case by (simp add: cut.simps)
next
  case (Cons c cs)
  then show ?case by (simp add: cut.simps [of "c # cs"])
qed

text \<open>\<open>strings.Join\<close>.\<close>

fun join :: "string \<Rightarrow> string list \<Rightarrow> string" where
  "join sep [] = []"
| "join sep [x] = x"
| "join sep (x # y # ys) = x @ sep @ join sep (y # ys)"

text \<open>\<open>strings.EqualFold\<close> against a constant of ASCII letters without special foldings.\<close>

definition ascii_lower :: "char \<Rightarrow> char" where
  "ascii_lower c = (if 65 \<le> (of_char c :: nat) \<and> (of_char c :: nat) \<le> 90
     then char_of ((of_char c :: nat) + 32) else c)"

definition equalFold :: "string \<Rightarrow> string \<Rightarrow> bool" where
  "equalFold s t \<longleftrightarrow> map ascii_lower s = map ascii_lower t"

lemma equalFold_refl [simp]: "equalFold s s"
  by (simp add: equalFold_def)

subsection \<open>Decimal numbers\<close>

definition digit :: "nat \<Rightarrow> char" where
  "digit n = char_of (48 + n)"

definition is_digit :: "char \<Rightarrow> bool" where
  "is_digit c \<longleftrightarrow> 48 \<le> (of_char c :: nat) \<and> (of_char c :: nat) \<le> 57"

definition digit_value :: "char \<Rightarrow> nat" where
  "digit_value c = (of_char c :: nat) - 48"

fun utoa :: "nat \<Rightarrow> string" where
  "utoa n = (if n < 10 then [digit n] else utoa (n div 10) @ [digit (n mod 10)])"

declare utoa.simps [simp del]

text \<open>\<open>%d\<close> and \<open>strconv.FormatInt(i, 10)\<close>.\<close>

definition itoa :: "int \<Rightarrow> string" where
  "itoa i = (if i < 0 then CHR ''-'' # utoa (nat (- i)) else utoa (nat i))"

definition digits_value :: "string \<Rightarrow> nat" where
  "digits_value s = foldl (\<lambda>n c. 10 * n + digit_value c) 0 s"

text \<open>\<open>strconv.ParseInt(s, 10, 32)\<close>: an optional sign, one or more digits, and a value in range.\<close>

definition parseDigits :: "string \<Rightarrow> nat option" where
  "parseDigits s = (if s \<noteq> [] \<and> list_all is_digit s then Some (digits_value s) else None)"

definition inRange32 :: "int \<Rightarrow> int option" where
  "inRange32 i = (if is_int32 i then Some i else None)"

definition parseInt32 :: "string \<Rightarrow> int32 option" where
  "parseInt32 s = (case s of
       [] \<Rightarrow> None
     | c # cs \<Rightarrow>
         if c = CHR ''-'' then Option.bind (parseDigits cs) (\<lambda>n. inRange32 (- int n))
         else if c = CHR ''+'' then Option.bind (parseDigits cs) (\<lambda>n. inRange32 (int n))
         else Option.bind (parseDigits s) (\<lambda>n. inRange32 (int n)))"

lemma is_digit_digit [simp]: "n < 10 \<Longrightarrow> is_digit (digit n)"
  by (simp add: is_digit_def digit_def)

lemma digit_value_digit [simp]: "n < 10 \<Longrightarrow> digit_value (digit n) = n"
  by (simp add: digit_value_def digit_def)

lemma utoa_digits [simp]: "list_all is_digit (utoa n)"
proof (induction n rule: utoa.induct)
  case (1 n)
  then show ?case by (subst utoa.simps) simp
qed

lemma utoa_nonempty [simp]: "utoa n \<noteq> []"
  by (subst utoa.simps) simp

lemma digits_value_utoa [simp]: "digits_value (utoa n) = n"
proof (induction n rule: utoa.induct)
  case (1 n)
  then show ?case by (subst utoa.simps) (simp add: digits_value_def)
qed

lemma parseDigits_utoa [simp]: "parseDigits (utoa n) = Some n"
  by (simp add: parseDigits_def)

lemma is_digit_hd_utoa: "is_digit (hd (utoa n))"
  using utoa_digits [of n] utoa_nonempty [of n] by (cases "utoa n") auto

lemma utoa_not_sign [simp]: "hd (utoa n) \<noteq> CHR ''-''" "hd (utoa n) \<noteq> CHR ''+''"
  using is_digit_hd_utoa [of n] by (auto simp: is_digit_def)

lemma parseInt32_itoa [simp, go_string]:
  assumes "is_int32 i" shows "parseInt32 (itoa i) = Some i"
proof (cases "i < 0")
  case True
  with assms show ?thesis by (simp add: parseInt32_def itoa_def inRange32_def)
next
  case False
  obtain c cs where u: "utoa (nat i) = c # cs" by (cases "utoa (nat i)") auto
  with utoa_not_sign [of "nat i"] have "c \<noteq> CHR ''-''" "c \<noteq> CHR ''+''" by auto
  moreover have "parseDigits (c # cs) = Some (nat i)" using parseDigits_utoa [of "nat i"] u by simp
  ultimately show ?thesis
    using False u assms by (simp add: parseInt32_def itoa_def inRange32_def)
qed

lemma utoa_inject [simp]: "utoa m = utoa n \<longleftrightarrow> m = n"
  by (metis digits_value_utoa)

lemma itoa_inject [simp]: "itoa i = itoa j \<longleftrightarrow> i = j"
proof
  assume eq: "itoa i = itoa j"
  have sign: "hd (itoa k) = CHR ''-'' \<longleftrightarrow> k < 0" for k by (simp add: itoa_def)
  with eq have "i < 0 \<longleftrightarrow> j < 0" by metis
  with eq show "i = j" by (auto simp: itoa_def split: if_splits)
qed simp

section \<open>Errors\<close>

text \<open>
  \<open>errors.Join\<close> over errors that are never nil: nil for none, else the messages, one per line.
\<close>

definition errorsJoin :: "goerror list \<Rightarrow> goerror option" where
  "errorsJoin errs = (if errs = [] then None else Some (join [CHR 0x0A] errs))"

lemma errorsJoin_None [simp]: "errorsJoin errs = None \<longleftrightarrow> errs = []"
  by (simp add: errorsJoin_def)

section \<open>Maps built by a loop\<close>

text \<open>
  \<open>m := map[K]V{}; for _, x := range xs { m[key(x)] = x }\<close>: a later row overwrites an earlier one.
\<close>

definition index_by :: "('a \<Rightarrow> 'k) \<Rightarrow> 'a list \<Rightarrow> 'k \<Rightarrow> 'a option" where
  "index_by key xs = fold (\<lambda>x m. m(key x \<mapsto> x)) xs Map.empty"

lemma find_append: "find P (xs @ ys) = (case find P xs of Some x \<Rightarrow> Some x | None \<Rightarrow> find P ys)"
  by (induction xs) auto

lemma find_SomeD: "find P xs = Some x \<Longrightarrow> x \<in> set xs \<and> P x"
  by (auto simp: find_Some_iff)

text \<open>A loop that appends \<open>f x\<close> for every element that passes a guard.\<close>

lemma guarded_append [simp]:
  "concat (map (\<lambda>x. if P x then [f x] else []) xs) = map f (filter P xs)"
  by (induction xs) auto

lemma length_filter_full: "length (filter P xs) = length xs \<longleftrightarrow> (\<forall>x \<in> set xs. P x)"
  by (metis filter_id_conv length_filter_less less_irrefl)

lemma fold_upd: "fold (\<lambda>x m. m(key x \<mapsto> x)) xs m k =
    (case find (\<lambda>x. key x = k) (rev xs) of Some x \<Rightarrow> Some x | None \<Rightarrow> m k)"
  by (induction xs arbitrary: m) (auto simp: find_append split: option.splits)

lemma index_by_find: "index_by key xs k = find (\<lambda>x. key x = k) (rev xs)"
  by (simp add: index_by_def fold_upd split: option.splits)

lemma index_by_Nil [simp, go_map]: "index_by key [] = Map.empty"
  by (simp add: index_by_def)

lemma index_by_snoc [simp, go_map]: "index_by key (xs @ [x]) = (index_by key xs)(key x \<mapsto> x)"
  by (simp add: index_by_def)

lemma index_by_append [go_map]: "index_by key (xs @ ys) = index_by key xs ++ index_by key ys"
  by (rule ext) (simp add: index_by_find map_add_def find_append split: option.splits)

lemma index_by_Cons [go_map]: "index_by key (x # xs) = [key x \<mapsto> x] ++ index_by key xs"
  using index_by_append [of key "[x]" xs] index_by_snoc [of key "[]" x] by simp

lemma index_by_SomeD: "index_by key xs k = Some x \<Longrightarrow> x \<in> set xs \<and> key x = k"
  by (auto simp: index_by_find find_Some_iff in_set_conv_nth rev_nth
      intro!: exI [where x = "length xs - Suc _"])

lemma index_by_None [go_map]: "index_by key xs k = None \<longleftrightarrow> k \<notin> key ` set xs"
  by (auto simp: index_by_find find_None_iff)

lemma dom_index_by [go_map]: "dom (index_by key xs) = key ` set xs"
  using index_by_None [of key xs] by (auto simp: dom_def)

lemma index_by_distinct:
  assumes "distinct (map key xs)" and "x \<in> set xs"
  shows "index_by key xs (key x) = Some x"
proof -
  from assms(2) have "index_by key xs (key x) \<noteq> None" by (auto simp: index_by_None)
  then obtain y where y: "index_by key xs (key x) = Some y" by auto
  then have "y \<in> set xs" and "key y = key x" by (auto dest: index_by_SomeD)
  with assms have "y = x" by (auto simp: distinct_map inj_on_def)
  with y show ?thesis by simp
qed

end
