(* ===== verification/Api_Types.thy ===== *)
theory Api_Types
  imports Go_Prelude
begin

text \<open>
  \<open>src/api/v1alpha1/memgraphdbcluster_types.go\<close>: the custom resource. Every struct is a record with the
  fields of the source behind a short prefix, in the order of the source; a pointer is an option; a Go
  map is an association list. The enumerations are the Go string types they are declared as.

  Values of Kubernetes API types that the operator only hands on (resource requirements, tolerations,
  volumes, containers) are opaque tokens, \<open>k8sobj\<close>. A \<open>resource.Quantity\<close> is its canonical text; what
  compares quantities takes the comparison as an argument. \<open>apimeta\<close>'s status condition functions are
  arguments too, with their documented behaviour as \<open>lawfulConditions\<close>.
\<close>

type_synonym k8sobj = string
type_synonym Quantity = string
type_synonym PullPolicy = string
type_synonym PersistentVolumeAccessMode = string
type_synonym StorageRetentionPolicy = string
type_synonym LogFileLocation = string
type_synonym CorePatternOwner = string
type_synonym PodAntiAffinityType = string
type_synonym PodAntiAffinityScope = string
type_synonym ExternalAccessType = string
type_synonym FlagValue = string

section \<open>Constants\<close>

definition DefaultImageRepository :: string where "DefaultImageRepository = ''docker.io/memgraph/memgraph''"
definition DefaultImageTag :: string where "DefaultImageTag = ''3.13.0-relwithdebinfo''"
definition DefaultSecretName :: string where "DefaultSecretName = ''memgraph-secrets''"
definition DefaultLicenseSecretKey :: string where "DefaultLicenseSecretKey = ''MEMGRAPH_ENTERPRISE_LICENSE''"
definition DefaultOrganizationSecretKey :: string where "DefaultOrganizationSecretKey = ''MEMGRAPH_ORGANIZATION_NAME''"
definition AWSAccessKeySecretKey :: string where "AWSAccessKeySecretKey = ''AWS_ACCESS_KEY_ID''"
definition AWSSecretKeySecretKey :: string where "AWSSecretKeySecretKey = ''AWS_SECRET_ACCESS_KEY''"
definition AWSRegionSecretKey :: string where "AWSRegionSecretKey = ''AWS_REGION''"
definition AWSEndpointURLSecretKey :: string where "AWSEndpointURLSecretKey = ''AWS_ENDPOINT_URL''"
definition DefaultCoreDumpsSize :: string where "DefaultCoreDumpsSize = ''10Gi''"
definition DefaultLibPVCSize :: string where "DefaultLibPVCSize = ''10Gi''"
definition DefaultClusterDomain :: string where "DefaultClusterDomain = ''cluster.local''"
definition RetentionPolicyRetain :: string where "RetentionPolicyRetain = ''Retain''"
definition RetentionPolicyDelete :: string where "RetentionPolicyDelete = ''Delete''"
definition LogFileLibClaim :: string where "LogFileLibClaim = ''LibClaim''"
definition LogFileNone :: string where "LogFileNone = ''None''"
definition CorePatternOperator :: string where "CorePatternOperator = ''Operator''"
definition CorePatternNode :: string where "CorePatternNode = ''Node''"
definition PodAntiAffinityPreferred :: string where "PodAntiAffinityPreferred = ''preferred''"
definition PodAntiAffinityRequired :: string where "PodAntiAffinityRequired = ''required''"
definition PodAntiAffinityScopeRole :: string where "PodAntiAffinityScopeRole = ''role''"
definition PodAntiAffinityScopeCluster :: string where "PodAntiAffinityScopeCluster = ''cluster''"
definition DefaultPodAntiAffinityTopologyKey :: string where "DefaultPodAntiAffinityTopologyKey = ''kubernetes.io/hostname''"
definition ExternalAccessLoadBalancer :: string where "ExternalAccessLoadBalancer = ''LoadBalancer''"
definition ExternalAccessGateway :: string where "ExternalAccessGateway = ''Gateway''"
definition OrdinalPlaceholder :: string where "OrdinalPlaceholder = ''{ordinal}''"
definition ExternalDNSHostnameAnnotation :: string where "ExternalDNSHostnameAnnotation = ''external-dns.alpha.kubernetes.io/hostname''"
definition DefaultVMAgentImageRepository :: string where "DefaultVMAgentImageRepository = ''docker.io/victoriametrics/vmagent''"
definition DefaultVMAgentImageTag :: string where "DefaultVMAgentImageTag = ''v1.139.0''"
definition DefaultVectorImageRepository :: string where "DefaultVectorImageRepository = ''docker.io/timberio/vector''"
definition DefaultVectorImageTag :: string where "DefaultVectorImageTag = ''0.49.0-debian''"
definition BasicAuthUsernameKey :: string where "BasicAuthUsernameKey = ''username''"
definition BasicAuthPasswordKey :: string where "BasicAuthPasswordKey = ''password''"
definition EnvPodName :: string where "EnvPodName = ''POD_NAME''"
definition EnvCoreDumpsDir :: string where "EnvCoreDumpsDir = ''CORE_DUMPS_DIR''"
definition DefaultCoordinatorCount :: int32 where "DefaultCoordinatorCount = 3"
definition DefaultDataInstanceCount :: int32 where "DefaultDataInstanceCount = 2"
definition DefaultMaxMapCount :: int64 where "DefaultMaxMapCount = 524288"
definition DefaultRunAsUser :: int64 where "DefaultRunAsUser = 101"
definition DefaultRunAsGroup :: int64 where "DefaultRunAsGroup = 103"
definition DefaultFSGroup :: int64 where "DefaultFSGroup = 103"
definition BoltPort :: int32 where "BoltPort = 7687"
definition ManagementPort :: int32 where "ManagementPort = 10000"
definition ReplicationPort :: int32 where "ReplicationPort = 20000"
definition CoordinatorPort :: int32 where "CoordinatorPort = 12000"
definition MetricsPort :: int32 where "MetricsPort = 9091"
definition VMAgentPort :: int32 where "VMAgentPort = 8429"
definition MonitoringPort :: int32 where "MonitoringPort = 7444"
definition DefaultProbeFailureThreshold :: int32 where "DefaultProbeFailureThreshold = 20"
definition DefaultProbeTimeoutSeconds :: int32 where "DefaultProbeTimeoutSeconds = 10"
definition DefaultProbePeriodSeconds :: int32 where "DefaultProbePeriodSeconds = 5"
definition DefaultGatewayDataPortBase :: int32 where "DefaultGatewayDataPortBase = 9000"
definition DefaultImageReference :: string where
  "DefaultImageReference = DefaultImageRepository @ '':'' @ DefaultImageTag"
definition DefaultLogFile :: string where "DefaultLogFile = LogFileLibClaim"
definition DefaultStorageRetention :: string where "DefaultStorageRetention = RetentionPolicyRetain"
definition DefaultCorePattern :: string where "DefaultCorePattern = CorePatternOperator"
definition DefaultPodAntiAffinityType :: string where "DefaultPodAntiAffinityType = PodAntiAffinityPreferred"
definition DefaultPodAntiAffinityScope :: string where "DefaultPodAntiAffinityScope = PodAntiAffinityScopeRole"

section \<open>Condition types and reasons\<close>

definition ConditionReady :: string where "ConditionReady = ''Ready''"
definition ConditionConverged :: string where "ConditionConverged = ''Converged''"
definition ConditionUpdated :: string where "ConditionUpdated = ''Updated''"
definition ConditionLicenseApplied :: string where "ConditionLicenseApplied = ''LicenseApplied''"
definition ReasonApplyFailed :: string where "ReasonApplyFailed = ''ApplyFailed''"
definition ReasonWorkloadsNotReady :: string where "ReasonWorkloadsNotReady = ''WorkloadsNotReady''"
definition ReasonCoordinatorUnreachable :: string where "ReasonCoordinatorUnreachable = ''CoordinatorUnreachable''"
definition ReasonNoCoordinatorLeader :: string where "ReasonNoCoordinatorLeader = ''NoCoordinatorLeader''"
definition ReasonRegistrationInProgress :: string where "ReasonRegistrationInProgress = ''RegistrationInProgress''"
definition ReasonRegistrationFailed :: string where "ReasonRegistrationFailed = ''RegistrationFailed''"
definition ReasonAllInstancesRegistered :: string where "ReasonAllInstancesRegistered = ''AllInstancesRegistered''"
definition ReasonExternalAddressPending :: string where "ReasonExternalAddressPending = ''ExternalAddressPending''"
definition ReasonSettingsPending :: string where "ReasonSettingsPending = ''SettingsPending''"
definition ReasonSettingsRejected :: string where "ReasonSettingsRejected = ''SettingsRejected''"
definition ReasonUnknownFlags :: string where "ReasonUnknownFlags = ''UnknownFlags''"
definition ReasonFlagsUnclassified :: string where "ReasonFlagsUnclassified = ''FlagsUnclassified''"
definition ReasonVolumeExpansionInProgress :: string where "ReasonVolumeExpansionInProgress = ''VolumeExpansionInProgress''"
definition ReasonVolumeExpansionRefused :: string where "ReasonVolumeExpansionRefused = ''VolumeExpansionRefused''"
definition ReasonVolumeExpansionFailed :: string where "ReasonVolumeExpansionFailed = ''VolumeExpansionFailed''"
definition ReasonRetirementInProgress :: string where "ReasonRetirementInProgress = ''RetirementInProgress''"
definition ReasonLeadershipTransferInProgress :: string where "ReasonLeadershipTransferInProgress = ''LeadershipTransferInProgress''"
definition ReasonNoCaughtUpSurvivor :: string where "ReasonNoCaughtUpSurvivor = ''NoCaughtUpSurvivor''"
definition ReasonRollingRestartInProgress :: string where "ReasonRollingRestartInProgress = ''RollingRestartInProgress''"
definition ReasonWaitingForCatchUp :: string where "ReasonWaitingForCatchUp = ''WaitingForCatchUp''"
definition ReasonAllPodsUpdated :: string where "ReasonAllPodsUpdated = ''AllPodsUpdated''"
definition ReasonLicenseMatchesSecret :: string where "ReasonLicenseMatchesSecret = ''LicenseMatchesSecret''"
definition ReasonLicensePending :: string where "ReasonLicensePending = ''LicensePending''"
definition ReasonLicenseRejected :: string where "ReasonLicenseRejected = ''LicenseRejected''"
definition ReasonNoMainElected :: string where "ReasonNoMainElected = ''NoMainElected''"
definition ReasonReconciling :: string where "ReasonReconciling = ''Reconciling''"
definition ReasonReconciled :: string where "ReasonReconciled = ''Reconciled''"

lemmas reason_defs =
  ReasonApplyFailed_def
  ReasonWorkloadsNotReady_def
  ReasonCoordinatorUnreachable_def
  ReasonNoCoordinatorLeader_def
  ReasonRegistrationInProgress_def
  ReasonRegistrationFailed_def
  ReasonAllInstancesRegistered_def
  ReasonExternalAddressPending_def
  ReasonSettingsPending_def
  ReasonSettingsRejected_def
  ReasonUnknownFlags_def
  ReasonFlagsUnclassified_def
  ReasonVolumeExpansionInProgress_def
  ReasonVolumeExpansionRefused_def
  ReasonVolumeExpansionFailed_def
  ReasonRetirementInProgress_def
  ReasonLeadershipTransferInProgress_def
  ReasonNoCaughtUpSurvivor_def
  ReasonRollingRestartInProgress_def
  ReasonWaitingForCatchUp_def
  ReasonAllPodsUpdated_def
  ReasonLicenseMatchesSecret_def
  ReasonLicensePending_def
  ReasonLicenseRejected_def
  ReasonNoMainElected_def
  ReasonReconciling_def
  ReasonReconciled_def

lemmas condition_defs = ConditionReady_def ConditionConverged_def ConditionUpdated_def ConditionLicenseApplied_def

text \<open>\<open>metav1.Condition\<close>, without the transition time the API machinery stamps.\<close>

record Condition =
  cType :: string
  cStatus :: string
  cObservedGeneration :: int64
  cReason :: string
  cMessage :: string

definition ConditionTrue :: string where "ConditionTrue = ''True''"
definition ConditionFalse :: string where "ConditionFalse = ''False''"
definition ConditionUnknown :: string where "ConditionUnknown = ''Unknown''"

section \<open>The spec and the status\<close>

record EnvVar =
  envName :: string
  envValue :: string

record ImageSpec =
  imgRepository :: string
  imgTag :: string
  imgPullPolicy :: PullPolicy

record SecretsSpec =
  secName :: string
  secLicenseKey :: string
  secOrganizationKey :: string

record SecretReference =
  srName :: string

record AWSCredentialsSpec =
  awsSecretRef :: SecretReference

record RoleStorageSpec =
  rstLibPVCSize :: "Quantity option"
  rstLibStorageAccessMode :: PersistentVolumeAccessMode
  rstLibStorageClassName :: "string option"
  rstLogFile :: LogFileLocation

record StorageSpec =
  stoRetentionPolicy :: StorageRetentionPolicy
  stoCoordinators :: RoleStorageSpec
  stoData :: RoleStorageSpec

record RoleCoreDumpsSpec =
  rcdSize :: "Quantity option"

record CoreDumpsUploaderSpec =
  cduImage :: string
  cduPullPolicy :: PullPolicy
  cduCommand :: "string list"
  cduArgs :: "string list"
  cduEnv :: "EnvVar list"
  cduEnvFromSecrets :: "string list"
  cduResources :: k8sobj

record CoreDumpsSpec =
  cdCoordinators :: "RoleCoreDumpsSpec option"
  cdData :: "RoleCoreDumpsSpec option"
  cdStorageClassName :: "string option"
  cdCorePattern :: CorePatternOwner
  cdUploader :: "CoreDumpsUploaderSpec option"

record SysctlInitContainerSpec =
  sysMaxMapCount :: int64

record PodSecurityContextSpec =
  pscRunAsUser :: "int64 option"
  pscRunAsGroup :: "int64 option"
  pscFSGroup :: "int64 option"

record ReadinessProbeSpec =
  rpFailureThreshold :: "int32 option"
  rpTimeoutSeconds :: "int32 option"
  rpPeriodSeconds :: "int32 option"

record ResourcesSpec =
  resCoordinators :: k8sobj
  resData :: k8sobj

record RoleLabelsSpec =
  rl_PodLabels :: "(string \<times> string) list"
  rl_StatefulSetLabels :: "(string \<times> string) list"
  rl_ServiceLabels :: "(string \<times> string) list"

record LabelsSpec =
  labCoordinators :: RoleLabelsSpec
  labData :: RoleLabelsSpec

record PodAntiAffinitySpec =
  paaType :: PodAntiAffinityType
  paaScope :: PodAntiAffinityScope
  paaTopologyKey :: string

record RoleSchedulingSpec =
  rscNodeSelector :: "(string \<times> string) list"
  rscTolerations :: "k8sobj list"
  rscTopologySpreadConstraints :: "k8sobj list"
  rscPodAntiAffinity :: "k8sobj option"
  rscPriorityClassName :: string

record SchedulingSpec =
  schPodAntiAffinity :: "PodAntiAffinitySpec option"
  schCoordinators :: RoleSchedulingSpec
  schData :: RoleSchedulingSpec

record ExtraEnvSpec =
  xeCoordinators :: "EnvVar list"
  xeData :: "EnvVar list"

record ExtraVolumesSpec =
  xvCoordinators :: "k8sobj list"
  xvData :: "k8sobj list"

record ExtraVolumeMountsSpec =
  xvmCoordinators :: "k8sobj list"
  xvmData :: "k8sobj list"

record UserContainersSpec =
  ucCoordinators :: "k8sobj list"
  ucData :: "k8sobj list"

record InitContainersSpec =
  icCoordinators :: "k8sobj list"
  icData :: "k8sobj list"

record FlagsSpec =
  flCoordinators :: "(string \<times> FlagValue) list"
  flData :: "(string \<times> FlagValue) list"

record ExternalAccessGatewaySpec =
  eagGatewayClassName :: string
  eagDataPortBase :: "int32 option"
  eagLabels :: "(string \<times> string) list"
  eagAnnotations :: "(string \<times> string) list"

record ExternalAccessRoleSpec =
  earLabels :: "(string \<times> string) list"
  earAnnotations :: "(string \<times> string) list"

record ExternalAccessSpec =
  eaType :: ExternalAccessType
  eaCoordinators :: ExternalAccessRoleSpec
  eaData :: ExternalAccessRoleSpec
  eaGateway :: ExternalAccessGatewaySpec

record ServiceMonitorSpec =
  smLabels :: "(string \<times> string) list"
  smAnnotations :: "(string \<times> string) list"
  smInterval :: string

record GrafanaDashboardSpec =
  gdLabels :: "(string \<times> string) list"
  gdAnnotations :: "(string \<times> string) list"

record VMAgentImageSpec =
  vaiRepository :: string
  vaiTag :: string
  vaiPullPolicy :: PullPolicy

record BasicAuthSecretSpec =
  basSecretRef :: SecretReference

record RemoteWriteSpec =
  rwURL :: string
  rwBasicAuth :: "BasicAuthSecretSpec option"

record VectorImageSpec =
  viRepository :: string
  viTag :: string
  viPullPolicy :: PullPolicy

record VectorRemoteSpec =
  vrImage :: VectorImageSpec
  vrLogsEndpoint :: string
  vrAuth :: "BasicAuthSecretSpec option"
  vrExtraLabels :: "(string \<times> string) list"
  vrResources :: k8sobj

record VMAgentRemoteSpec =
  varImage :: VMAgentImageSpec
  varRemoteWrite :: RemoteWriteSpec
  varScrapeInterval :: string
  varExternalLabels :: "(string \<times> string) list"
  varResources :: k8sobj

record MonitoringSpec =
  monServiceMonitor :: "ServiceMonitorSpec option"
  monGrafanaDashboard :: "GrafanaDashboardSpec option"
  monVMAgentRemote :: "VMAgentRemoteSpec option"
  monVectorRemote :: "VectorRemoteSpec option"

record BoltTLSSpec =
  btlSecretRef :: SecretReference

record IntraClusterTLSSpec =
  itlSecretRef :: SecretReference

record TLSSpec =
  tlsBolt :: "BoltTLSSpec option"
  tlsIntraCluster :: "IntraClusterTLSSpec option"

record MemgraphDBClusterSpec =
  spCoordinators :: "int32 option"
  spDataInstances :: "int32 option"
  spImage :: ImageSpec
  spSecrets :: SecretsSpec
  spAWSCredentials :: "AWSCredentialsSpec option"
  spStorage :: StorageSpec
  spCoreDumps :: CoreDumpsSpec
  spSysctlInitContainer :: "SysctlInitContainerSpec option"
  spSecurityContext :: "PodSecurityContextSpec option"
  spFixOwnershipInitContainer :: "unit option"
  spClusterDomain :: string
  spReadinessProbe :: ReadinessProbeSpec
  spResources :: ResourcesSpec
  spLabels :: LabelsSpec
  spScheduling :: SchedulingSpec
  spExtraEnv :: ExtraEnvSpec
  spFlags :: FlagsSpec
  spExtraVolumes :: ExtraVolumesSpec
  spExtraVolumeMounts :: ExtraVolumeMountsSpec
  spUserContainers :: UserContainersSpec
  spInitContainers :: InitContainersSpec
  spExternalAccess :: "ExternalAccessSpec option"
  spMonitoring :: "MonitoringSpec option"
  spTLS :: "TLSSpec option"
  spFIPS :: "unit option"

record ExternalAddress =
  xaName :: string
  xaAddress :: string

record ExternalAccessStatus =
  easCoordinators :: string
  easData :: "ExternalAddress list"

record MemgraphDBClusterStatus =
  stMain :: string
  stCoordinators :: int32
  stDataInstances :: int32
  stExternalAccess :: "ExternalAccessStatus option"
  stConditions :: "Condition list"

record MemgraphDBCluster =
  mcName :: string
  mcNamespace :: string
  mcGeneration :: int64
  mcSpec :: MemgraphDBClusterSpec
  mcStatus :: MemgraphDBClusterStatus

type_synonym MemgraphDBClusterList = "MemgraphDBCluster list"

section \<open>InitializeConditions\<close>

text \<open>
  \<open>apimeta.FindStatusCondition\<close> and \<open>apimeta.SetStatusCondition\<close> are the \<open>find\<close> and \<open>set\<close> of the
  definitions that use them. Their documented behaviour: the lookup finds the condition of a type, and
  setting a condition makes the lookup of its type find it and leaves every other type alone.
\<close>

definition lawfulConditions ::
  "(Condition list \<Rightarrow> string \<Rightarrow> Condition option) \<Rightarrow> (Condition list \<Rightarrow> Condition \<Rightarrow> Condition list) \<Rightarrow> bool" where
  "lawfulConditions find_cond set_cond \<longleftrightarrow>
     (\<forall>cs c t. find_cond (set_cond cs c) t = (if t = cType c then Some c else find_cond cs t))
     \<and> (\<forall>cs t c. find_cond cs t = Some c \<longrightarrow> cType c = t \<and> c \<in> set cs)"

definition conditionTypes :: "string list" where
  "conditionTypes = [ConditionReady, ConditionConverged, ConditionUpdated, ConditionLicenseApplied]"

definition InitializeConditions ::
  "(Condition list \<Rightarrow> string \<Rightarrow> Condition option) \<Rightarrow> (Condition list \<Rightarrow> Condition \<Rightarrow> Condition list)
    \<Rightarrow> int64 \<Rightarrow> Condition list \<Rightarrow> Condition list" where
  "InitializeConditions find_cond set_cond generation conditions =
     foldl (\<lambda>cs condType.
        if find_cond cs condType = None
        then set_cond cs \<lparr>cType = condType, cStatus = ConditionUnknown, cObservedGeneration = generation,
               cReason = ReasonReconciling, cMessage = []\<rparr>
        else cs) conditions conditionTypes"

lemma InitializeConditions_find:
  assumes "lawfulConditions find_cond set_cond"
  shows "find_cond (InitializeConditions find_cond set_cond generation cs) t =
    (case find_cond cs t of Some c \<Rightarrow> Some c
     | None \<Rightarrow> if t \<in> set conditionTypes
         then Some \<lparr>cType = t, cStatus = ConditionUnknown, cObservedGeneration = generation,
                cReason = ReasonReconciling, cMessage = []\<rparr> else None)"
proof -
  have set: "find_cond (set_cond cs c) t = (if t = cType c then Some c else find_cond cs t)" for cs c t
    using assms by (simp add: lawfulConditions_def)
  show ?thesis
    by (simp add: InitializeConditions_def conditionTypes_def condition_defs set split: option.splits)
qed

text \<open>A lawful pair: conditions as a list searched from the front.\<close>

definition frontFind :: "Condition list \<Rightarrow> string \<Rightarrow> Condition option" where
  "frontFind cs t = find (\<lambda>c. cType c = t) cs"

definition frontSet :: "Condition list \<Rightarrow> Condition \<Rightarrow> Condition list" where
  "frontSet cs c = c # filter (\<lambda>d. cType d \<noteq> cType c) cs"

lemma find_filter_other: "(\<And>x. P x \<Longrightarrow> Q x) \<Longrightarrow> find P (filter Q xs) = find P xs"
  by (induction xs) auto

lemma frontConditions_lawful: "lawfulConditions frontFind frontSet"
proof -
  have "frontFind (frontSet cs c) t = (if t = cType c then Some c else frontFind cs t)" for cs c t
  proof (cases "t = cType c")
    case False
    then show ?thesis
      unfolding frontFind_def frontSet_def by (subst find.simps) (simp add: find_filter_other)
  qed (simp add: frontFind_def frontSet_def)
  then show ?thesis by (auto simp: lawfulConditions_def frontFind_def dest: find_SomeD)
qed

text \<open>
  \<open>InitializeConditions\<close> makes every condition the resource reports present, without touching one
  that is there already, and running it again changes nothing.
\<close>

theorem InitializeConditions_fills:
  assumes "lawfulConditions find_cond set_cond"
  shows "(\<forall>t \<in> set conditionTypes. find_cond (InitializeConditions find_cond set_cond g cs) t \<noteq> None)
    \<and> (\<forall>t c. find_cond cs t = Some c \<longrightarrow> find_cond (InitializeConditions find_cond set_cond g cs) t = Some c)
    \<and> InitializeConditions find_cond set_cond g' (InitializeConditions find_cond set_cond g cs)
        = InitializeConditions find_cond set_cond g cs"
proof -
  have all: "find_cond (InitializeConditions find_cond set_cond g cs) t \<noteq> None" if "t \<in> set conditionTypes" for t
    using that by (simp add: InitializeConditions_find [OF assms] split: option.splits)
  have skip: "foldl (\<lambda>cs t. if find_cond cs t = None then f cs t else cs) xs ts = xs"
    if "\<forall>t \<in> set ts. find_cond xs t \<noteq> None" for f xs ts
    using that by (induction ts) auto
  have "InitializeConditions find_cond set_cond g' (InitializeConditions find_cond set_cond g cs)
        = InitializeConditions find_cond set_cond g cs"
    unfolding InitializeConditions_def [where generation = g'] by (rule skip) (use all in blast)
  with all show ?thesis by (auto simp: InitializeConditions_find [OF assms])
qed

theorem InitializeConditions_fills_witness:
  "InitializeConditions frontFind frontSet 2 (InitializeConditions frontFind frontSet 1 [])
     = InitializeConditions frontFind frontSet 1 []"
  using InitializeConditions_fills [OF frontConditions_lawful] by blast

end
