(* ===== verification/Normalize_Spec.thy ===== *)
theory Normalize_Spec
  imports Api_Types
begin

text \<open>
  \<open>src/internal/resources/resources.go\<close>: the names and labels of a cluster's objects, and \<open>normalize\<close>,
  which resolves every optional field of a spec to its default before any builder reads it.

  A Go map is an association list here; a lookup of a missing key reads the empty string.
\<close>

section \<open>Names and labels\<close>

definition coordinatorComponent :: string where "coordinatorComponent = ''coordinator''"
definition dataComponent :: string where "dataComponent = ''data''"
definition ManagedByLabel :: string where "ManagedByLabel = ''app.kubernetes.io/managed-by''"
definition ManagedByValue :: string where "ManagedByValue = ''memgraph-operator''"
definition NameLabel :: string where "NameLabel = ''app.kubernetes.io/name''"
definition NameValue :: string where "NameValue = ''memgraph''"
definition instanceLabel :: string where "instanceLabel = ''app.kubernetes.io/instance''"
definition componentLabel :: string where "componentLabel = ''app.kubernetes.io/component''"

lemmas label_defs = coordinatorComponent_def dataComponent_def ManagedByLabel_def ManagedByValue_def
  NameLabel_def NameValue_def instanceLabel_def componentLabel_def

type_synonym stringMap = "(string \<times> string) list"

definition CoordinatorName :: "MemgraphDBCluster \<Rightarrow> string" where
  "CoordinatorName cluster = mcName cluster @ ''-'' @ coordinatorComponent"

definition DataName :: "MemgraphDBCluster \<Rightarrow> string" where
  "DataName cluster = mcName cluster @ ''-'' @ dataComponent"

definition selectorLabels :: "MemgraphDBCluster \<Rightarrow> string \<Rightarrow> stringMap" where
  "selectorLabels cluster component =
     [(NameLabel, NameValue), (instanceLabel, mcName cluster), (componentLabel, component)]"

text \<open>\<open>maps.Copy\<close> and an assignment overwrite: a later pair of a key hides an earlier one.\<close>

definition mapsCopy :: "stringMap \<Rightarrow> stringMap \<Rightarrow> stringMap" where
  "mapsCopy dst src = filter (\<lambda>(k, _). k \<notin> fst ` set src) dst @ src"

definition labels :: "MemgraphDBCluster \<Rightarrow> string \<Rightarrow> stringMap \<Rightarrow> stringMap" where
  "labels cluster component custom =
     mapsCopy (mapsCopy custom (selectorLabels cluster component)) [(ManagedByLabel, ManagedByValue)]"

definition CoordinatorPodSelector :: "MemgraphDBCluster \<Rightarrow> stringMap" where
  "CoordinatorPodSelector cluster = selectorLabels cluster coordinatorComponent"

definition DataPodSelector :: "MemgraphDBCluster \<Rightarrow> stringMap" where
  "DataPodSelector cluster = selectorLabels cluster dataComponent"

definition get :: "stringMap \<Rightarrow> string \<Rightarrow> string" where
  "get m k = (case map_of m k of Some v \<Rightarrow> v | None \<Rightarrow> [])"

definition ClusterNameOf :: "stringMap \<Rightarrow> string" where
  "ClusterNameOf ls = (if get ls NameLabel \<noteq> NameValue then [] else get ls instanceLabel)"

definition ClusterNameOfMemgraphPod :: "stringMap \<Rightarrow> string" where
  "ClusterNameOfMemgraphPod ls =
     (if get ls componentLabel = coordinatorComponent \<or> get ls componentLabel = dataComponent
      then ClusterNameOf ls else [])"

section \<open>The normalized spec\<close>

record normalizedSecurityContext =
  nscRunAsUser :: "int64 option"
  nscRunAsGroup :: "int64 option"
  nscFSGroup :: "int64 option"

record normalizedPodAntiAffinity =
  npaTyp :: PodAntiAffinityType
  npaScope :: PodAntiAffinityScope
  npaTopologyKey :: string

record normalizedVector =
  nveImage :: string
  nvePullPolicy :: PullPolicy
  nveLogsEndpoint :: string
  nveAuthSecret :: string
  nveExtraLabels :: stringMap
  nveResources :: k8sobj

record normalizedVMAgent =
  nvmImage :: string
  nvmPullPolicy :: PullPolicy
  nvmRemoteWriteURL :: string
  nvmBasicAuthSecret :: string
  nvmScrapeInterval :: string
  nvmExternalLabels :: stringMap
  nvmResources :: k8sobj

record normalizedGrafanaDashboard =
  ngdLabels :: stringMap
  ngdAnnotations :: stringMap

record normalizedServiceMonitor =
  nsmLabels :: stringMap
  nsmAnnotations :: stringMap
  nsmInterval :: string

record normalizedMonitoring =
  nmoServiceMonitor :: "normalizedServiceMonitor option"
  nmoGrafanaDashboard :: "normalizedGrafanaDashboard option"
  nmoVMAgent :: "normalizedVMAgent option"
  nmoVector :: "normalizedVector option"

record normalizedGateway =
  ngwClassName :: string
  ngwDataPortBase :: int32
  ngwLabels :: stringMap
  ngwAnnotations :: stringMap

record normalizedExternalRole =
  nerLabels :: stringMap
  nerAnnotations :: stringMap

record normalizedExternal =
  nexTyp :: ExternalAccessType
  nexCoordinators :: normalizedExternalRole
  nexData :: normalizedExternalRole
  nexGateway :: normalizedGateway

record normalizedCoreDumps =
  ncdEnabled :: bool
  ncdSize :: Quantity
  ncdClass :: "string option"
  ncdConfigurePattern :: bool
  ncdUploader :: "CoreDumpsUploaderSpec option"

record normalizedProbe =
  nprFailureThreshold :: int32
  nprTimeoutSeconds :: int32
  nprPeriodSeconds :: int32

record normalizedStorage =
  nstLibSize :: Quantity
  nstLibAccessMode :: PersistentVolumeAccessMode
  nstLibClass :: "string option"
  nstFileLogging :: bool

record normalizedRole =
  nroStorage :: normalizedStorage
  nroCoreDumps :: normalizedCoreDumps
  nroResources :: k8sobj
  nroPodLabels :: stringMap
  nroStatefulSetLabels :: stringMap
  nroServiceLabels :: stringMap
  nroEnv :: stringMap
  nroFlags :: stringMap
  nroExtraVolumes :: "k8sobj list"
  nroExtraMounts :: "k8sobj list"
  nroUserContainers :: "k8sobj list"
  nroInitContainers :: "k8sobj list"
  nroScheduling :: RoleSchedulingSpec

record normalizedSpec =
  nCoordinators :: int32
  nDataInstances :: int32
  nImage :: string
  nPullPolicy :: PullPolicy
  nSecretName :: string
  nLicenseKey :: string
  nOrganizationKey :: string
  nClusterDomain :: string
  nRetentionPolicy :: StorageRetentionPolicy
  nReadinessProbe :: normalizedProbe
  nCoordinatorRole :: normalizedRole
  nDataRole :: normalizedRole
  nExternal :: normalizedExternal
  nMonitoring :: normalizedMonitoring
  nBoltTLSSecret :: string
  nIntraClusterTLSSecret :: string
  nAWSCredentialsSecret :: string
  nPodAntiAffinity :: "normalizedPodAntiAffinity option"
  nMaxMapCount :: int64
  nFixOwnership :: bool
  nFIPS :: bool
  nSecurityContext :: normalizedSecurityContext

section \<open>The helpers of normalize\<close>

text \<open>\<open>corev1.PullIfNotPresent\<close> and \<open>corev1.ReadWriteOnce\<close>, constants of the Kubernetes API.\<close>

definition DefaultImagePullPolicy :: PullPolicy where "DefaultImagePullPolicy = ''IfNotPresent''"
definition DefaultStorageAccessMode :: PersistentVolumeAccessMode where "DefaultStorageAccessMode = ''ReadWriteOnce''"
definition DefaultGrafanaDashboardLabel :: string where "DefaultGrafanaDashboardLabel = ''grafana_dashboard''"
definition DefaultGrafanaDashboardValue :: string where "DefaultGrafanaDashboardValue = ''1''"
definition DefaultVMAgentScrapeInterval :: string where "DefaultVMAgentScrapeInterval = ''15s''"

text \<open>\<open>if x == "" { x = fallback }\<close>.\<close>

definition orDefault :: "string \<Rightarrow> string \<Rightarrow> string" where
  "orDefault x fallback = (if x = [] then fallback else x)"

definition intOrDefault :: "int32 option \<Rightarrow> int32 \<Rightarrow> int32" where
  "intOrDefault configured fallback = (case configured of None \<Rightarrow> fallback | Some i \<Rightarrow> i)"

definition chownTarget :: "normalizedSecurityContext \<Rightarrow> (int64 \<times> int64) option" where
  "chownTarget c =
     (case nscRunAsUser c of
        None \<Rightarrow> None
      | Some uid \<Rightarrow> (case nscRunAsGroup c of
            Some gid \<Rightarrow> Some (uid, gid)
          | None \<Rightarrow> (case nscFSGroup c of Some gid \<Rightarrow> Some (uid, gid) | None \<Rightarrow> None)))"

definition normalizeProbe :: "ReadinessProbeSpec \<Rightarrow> normalizedProbe" where
  "normalizeProbe spec = \<lparr>
     nprFailureThreshold = intOrDefault (rpFailureThreshold spec) DefaultProbeFailureThreshold,
     nprTimeoutSeconds = intOrDefault (rpTimeoutSeconds spec) DefaultProbeTimeoutSeconds,
     nprPeriodSeconds = intOrDefault (rpPeriodSeconds spec) DefaultProbePeriodSeconds\<rparr>"

definition normalizeFlags :: "(string \<times> FlagValue) list \<Rightarrow> stringMap" where
  "normalizeFlags spec = (if length spec = 0 then [] else map (\<lambda>(key, val). (key, val)) spec)"

definition normalizeEnv :: "EnvVar list \<Rightarrow> stringMap" where
  "normalizeEnv spec = (if length spec = 0 then [] else map (\<lambda>v. (envName v, envValue v)) spec)"

definition normalizeStorage :: "RoleStorageSpec \<Rightarrow> normalizedStorage" where
  "normalizeStorage spec = \<lparr>
     nstLibSize = (case rstLibPVCSize spec of Some s \<Rightarrow> s | None \<Rightarrow> DefaultLibPVCSize),
     nstLibAccessMode = orDefault (rstLibStorageAccessMode spec) DefaultStorageAccessMode,
     nstLibClass = rstLibStorageClassName spec,
     nstFileLogging = (rstLogFile spec \<noteq> LogFileNone)\<rparr>"

definition normalizeVMAgent :: "VMAgentRemoteSpec \<Rightarrow> normalizedVMAgent" where
  "normalizeVMAgent block = \<lparr>
     nvmImage = orDefault (vaiRepository (varImage block)) DefaultVMAgentImageRepository @ '':''
       @ orDefault (vaiTag (varImage block)) DefaultVMAgentImageTag,
     nvmPullPolicy = orDefault (vaiPullPolicy (varImage block)) DefaultImagePullPolicy,
     nvmRemoteWriteURL = rwURL (varRemoteWrite block),
     nvmBasicAuthSecret = (case rwBasicAuth (varRemoteWrite block) of
        Some auth \<Rightarrow> srName (basSecretRef auth) | None \<Rightarrow> []),
     nvmScrapeInterval = orDefault (varScrapeInterval block) DefaultVMAgentScrapeInterval,
     nvmExternalLabels = varExternalLabels block,
     nvmResources = varResources block\<rparr>"

definition normalizeVector :: "VectorRemoteSpec \<Rightarrow> normalizedVector" where
  "normalizeVector block = \<lparr>
     nveImage = orDefault (viRepository (vrImage block)) DefaultVectorImageRepository @ '':''
       @ orDefault (viTag (vrImage block)) DefaultVectorImageTag,
     nvePullPolicy = orDefault (viPullPolicy (vrImage block)) DefaultImagePullPolicy,
     nveLogsEndpoint = vrLogsEndpoint block,
     nveAuthSecret = (case vrAuth block of Some auth \<Rightarrow> srName (basSecretRef auth) | None \<Rightarrow> []),
     nveExtraLabels = vrExtraLabels block,
     nveResources = vrResources block\<rparr>"

definition normalizeSecurityContext :: "PodSecurityContextSpec option \<Rightarrow> normalizedSecurityContext" where
  "normalizeSecurityContext spec = (case spec of
       None \<Rightarrow> \<lparr>nscRunAsUser = Some DefaultRunAsUser, nscRunAsGroup = Some DefaultRunAsGroup,
         nscFSGroup = Some DefaultFSGroup\<rparr>
     | Some s \<Rightarrow> \<lparr>nscRunAsUser = pscRunAsUser s, nscRunAsGroup = pscRunAsGroup s, nscFSGroup = pscFSGroup s\<rparr>)"

definition normalizeMaxMapCount :: "SysctlInitContainerSpec option \<Rightarrow> int64" where
  "normalizeMaxMapCount spec = (case spec of
       None \<Rightarrow> 0
     | Some s \<Rightarrow> if sysMaxMapCount s > 0 then sysMaxMapCount s else DefaultMaxMapCount)"

definition normalizeCoreDumps :: "CoreDumpsSpec \<Rightarrow> RoleCoreDumpsSpec option \<Rightarrow> normalizedCoreDumps" where
  "normalizeCoreDumps shared role = \<lparr>
     ncdEnabled = (role \<noteq> None),
     ncdSize = (case role of None \<Rightarrow> DefaultCoreDumpsSize
        | Some r \<Rightarrow> (case rcdSize r of Some s \<Rightarrow> s | None \<Rightarrow> DefaultCoreDumpsSize)),
     ncdClass = cdStorageClassName shared,
     ncdConfigurePattern = (cdCorePattern shared \<noteq> CorePatternNode),
     ncdUploader = cdUploader shared\<rparr>"

definition imageRef :: "ImageSpec \<Rightarrow> string" where
  "imageRef img =
     (if imgRepository img = [] \<and> imgTag img = [] then DefaultImageReference
      else orDefault (imgRepository img) DefaultImageRepository @ '':''
        @ orDefault (imgTag img) DefaultImageTag)"

record roleSpec =
  rosStorage :: RoleStorageSpec
  rosCoreDumps :: normalizedCoreDumps
  rosResources :: k8sobj
  rosLabels :: RoleLabelsSpec
  rosEnv :: "EnvVar list"
  rosFlags :: "(string \<times> FlagValue) list"
  rosExtraVolumes :: "k8sobj list"
  rosExtraMounts :: "k8sobj list"
  rosUserContainers :: "k8sobj list"
  rosInitContainers :: "k8sobj list"
  rosScheduling :: RoleSchedulingSpec

definition normalizeRole :: "roleSpec \<Rightarrow> normalizedRole" where
  "normalizeRole role = \<lparr>
     nroStorage = normalizeStorage (rosStorage role),
     nroCoreDumps = rosCoreDumps role,
     nroResources = rosResources role,
     nroPodLabels = rl_PodLabels (rosLabels role),
     nroStatefulSetLabels = rl_StatefulSetLabels (rosLabels role),
     nroServiceLabels = rl_ServiceLabels (rosLabels role),
     nroEnv = normalizeEnv (rosEnv role),
     nroFlags = normalizeFlags (rosFlags role),
     nroExtraVolumes = rosExtraVolumes role,
     nroExtraMounts = rosExtraMounts role,
     nroUserContainers = rosUserContainers role,
     nroInitContainers = rosInitContainers role,
     nroScheduling = rosScheduling role\<rparr>"

section \<open>normalize\<close>

definition zeroExternal :: normalizedExternal where
  "zeroExternal = \<lparr>nexTyp = [], nexCoordinators = \<lparr>nerLabels = [], nerAnnotations = []\<rparr>,
     nexData = \<lparr>nerLabels = [], nerAnnotations = []\<rparr>,
     nexGateway = \<lparr>ngwClassName = [], ngwDataPortBase = 0, ngwLabels = [], ngwAnnotations = []\<rparr>\<rparr>"

definition normalizeExternal :: "ExternalAccessSpec option \<Rightarrow> normalizedExternal" where
  "normalizeExternal access = (case access of None \<Rightarrow> zeroExternal
     | Some ea \<Rightarrow> \<lparr>
         nexTyp = orDefault (eaType ea) ExternalAccessLoadBalancer,
         nexCoordinators = \<lparr>nerLabels = earLabels (eaCoordinators ea), nerAnnotations = earAnnotations (eaCoordinators ea)\<rparr>,
         nexData = \<lparr>nerLabels = earLabels (eaData ea), nerAnnotations = earAnnotations (eaData ea)\<rparr>,
         nexGateway = \<lparr>ngwClassName = eagGatewayClassName (eaGateway ea),
           ngwDataPortBase = intOrDefault (eagDataPortBase (eaGateway ea)) DefaultGatewayDataPortBase,
           ngwLabels = eagLabels (eaGateway ea), ngwAnnotations = eagAnnotations (eaGateway ea)\<rparr>\<rparr>)"

definition normalizeMonitoring :: "MonitoringSpec option \<Rightarrow> normalizedMonitoring" where
  "normalizeMonitoring monitoring = \<lparr>
     nmoServiceMonitor = Option.bind monitoring (\<lambda>m. map_option (\<lambda>sm. \<lparr>nsmLabels = smLabels sm,
        nsmAnnotations = smAnnotations sm, nsmInterval = smInterval sm\<rparr>) (monServiceMonitor m)),
     nmoGrafanaDashboard = Option.bind monitoring (\<lambda>m. map_option (\<lambda>gd. \<lparr>
        ngdLabels = (if length (gdLabels gd) = 0 then [(DefaultGrafanaDashboardLabel, DefaultGrafanaDashboardValue)]
          else gdLabels gd), ngdAnnotations = gdAnnotations gd\<rparr>) (monGrafanaDashboard m)),
     nmoVMAgent = Option.bind monitoring (\<lambda>m. map_option normalizeVMAgent (monVMAgentRemote m)),
     nmoVector = Option.bind monitoring (\<lambda>m. map_option normalizeVector (monVectorRemote m))\<rparr>"

definition normalizeAntiAffinity :: "PodAntiAffinitySpec option \<Rightarrow> normalizedPodAntiAffinity option" where
  "normalizeAntiAffinity rule = map_option (\<lambda>r. \<lparr>
     npaTyp = orDefault (paaType r) DefaultPodAntiAffinityType,
     npaScope = orDefault (paaScope r) DefaultPodAntiAffinityScope,
     npaTopologyKey = orDefault (paaTopologyKey r) DefaultPodAntiAffinityTopologyKey\<rparr>) rule"

definition coordinatorRoleSpec :: "MemgraphDBClusterSpec \<Rightarrow> roleSpec" where
  "coordinatorRoleSpec spec = \<lparr>
     rosStorage = stoCoordinators (spStorage spec),
     rosCoreDumps = normalizeCoreDumps (spCoreDumps spec) (cdCoordinators (spCoreDumps spec)),
     rosResources = resCoordinators (spResources spec),
     rosLabels = labCoordinators (spLabels spec),
     rosEnv = xeCoordinators (spExtraEnv spec),
     rosFlags = flCoordinators (spFlags spec),
     rosExtraVolumes = xvCoordinators (spExtraVolumes spec),
     rosExtraMounts = xvmCoordinators (spExtraVolumeMounts spec),
     rosUserContainers = ucCoordinators (spUserContainers spec),
     rosInitContainers = icCoordinators (spInitContainers spec),
     rosScheduling = schCoordinators (spScheduling spec)\<rparr>"

definition dataRoleSpec :: "MemgraphDBClusterSpec \<Rightarrow> roleSpec" where
  "dataRoleSpec spec = \<lparr>
     rosStorage = stoData (spStorage spec),
     rosCoreDumps = normalizeCoreDumps (spCoreDumps spec) (cdData (spCoreDumps spec)),
     rosResources = resData (spResources spec),
     rosLabels = labData (spLabels spec),
     rosEnv = xeData (spExtraEnv spec),
     rosFlags = flData (spFlags spec),
     rosExtraVolumes = xvData (spExtraVolumes spec),
     rosExtraMounts = xvmData (spExtraVolumeMounts spec),
     rosUserContainers = ucData (spUserContainers spec),
     rosInitContainers = icData (spInitContainers spec),
     rosScheduling = schData (spScheduling spec)\<rparr>"

definition normalize :: "MemgraphDBClusterSpec \<Rightarrow> normalizedSpec" where
  "normalize spec = \<lparr>
     nCoordinators = intOrDefault (spCoordinators spec) DefaultCoordinatorCount,
     nDataInstances = intOrDefault (spDataInstances spec) DefaultDataInstanceCount,
     nImage = imageRef (spImage spec),
     nPullPolicy = orDefault (imgPullPolicy (spImage spec)) DefaultImagePullPolicy,
     nSecretName = orDefault (secName (spSecrets spec)) DefaultSecretName,
     nLicenseKey = orDefault (secLicenseKey (spSecrets spec)) DefaultLicenseSecretKey,
     nOrganizationKey = orDefault (secOrganizationKey (spSecrets spec)) DefaultOrganizationSecretKey,
     nClusterDomain = orDefault (spClusterDomain spec) DefaultClusterDomain,
     nRetentionPolicy = orDefault (stoRetentionPolicy (spStorage spec)) DefaultStorageRetention,
     nReadinessProbe = normalizeProbe (spReadinessProbe spec),
     nCoordinatorRole = normalizeRole (coordinatorRoleSpec spec),
     nDataRole = normalizeRole (dataRoleSpec spec),
     nExternal = normalizeExternal (spExternalAccess spec),
     nMonitoring = normalizeMonitoring (spMonitoring spec),
     nBoltTLSSecret = (case Option.bind (spTLS spec) tlsBolt of
        Some bolt \<Rightarrow> srName (btlSecretRef bolt) | None \<Rightarrow> []),
     nIntraClusterTLSSecret = (case Option.bind (spTLS spec) tlsIntraCluster of
        Some intra \<Rightarrow> srName (itlSecretRef intra) | None \<Rightarrow> []),
     nAWSCredentialsSecret = (case spAWSCredentials spec of
        Some aws \<Rightarrow> srName (awsSecretRef aws) | None \<Rightarrow> []),
     nPodAntiAffinity = normalizeAntiAffinity (schPodAntiAffinity (spScheduling spec)),
     nMaxMapCount = normalizeMaxMapCount (spSysctlInitContainer spec),
     nFixOwnership = (spFixOwnershipInitContainer spec \<noteq> None),
     nFIPS = (spFIPS spec \<noteq> None),
     nSecurityContext = normalizeSecurityContext (spSecurityContext spec)\<rparr>"

record LicenseSecret =
  lsName :: string
  lsLicenseKey :: string
  lsOrganizationKey :: string

definition LicenseSecretOf :: "MemgraphDBCluster \<Rightarrow> LicenseSecret" where
  "LicenseSecretOf cluster = (let spec = normalize (mcSpec cluster) in
     \<lparr>lsName = nSecretName spec, lsLicenseKey = nLicenseKey spec, lsOrganizationKey = nOrganizationKey spec\<rparr>)"

definition AWSCredentialsSecretOf :: "MemgraphDBCluster \<Rightarrow> string" where
  "AWSCredentialsSecretOf cluster = nAWSCredentialsSecret (normalize (mcSpec cluster))"

section \<open>The empty spec\<close>

text \<open>The zero value of every struct of a spec: what \<open>spec: {}\<close> decodes to.\<close>

definition emptyRoleStorage :: RoleStorageSpec where
  "emptyRoleStorage = \<lparr>rstLibPVCSize = None, rstLibStorageAccessMode = [], rstLibStorageClassName = None,
     rstLogFile = []\<rparr>"

definition emptyRoleLabels :: RoleLabelsSpec where
  "emptyRoleLabels = \<lparr>rl_PodLabels = [], rl_StatefulSetLabels = [], rl_ServiceLabels = []\<rparr>"

definition emptyRoleScheduling :: RoleSchedulingSpec where
  "emptyRoleScheduling = \<lparr>rscNodeSelector = [], rscTolerations = [], rscTopologySpreadConstraints = [],
     rscPodAntiAffinity = None, rscPriorityClassName = []\<rparr>"

definition emptySpec :: MemgraphDBClusterSpec where
  "emptySpec = \<lparr>spCoordinators = None, spDataInstances = None,
     spImage = \<lparr>imgRepository = [], imgTag = [], imgPullPolicy = []\<rparr>,
     spSecrets = \<lparr>secName = [], secLicenseKey = [], secOrganizationKey = []\<rparr>,
     spAWSCredentials = None,
     spStorage = \<lparr>stoRetentionPolicy = [], stoCoordinators = emptyRoleStorage, stoData = emptyRoleStorage\<rparr>,
     spCoreDumps = \<lparr>cdCoordinators = None, cdData = None, cdStorageClassName = None, cdCorePattern = [],
       cdUploader = None\<rparr>,
     spSysctlInitContainer = None, spSecurityContext = None, spFixOwnershipInitContainer = None,
     spClusterDomain = [],
     spReadinessProbe = \<lparr>rpFailureThreshold = None, rpTimeoutSeconds = None, rpPeriodSeconds = None\<rparr>,
     spResources = \<lparr>resCoordinators = [], resData = []\<rparr>,
     spLabels = \<lparr>labCoordinators = emptyRoleLabels, labData = emptyRoleLabels\<rparr>,
     spScheduling = \<lparr>schPodAntiAffinity = None, schCoordinators = emptyRoleScheduling, schData = emptyRoleScheduling\<rparr>,
     spExtraEnv = \<lparr>xeCoordinators = [], xeData = []\<rparr>,
     spFlags = \<lparr>flCoordinators = [], flData = []\<rparr>,
     spExtraVolumes = \<lparr>xvCoordinators = [], xvData = []\<rparr>,
     spExtraVolumeMounts = \<lparr>xvmCoordinators = [], xvmData = []\<rparr>,
     spUserContainers = \<lparr>ucCoordinators = [], ucData = []\<rparr>,
     spInitContainers = \<lparr>icCoordinators = [], icData = []\<rparr>,
     spExternalAccess = None, spMonitoring = None, spTLS = None, spFIPS = None\<rparr>"

definition exCluster :: MemgraphDBCluster where
  "exCluster = \<lparr>mcName = ''db'', mcNamespace = ''ns'', mcGeneration = 1, mcSpec = emptySpec,
     mcStatus = \<lparr>stMain = [], stCoordinators = 0, stDataInstances = 0, stExternalAccess = None,
       stConditions = []\<rparr>\<rparr>"

section \<open>Identity labels\<close>

lemma map_of_filter_keys: "map_of (filter (\<lambda>(k, _). k \<notin> ks) m) k = (if k \<in> ks then None else map_of m k)"
  by (induction m) auto

lemma map_of_mapsCopy:
  "map_of (mapsCopy dst src) k = (case map_of src k of Some v \<Rightarrow> Some v | None \<Rightarrow> map_of dst k)"
proof (cases "map_of src k")
  case None
  then have "k \<notin> fst ` set src" by (simp only: map_of_eq_None_iff simp_thms)
  with None show ?thesis by (simp add: mapsCopy_def map_add_def map_of_filter_keys split: option.splits)
next
  case (Some v)
  then have "k \<in> fst ` set src" by (metis map_of_eq_None_iff option.distinct(1))
  with Some show ?thesis by (simp add: mapsCopy_def map_add_def map_of_filter_keys)
qed

lemma map_of_labels:
  "map_of (labels cluster component custom) k =
     (if k = ManagedByLabel then Some ManagedByValue
      else if k = NameLabel then Some NameValue
      else if k = instanceLabel then Some (mcName cluster)
      else if k = componentLabel then Some component
      else map_of custom k)"
  by (simp add: labels_def map_of_mapsCopy selectorLabels_def label_defs)

text \<open>A Kubernetes selector matches an object that carries every one of its labels.\<close>

definition selects :: "stringMap \<Rightarrow> stringMap \<Rightarrow> bool" where
  "selects selector ls \<longleftrightarrow> (\<forall>(k, v) \<in> set selector. map_of ls k = Some v)"

text \<open>
  Whatever custom labels a spec gives its objects, they cannot detach one from its cluster or pull
  it into another: a role's selector matches the objects of exactly that cluster and role, the cluster
  name is read back off them, and every custom label that is not an identity label is kept.
\<close>

theorem labels_identify:
  "(selects (selectorLabels cluster' component') (labels cluster component custom)
      \<longleftrightarrow> mcName cluster' = mcName cluster \<and> component' = component)
   \<and> ClusterNameOf (labels cluster component custom) = mcName cluster
   \<and> ClusterNameOfMemgraphPod (labels cluster component custom) =
       (if component \<in> {coordinatorComponent, dataComponent} then mcName cluster else [])
   \<and> get (labels cluster component custom) ManagedByLabel = ManagedByValue
   \<and> (\<forall>k. k \<notin> {ManagedByLabel, NameLabel, instanceLabel, componentLabel} \<longrightarrow>
        map_of (labels cluster component custom) k = map_of custom k)"
  by (auto simp: selects_def selectorLabels_def ClusterNameOf_def ClusterNameOfMemgraphPod_def get_def
      map_of_labels label_defs)

theorem labels_identify_witness:
  "map_of (labels exCluster dataComponent [(''team'', ''db''), (NameLabel, ''x'')]) ''team'' = Some ''db''"
proof -
  have "''team'' \<notin> {ManagedByLabel, NameLabel, instanceLabel, componentLabel}" by (simp add: label_defs)
  with labels_identify [of exCluster dataComponent exCluster dataComponent "[(''team'', ''db''), (NameLabel, ''x'')]"]
  show ?thesis by simp
qed

end
