(* ===== verification/Memgraph_Client.thy ===== *)
theory Memgraph_Client
  imports Go_Prelude
begin

text \<open>
  The data of \<open>src/internal/memgraph/client.go\<close>: rows of SHOW INSTANCES and SHOW REPLICATION LAG, the
  member specifications the operator registers, the instance names derived from ordinals and their
  parsers, and the \<open>Client\<close> interface as a record of operations over an arbitrary cluster state.

  The locale \<open>name_codec\<close> is the contract of a printer of ordinals and its parser; coordinator names,
  data instance names and pod names are its instances. The locale \<open>keyed_view\<close> is the contract of the
  \<open>index\<close> helpers that turn an observed view into a map; the planner and the rollout are its clients.
\<close>

section \<open>SHOW INSTANCES and SHOW REPLICATION LAG\<close>

definition RoleLeader :: string where "RoleLeader = ''leader''"
definition RoleFollower :: string where "RoleFollower = ''follower''"
definition RoleMain :: string where "RoleMain = ''main''"
definition RoleReplica :: string where "RoleReplica = ''replica''"
definition HealthUp :: string where "HealthUp = ''up''"

lemmas role_defs = RoleLeader_def RoleFollower_def RoleMain_def RoleReplica_def HealthUp_def

record Instance =
  iName :: string
  iBoltServer :: string
  iCoordinatorServer :: string
  iManagementServer :: string
  iHealth :: string
  iRole :: string

text \<open>The zero value a missing key of a Go \<open>map[string]Instance\<close> reads as.\<close>

definition zeroInstance :: Instance where
  "zeroInstance = \<lparr>iName = [], iBoltServer = [], iCoordinatorServer = [], iManagementServer = [],
     iHealth = [], iRole = []\<rparr>"

definition IsLeader :: "Instance \<Rightarrow> bool" where
  "IsLeader i = equalFold (iRole i) RoleLeader"

definition IsMain :: "Instance \<Rightarrow> bool" where
  "IsMain i = equalFold (iRole i) RoleMain"

definition IsUp :: "Instance \<Rightarrow> bool" where
  "IsUp i = equalFold (iHealth i) HealthUp"

lemma zeroInstance_not [simp]:
  "\<not> IsLeader zeroInstance" "\<not> IsMain zeroInstance" "\<not> IsUp zeroInstance"
  by (simp_all add: IsLeader_def IsMain_def IsUp_def zeroInstance_def equalFold_def role_defs)

text \<open>The role constants are pairwise different under case folding.\<close>

lemma ascii_lower_id [simp]:
  "ascii_lower CHR ''l'' = CHR ''l''" "ascii_lower CHR ''e'' = CHR ''e''"
  "ascii_lower CHR ''m'' = CHR ''m''" "ascii_lower CHR ''r'' = CHR ''r''"
  "ascii_lower CHR ''f'' = CHR ''f''" "ascii_lower CHR ''u'' = CHR ''u''"
  by (simp_all add: ascii_lower_def)

lemma equalFold_roles [simp]:
  "\<not> equalFold RoleFollower RoleLeader" "\<not> equalFold RoleMain RoleLeader"
  "\<not> equalFold RoleReplica RoleLeader" "\<not> equalFold RoleLeader RoleMain"
  "\<not> equalFold RoleFollower RoleMain" "\<not> equalFold RoleReplica RoleMain"
  by (simp_all add: equalFold_def role_defs)

lemma leader_not_main: "IsLeader i \<Longrightarrow> \<not> IsMain i"
  by (auto simp: IsLeader_def IsMain_def equalFold_def role_defs)

record DatabaseLag =
  dlDatabase :: string
  dlCommittedTxns :: int64
  dlTxnsBehindMain :: int64

record ReplicationLag =
  rlInstance :: string
  rlDatabases :: "DatabaseLag list"

definition zeroReplicationLag :: ReplicationLag where
  "zeroReplicationLag = \<lparr>rlInstance = [], rlDatabases = []\<rparr>"

definition IsCaughtUp :: "ReplicationLag \<Rightarrow> bool" where
  "IsCaughtUp l = (if length (rlDatabases l) = 0 then False
     else list_all (\<lambda>database. \<not> dlTxnsBehindMain database > 0) (rlDatabases l))"

lemma IsCaughtUp_iff:
  "IsCaughtUp l \<longleftrightarrow> rlDatabases l \<noteq> [] \<and> (\<forall>d \<in> set (rlDatabases l). dlTxnsBehindMain d \<le> 0)"
  by (auto simp: IsCaughtUp_def list_all_iff)

lemma zeroReplicationLag_not [simp]: "\<not> IsCaughtUp zeroReplicationLag"
  by (simp add: IsCaughtUp_def zeroReplicationLag_def)

section \<open>Member specifications and their names\<close>

record CoordinatorSpec =
  csID :: int32
  csBoltServer :: string
  csCoordinatorServer :: string
  csManagementServer :: string

record DataInstanceSpec =
  dsName :: string
  dsBoltServer :: string
  dsManagementServer :: string
  dsReplicationServer :: string

definition coordinatorPrefix :: string where
  "coordinatorPrefix = ''coordinator_''"

text \<open>\<open>CoordinatorSpec.Name\<close>, the format \<open>coordinator_%d\<close>.\<close>

definition csName :: "CoordinatorSpec \<Rightarrow> string" where
  "csName c = coordinatorPrefix @ itoa (csID c)"

text \<open>
  \<open>fmt.Sscanf(name, prefix + "%d", &id)\<close> for a prefix with no spaces or verbs and an \<open>int32\<close>
  target, on ASCII input: the prefix must match, blanks before the number are skipped and a newline
  there is an error, an optional sign and the longest run of digits are read, the value must fit, and
  whatever follows the number is ignored.
\<close>

definition is_blank :: "char \<Rightarrow> bool" where
  "is_blank c \<longleftrightarrow> c = CHR '' '' \<or> (9 \<le> (of_char c :: nat) \<and> (of_char c :: nat) \<le> 13)"

definition scan_digits :: "string \<Rightarrow> nat option" where
  "scan_digits s = parseDigits (takeWhile is_digit s)"

definition scan_int32 :: "string \<Rightarrow> int32 option" where
  "scan_int32 s = (case s of
       [] \<Rightarrow> None
     | c # cs \<Rightarrow>
         if c = CHR ''-'' then Option.bind (scan_digits cs) (\<lambda>n. inRange32 (- int n))
         else if c = CHR ''+'' then Option.bind (scan_digits cs) (\<lambda>n. inRange32 (int n))
         else Option.bind (scan_digits s) (\<lambda>n. inRange32 (int n)))"

definition sscanf_d :: "string \<Rightarrow> string \<Rightarrow> int32 option" where
  "sscanf_d prefix s = (case cutPrefix s prefix of
       None \<Rightarrow> None
     | Some rest \<Rightarrow>
         if CHR 0x0A \<in> set (takeWhile is_blank rest) then None
         else scan_int32 (dropWhile is_blank rest))"

lemma takeWhile_all: "list_all P s \<Longrightarrow> takeWhile P s = s"
  by (induction s) auto

lemma scan_int32_itoa:
  assumes "is_int32 i" shows "scan_int32 (itoa i) = Some i"
proof -
  have sd: "scan_digits (utoa n) = Some n" for n
    by (simp add: scan_digits_def takeWhile_all)
  show ?thesis
  proof (cases "i < 0")
    case True
    with assms show ?thesis by (simp add: scan_int32_def itoa_def sd inRange32_def)
  next
    case False
    obtain c cs where u: "utoa (nat i) = c # cs" by (cases "utoa (nat i)") auto
    with utoa_not_sign [of "nat i"] have "c \<noteq> CHR ''-''" "c \<noteq> CHR ''+''" by auto
    with u sd [of "nat i"] False assms show ?thesis
      by (simp add: scan_int32_def itoa_def inRange32_def)
  qed
qed

lemma is_blank_minus: "\<not> is_blank CHR ''-''"
  by (simp add: is_blank_def)

lemma itoa_no_blank: "takeWhile is_blank (itoa i) = []" "dropWhile is_blank (itoa i) = itoa i"
proof -
  obtain c cs where u: "utoa (nat i) = c # cs" by (cases "utoa (nat i)") auto
  with is_digit_hd_utoa [of "nat i"] have "\<not> is_blank c" by (auto simp: is_blank_def is_digit_def)
  with u show "takeWhile is_blank (itoa i) = []" "dropWhile is_blank (itoa i) = itoa i"
    using is_blank_minus by (simp_all add: itoa_def)
qed

lemma sscanf_d_itoa: "is_int32 i \<Longrightarrow> sscanf_d p (p @ itoa i) = Some i"
  by (simp add: sscanf_d_def scan_int32_itoa itoa_no_blank)

text \<open>\<open>CoordinatorIDFromName\<close>, its error (the name does not scan) as \<^term>\<open>None\<close>.\<close>

definition CoordinatorIDFromName :: "string \<Rightarrow> int32 option" where
  "CoordinatorIDFromName name = sscanf_d coordinatorPrefix name"

subsection \<open>The contract of a name and its parser\<close>

text \<open>
  A printer of ordinals and its parser that cannot drift apart: the parser reads back what the printer
  wrote, for every ordinal the name is used with.
\<close>

locale name_codec =
  fixes valid :: "int32 \<Rightarrow> bool"
    and encode :: "int32 \<Rightarrow> string"
    and decode :: "string \<Rightarrow> int32 option"
  assumes decode_encode: "valid i \<Longrightarrow> decode (encode i) = Some i"
begin

lemma encode_inject: "valid i \<Longrightarrow> valid j \<Longrightarrow> encode i = encode j \<longleftrightarrow> i = j"
  by (metis decode_encode option.inject)

lemma distinct_encode:
  assumes "\<And>i. i \<in> set is \<Longrightarrow> valid i"
  shows "distinct (map encode is) \<longleftrightarrow> distinct is"
  using assms by (induction "is") (auto simp: encode_inject)

lemma decode_unique: "valid i \<Longrightarrow> decode (encode i) = Some j \<Longrightarrow> j = i"
  by (simp add: decode_encode)

end

definition coordinatorNameOf :: "int32 \<Rightarrow> string" where
  "coordinatorNameOf i = csName \<lparr>csID = i, csBoltServer = [], csCoordinatorServer = [], csManagementServer = []\<rparr>"

interpretation coordinator_names: name_codec is_int32 coordinatorNameOf CoordinatorIDFromName
  by unfold_locales
    (simp add: coordinatorNameOf_def csName_def CoordinatorIDFromName_def sscanf_d_itoa)

lemma csName_coordinatorNameOf: "csName c = coordinatorNameOf (csID c)"
  by (simp add: coordinatorNameOf_def csName_def)

section \<open>Views keyed by name\<close>

text \<open>
  The contract of an \<open>index\<close> helper: a lookup answers with a row of the view that carries the key,
  and answers nothing exactly when no row does.
\<close>

locale keyed_view =
  fixes rowKey :: "'row \<Rightarrow> 'k"
    and build :: "'row list \<Rightarrow> 'k \<Rightarrow> 'row option"
  assumes build_None: "build rows k = None \<longleftrightarrow> k \<notin> rowKey ` set rows"
    and build_Some: "build rows k = Some r \<Longrightarrow> r \<in> set rows \<and> rowKey r = k"
begin

lemma build_empty [simp]: "build [] k = None"
  by (simp add: build_None)

lemma present_iff: "(\<exists>r. build rows k = Some r) \<longleftrightarrow> (\<exists>r \<in> set rows. rowKey r = k)"
  using build_None [of rows k] by force

lemma build_row:
  assumes "distinct (map rowKey rows)" and "r \<in> set rows"
  shows "build rows (rowKey r) = Some r"
proof -
  from assms(2) have "build rows (rowKey r) \<noteq> None" by (auto simp: build_None)
  then obtain q where q: "build rows (rowKey r) = Some q" by auto
  with build_Some have "q \<in> set rows" "rowKey q = rowKey r" by blast+
  with assms have "q = r" by (auto simp: distinct_map inj_on_def)
  with q show ?thesis by simp
qed

lemma build_Some_iff:
  assumes "distinct (map rowKey rows)"
  shows "build rows k = Some r \<longleftrightarrow> r \<in> set rows \<and> rowKey r = k"
  using build_Some build_row [OF assms] by blast

end

lemma index_by_keyed_view: "keyed_view key (index_by key)"
  by unfold_locales (auto simp: index_by_None dest: index_by_SomeD)

section \<open>The Client interface\<close>

text \<open>
  One HA management query per method, each a step of an arbitrary cluster state: the query's error,
  nil when the cluster accepted it, and the state it left.
\<close>

type_synonym 's call = "'s \<Rightarrow> goerror option \<times> 's"

record 's Client =
  clShowInstances :: "'s \<Rightarrow> goerror + Instance list"
  clShowReplicationLag :: "'s \<Rightarrow> goerror + ReplicationLag list"
  clAddCoordinator :: "CoordinatorSpec \<Rightarrow> 's call"
  clRegisterInstance :: "DataInstanceSpec \<Rightarrow> 's call"
  clSetInstanceToMain :: "string \<Rightarrow> 's call"
  clUpdateCoordinatorBoltServer :: "int32 \<Rightarrow> string \<Rightarrow> 's call"
  clUpdateInstanceBoltServer :: "string \<Rightarrow> string \<Rightarrow> 's call"
  clDemoteInstance :: "string \<Rightarrow> 's call"
  clUnregisterInstance :: "string \<Rightarrow> 's call"
  clRemoveCoordinator :: "int32 \<Rightarrow> 's call"
  clYieldLeadership :: "'s call"

end
