(* ===== verification/Planner.thy ===== *)
theory Planner
  imports Memgraph_Client
begin

text \<open>
  \<open>src/internal/planner/planner.go\<close>: the pure diff from a declared topology, an observed SHOW INSTANCES
  view and an observed SHOW REPLICATION LAG view to the ordered commands still needed, the commands
  themselves with their execution against a \<open>Client\<close>, and the two questions the controller asks of a
  view beside the plan, \<open>Retired\<close> and \<open>Registered\<close>.

  A slice index out of range is a panic in Go: \<open>promotionTarget\<close> and \<open>Plan\<close> return \<^term>\<open>None\<close> for it,
  and \<open>Plan_total\<close> shows that it never happens.
\<close>

named_theorems plan_defs \<comment> \<open>the definitions a planning proof unfolds\<close>
named_theorems plan_simps \<comment> \<open>membership of each section of a plan\<close>

section \<open>Topology and commands\<close>

record Topology =
  tCoordinators :: "CoordinatorSpec list"
  tDataInstances :: "DataInstanceSpec list"
  tRetiringCoordinators :: "CoordinatorSpec list"
  tRetiringDataInstances :: "DataInstanceSpec list"

datatype Command =
    AddCoordinator CoordinatorSpec
  | RegisterInstance DataInstanceSpec
  | UpdateCoordinatorBoltServer CoordinatorSpec
  | UpdateInstanceBoltServer DataInstanceSpec
  | SetInstanceToMain "string list" string \<comment> \<open>Candidates and Restore\<close>
  | DemoteInstance string
  | UnregisterInstance string
  | RemoveCoordinator CoordinatorSpec
  | YieldLeadership string

fun cmdString :: "Command \<Rightarrow> string" where
  "cmdString (AddCoordinator c) = ''ADD COORDINATOR '' @ itoa (csID c)"
| "cmdString (RegisterInstance i) = ''REGISTER INSTANCE '' @ dsName i"
| "cmdString (UpdateCoordinatorBoltServer c) =
     ''UPDATE CONFIG FOR COORDINATOR '' @ itoa (csID c) @ '' (bolt_server '' @ csBoltServer c @ '')''"
| "cmdString (UpdateInstanceBoltServer i) =
     ''UPDATE CONFIG FOR INSTANCE '' @ dsName i @ '' (bolt_server '' @ dsBoltServer i @ '')''"
| "cmdString (SetInstanceToMain candidates restore) =
     (let targets = (if restore \<noteq> [] then candidates @ [restore] else candidates) in
      case targets of
        [] \<Rightarrow> ''SET INSTANCE TO MAIN (no candidate)''
      | [t] \<Rightarrow> ''SET INSTANCE '' @ t @ '' TO MAIN''
      | t # ts \<Rightarrow> ''SET INSTANCE '' @ t @ '' TO MAIN (or, if refused: '' @ join '', '' ts @ '')'')"
| "cmdString (DemoteInstance n) = ''DEMOTE INSTANCE '' @ n"
| "cmdString (UnregisterInstance n) = ''UNREGISTER INSTANCE '' @ n"
| "cmdString (RemoveCoordinator c) = ''REMOVE COORDINATOR '' @ itoa (csID c)"
| "cmdString (YieldLeadership l) = ''YIELD LEADERSHIP''"

section \<open>Running a command\<close>

text \<open>
  The candidate loop of \<open>SetInstanceToMain.Run\<close>: \<^term>\<open>None\<close> once a candidate is accepted, otherwise
  the refusals collected.
\<close>

fun tryCandidates ::
  "'s Client \<Rightarrow> string list \<Rightarrow> goerror list \<Rightarrow> 's \<Rightarrow> goerror list option \<times> 's" where
  "tryCandidates client [] errs s = (Some errs, s)"
| "tryCandidates client (name # names) errs s =
     (case clSetInstanceToMain client name s of
        (None, s') \<Rightarrow> (None, s')
      | (Some e, s') \<Rightarrow>
          tryCandidates client names (errs @ [''promoting '' @ name @ '': '' @ e]) s')"

text \<open>\<open>%w\<close> of an error that may be nil.\<close>

definition fmtError :: "goerror option \<Rightarrow> string" where
  "fmtError e = (case e of None \<Rightarrow> ''%!w(<nil>)'' | Some m \<Rightarrow> m)"

definition runSetInstanceToMain ::
  "'s Client \<Rightarrow> string list \<Rightarrow> string \<Rightarrow> 's \<Rightarrow> goerror option \<times> 's" where
  "runSetInstanceToMain client candidates restore s =
     (case tryCandidates client candidates [] s of
        (None, s') \<Rightarrow> (None, s')
      | (Some errs, s') \<Rightarrow>
          if restore = [] then (errorsJoin errs, s')
          else (case clSetInstanceToMain client restore s' of
              (Some e, s'') \<Rightarrow>
                (errorsJoin (errs @ [''restoring MAIN to '' @ restore @ '': '' @ e]), s'')
            | (None, s'') \<Rightarrow>
                (Some (''no promotion candidate was accepted, so MAIN was restored to the retiring instance ''
                   @ restore @ '': '' @ fmtError (errorsJoin errs)), s'')))"

fun cmdRun :: "'s Client \<Rightarrow> Command \<Rightarrow> 's call" where
  "cmdRun client (AddCoordinator c) = clAddCoordinator client c"
| "cmdRun client (RegisterInstance i) = clRegisterInstance client i"
| "cmdRun client (UpdateCoordinatorBoltServer c) =
     clUpdateCoordinatorBoltServer client (csID c) (csBoltServer c)"
| "cmdRun client (UpdateInstanceBoltServer i) =
     clUpdateInstanceBoltServer client (dsName i) (dsBoltServer i)"
| "cmdRun client (SetInstanceToMain candidates restore) = runSetInstanceToMain client candidates restore"
| "cmdRun client (DemoteInstance n) = clDemoteInstance client n"
| "cmdRun client (UnregisterInstance n) = clUnregisterInstance client n"
| "cmdRun client (RemoveCoordinator c) = clRemoveCoordinator client (csID c)"
| "cmdRun client (YieldLeadership l) = clYieldLeadership client"

section \<open>Reading the observed view\<close>

definition index :: "Instance list \<Rightarrow> string \<Rightarrow> Instance option" where
  "index observed = index_by iName observed"

definition indexLag :: "ReplicationLag list \<Rightarrow> string \<Rightarrow> ReplicationLag option" where
  "indexLag lag = index_by rlInstance lag"

text \<open>A Go map read with a missing key: the zero value.\<close>

definition lagOf :: "(string \<Rightarrow> ReplicationLag option) \<Rightarrow> string \<Rightarrow> ReplicationLag" where
  "lagOf lags n = (case lags n of Some l \<Rightarrow> l | None \<Rightarrow> zeroReplicationLag)"

definition retiringNames :: "Topology \<Rightarrow> string \<Rightarrow> bool" where
  "retiringNames declared n \<longleftrightarrow> n \<in> dsName ` set (tRetiringDataInstances declared)"

definition coordinatorRegistered :: "(string \<Rightarrow> Instance option) \<Rightarrow> CoordinatorSpec \<Rightarrow> bool" where
  "coordinatorRegistered registered c =
     (case registered (csName c) of None \<Rightarrow> False | Some observed \<Rightarrow> iBoltServer observed \<noteq> [])"

definition handoverCandidates ::
  "Topology \<Rightarrow> (string \<Rightarrow> Instance option) \<Rightarrow> (string \<Rightarrow> ReplicationLag option) \<Rightarrow> string list" where
  "handoverCandidates declared registered lag =
     [dsName i. i \<leftarrow> tDataInstances declared,
        (case registered (dsName i) of None \<Rightarrow> False | Some observed \<Rightarrow> IsUp observed)
        \<and> IsCaughtUp (lagOf lag (dsName i))]"

definition promotionTarget :: "Topology \<Rightarrow> (string \<Rightarrow> Instance option) \<Rightarrow> string option" where
  "promotionTarget declared registered =
     (case find (\<lambda>i. case registered (dsName i) of None \<Rightarrow> False | Some observed \<Rightarrow> IsUp observed)
             (tDataInstances declared) of
        Some i \<Rightarrow> Some (dsName i)
      | None \<Rightarrow> (case tDataInstances declared of [] \<Rightarrow> None | i # _ \<Rightarrow> Some (dsName i)))"

definition leaderName :: "Instance list \<Rightarrow> string" where
  "leaderName observed = (case find IsLeader observed of Some i \<Rightarrow> iName i | None \<Rightarrow> [])"

definition boltServerUpdates :: "Topology \<Rightarrow> (string \<Rightarrow> Instance option) \<Rightarrow> Command list" where
  "boltServerUpdates declared registered =
     [UpdateCoordinatorBoltServer c. c \<leftarrow> tCoordinators declared,
        (case registered (csName c) of None \<Rightarrow> False
         | Some observed \<Rightarrow> iBoltServer observed \<noteq> [] \<and> iBoltServer observed \<noteq> csBoltServer c)] @
     [UpdateInstanceBoltServer i. i \<leftarrow> tDataInstances declared,
        (case registered (dsName i) of None \<Rightarrow> False
         | Some observed \<Rightarrow> iBoltServer observed \<noteq> [] \<and> iBoltServer observed \<noteq> dsBoltServer i)]"

section \<open>Plan\<close>

text \<open>
  The blocks of \<open>Plan\<close> in the order of the code. The loop at the head: \<open>retiringMain\<close> and \<open>hasMain\<close>.
\<close>

definition observeMain :: "Topology \<Rightarrow> Instance list \<Rightarrow> string \<times> bool" where
  "observeMain declared observed =
     foldl (\<lambda>(retiringMain, hasMain) i.
        if \<not> IsMain i then (retiringMain, hasMain)
        else if retiringNames declared (iName i) then (iName i, hasMain)
        else (retiringMain, True)) ([], False) observed"

definition planAdds :: "Topology \<Rightarrow> (string \<Rightarrow> Instance option) \<Rightarrow> Command list" where
  "planAdds declared registered =
     [AddCoordinator c. c \<leftarrow> tCoordinators declared, \<not> coordinatorRegistered registered c]"

definition planRegisters :: "Topology \<Rightarrow> (string \<Rightarrow> Instance option) \<Rightarrow> Command list" where
  "planRegisters declared registered =
     [RegisterInstance i. i \<leftarrow> tDataInstances declared, registered (dsName i) = None]"

definition planDemotions :: "bool \<Rightarrow> string \<Rightarrow> Command list" where
  "planDemotions handover retiringMain = (if handover then [DemoteInstance retiringMain] else [])"

definition planPromotions ::
  "Topology \<Rightarrow> (string \<Rightarrow> Instance option) \<Rightarrow> string list \<Rightarrow> string \<Rightarrow> bool \<Rightarrow> bool \<Rightarrow> Command list option" where
  "planPromotions declared registered successors retiringMain hasMain handover =
     (if handover \<and> \<not> hasMain then Some [SetInstanceToMain successors retiringMain]
      else if retiringMain = [] \<and> \<not> hasMain \<and> length (tDataInstances declared) > 0
      then map_option (\<lambda>t. [SetInstanceToMain [t] []]) (promotionTarget declared registered)
      else Some [])"

definition planUnregisters ::
  "Topology \<Rightarrow> (string \<Rightarrow> Instance option) \<Rightarrow> string \<Rightarrow> bool \<Rightarrow> Command list" where
  "planUnregisters declared registered retiringMain handover =
     [UnregisterInstance (dsName i). i \<leftarrow> tRetiringDataInstances declared,
        registered (dsName i) \<noteq> None \<and> \<not> (dsName i = retiringMain \<and> \<not> handover)]"

text \<open>The loop over the retiring coordinators: the removals, and the leader to yield from.\<close>

definition removals :: "Topology \<Rightarrow> (string \<Rightarrow> Instance option) \<Rightarrow> string \<Rightarrow> Command list \<times> string" where
  "removals declared registered leader =
     foldl (\<lambda>(commands, yieldFrom) c.
        if csName c = leader then (commands, leader)
        else if coordinatorRegistered registered c then (commands @ [RemoveCoordinator c], yieldFrom)
        else (commands, yieldFrom)) ([], []) (tRetiringCoordinators declared)"

definition Plan ::
  "Topology \<Rightarrow> Instance list \<Rightarrow> ReplicationLag list \<Rightarrow> Command list option" where
  "Plan declared observed lag =
     (let registered = index observed;
          (retiringMain, hasMain) = observeMain declared observed;
          successors = (if retiringMain \<noteq> [] then handoverCandidates declared registered (indexLag lag) else []);
          handover = (retiringMain \<noteq> [] \<and> length successors > 0);
          (removes, yieldFrom) = removals declared registered (leaderName observed)
      in case planPromotions declared registered successors retiringMain hasMain handover of
           None \<Rightarrow> None
         | Some promotions \<Rightarrow> Some
             (planAdds declared registered
              @ planRegisters declared registered
              @ boltServerUpdates declared registered
              @ planDemotions handover retiringMain
              @ promotions
              @ planUnregisters declared registered retiringMain handover
              @ removes
              @ (if yieldFrom \<noteq> [] then [YieldLeadership yieldFrom] else [])))"

section \<open>Retired and Registered\<close>

definition Retired :: "Topology \<Rightarrow> Instance list \<Rightarrow> bool" where
  "Retired declared observed =
     (let registered = index observed in
      \<not> list_ex (\<lambda>i. registered (dsName i) \<noteq> None) (tRetiringDataInstances declared)
      \<and> \<not> list_ex (coordinatorRegistered registered) (tRetiringCoordinators declared))"

definition Registered :: "Topology \<Rightarrow> Instance list \<Rightarrow> int32 \<times> int32" where
  "Registered declared observed =
     (let registered = index observed in
      (foldl (\<lambda>n c. if coordinatorRegistered registered c then wrap32 (n + 1) else n) 0 (tCoordinators declared),
       foldl (\<lambda>n i. if registered (dsName i) \<noteq> None then wrap32 (n + 1) else n) 0 (tDataInstances declared)))"

section \<open>Reading the plan\<close>

interpretation instance_view: keyed_view iName index
  unfolding index_def by (rule index_by_keyed_view)

interpretation lag_view: keyed_view rlInstance indexLag
  unfolding indexLag_def by (rule index_by_keyed_view)

text \<open>The MAIN on its way out, and whether another MAIN stays, as the view determines them.\<close>

definition staysMain :: "Topology \<Rightarrow> Instance list \<Rightarrow> bool" where
  "staysMain declared observed \<longleftrightarrow>
     (\<exists>i \<in> set observed. IsMain i \<and> \<not> retiringNames declared (iName i))"

definition leavingMain :: "Topology \<Rightarrow> Instance list \<Rightarrow> string" where
  "leavingMain declared observed =
     (case find (\<lambda>i. IsMain i \<and> retiringNames declared (iName i)) (rev observed) of
        Some i \<Rightarrow> iName i | None \<Rightarrow> [])"

lemma observeMain_eq:
  "observeMain declared observed = (leavingMain declared observed, staysMain declared observed)"
proof (induction observed rule: rev_induct)
  case Nil
  then show ?case by (simp add: observeMain_def leavingMain_def staysMain_def)
next
  case (snoc i observed)
  then show ?case by (auto simp: observeMain_def leavingMain_def staysMain_def)
qed

lemma leavingMain_SomeD:
  assumes "leavingMain declared observed \<noteq> []"
  shows "\<exists>i \<in> set observed. IsMain i \<and> iName i = leavingMain declared observed
           \<and> retiringNames declared (iName i)"
  using assms by (auto simp: leavingMain_def dest!: find_SomeD split: option.splits)

lemma leavingMain_Nil:
  assumes "leavingMain declared observed = []" and "i \<in> set observed" and "IsMain i"
    and "retiringNames declared (iName i)"
  shows "\<exists>j \<in> set observed. IsMain j \<and> retiringNames declared (iName j) \<and> iName j = []"
  using assms by (auto simp: leavingMain_def find_None_iff dest!: find_SomeD split: option.splits)

text \<open>The handover of a pass: the successors, none without a MAIN on its way out.\<close>

definition handoverTo :: "Topology \<Rightarrow> Instance list \<Rightarrow> ReplicationLag list \<Rightarrow> string list" where
  "handoverTo declared observed lag =
     (if leavingMain declared observed \<noteq> []
      then handoverCandidates declared (index observed) (indexLag lag) else [])"

definition handsOver :: "Topology \<Rightarrow> Instance list \<Rightarrow> ReplicationLag list \<Rightarrow> bool" where
  "handsOver declared observed lag \<longleftrightarrow> handoverTo declared observed lag \<noteq> []"

lemma handsOver_leaving: "handsOver declared observed lag \<Longrightarrow> leavingMain declared observed \<noteq> []"
  by (auto simp: handsOver_def handoverTo_def)

lemma in_handoverCandidates:
  "n \<in> set (handoverCandidates declared registered lags) \<longleftrightarrow>
     (\<exists>i \<in> set (tDataInstances declared). dsName i = n
        \<and> (\<exists>r. registered n = Some r \<and> IsUp r) \<and> IsCaughtUp (lagOf lags n))"
  by (auto simp: handoverCandidates_def split: option.splits)

text \<open>The removals and the leader to yield from, without the loop.\<close>

definition leaves :: "(string \<Rightarrow> Instance option) \<Rightarrow> string \<Rightarrow> CoordinatorSpec \<Rightarrow> bool" where
  "leaves registered leader c \<longleftrightarrow> csName c \<noteq> leader \<and> coordinatorRegistered registered c"

lemma removals_foldl:
  "foldl (\<lambda>(commands, yieldFrom) c.
        if csName c = leader then (commands, leader)
        else if coordinatorRegistered registered c then (commands @ [RemoveCoordinator c], yieldFrom)
        else (commands, yieldFrom)) (commands, yieldFrom) cs
   = (commands @ map RemoveCoordinator (filter (leaves registered leader) cs),
      if leader \<in> csName ` set cs then leader else yieldFrom)"
  by (induction cs arbitrary: commands yieldFrom) (auto simp: leaves_def)

lemma removals_eq:
  "removals declared registered leader =
     (map RemoveCoordinator (filter (leaves registered leader) (tRetiringCoordinators declared)),
      if leader \<in> csName ` set (tRetiringCoordinators declared) then leader else [])"
  by (simp add: removals_def removals_foldl)

lemma csName_nonempty [simp]: "csName c \<noteq> []" "[] \<noteq> csName c"
  by (simp_all add: csName_def coordinatorPrefix_def)

lemma planUnregisters_eq:
  "planUnregisters declared registered rm h = map UnregisterInstance
     (filter (\<lambda>n. registered n \<noteq> None \<and> \<not> (n = rm \<and> \<not> h)) (map dsName (tRetiringDataInstances declared)))"
  by (simp add: planUnregisters_def filter_map comp_def)

text \<open>The promotion of a pass; it is never the panic of an empty slice.\<close>

definition promotions :: "Topology \<Rightarrow> Instance list \<Rightarrow> ReplicationLag list \<Rightarrow> Command list" where
  "promotions declared observed lag =
     (if staysMain declared observed then []
      else if handsOver declared observed lag
      then [SetInstanceToMain (handoverTo declared observed lag) (leavingMain declared observed)]
      else if leavingMain declared observed = [] \<and> tDataInstances declared \<noteq> []
      then [SetInstanceToMain [the (promotionTarget declared (index observed))] []]
      else [])"

lemma promotionTarget_Some:
  assumes "tDataInstances declared \<noteq> []"
  shows "\<exists>i \<in> set (tDataInstances declared). promotionTarget declared registered = Some (dsName i)"
  using assms
  by (cases "tDataInstances declared")
    (auto simp: promotionTarget_def find_Some_iff split: option.splits)

lemma planPromotions_eq:
  "planPromotions declared (index observed) (handoverTo declared observed lag)
     (leavingMain declared observed) (staysMain declared observed) (handsOver declared observed lag)
   = Some (promotions declared observed lag)"
  using promotionTarget_Some [of declared "index observed"]
    handsOver_leaving [of declared observed lag]
  by (auto simp: planPromotions_def promotions_def)

text \<open>\<open>Plan\<close> as the concatenation of its sections.\<close>

lemma Plan_eq:
  "Plan declared observed lag = Some
     (planAdds declared (index observed)
      @ planRegisters declared (index observed)
      @ boltServerUpdates declared (index observed)
      @ planDemotions (handsOver declared observed lag) (leavingMain declared observed)
      @ promotions declared observed lag
      @ planUnregisters declared (index observed) (leavingMain declared observed) (handsOver declared observed lag)
      @ map RemoveCoordinator
          (filter (leaves (index observed) (leaderName observed)) (tRetiringCoordinators declared))
      @ (if leaderName observed \<in> csName ` set (tRetiringCoordinators declared)
         then [YieldLeadership (leaderName observed)] else []))"
proof -
  have h: "(leavingMain declared observed \<noteq> [] \<and> 0 < length (handoverTo declared observed lag))
      = handsOver declared observed lag"
    using handsOver_leaving [of declared observed lag] by (auto simp: handsOver_def)
  have y: "leaderName observed \<in> csName ` set cs \<Longrightarrow> leaderName observed \<noteq> []" for cs
    by auto
  show ?thesis
    unfolding Plan_def Let_def observeMain_eq removals_eq prod.case handoverTo_def [symmetric] h
      planPromotions_eq option.case
    using y by simp
qed

text \<open>Which commands a plan holds, constructor by constructor.\<close>

lemma section_sets [plan_simps]:
  "set (planAdds d r) = AddCoordinator ` {c \<in> set (tCoordinators d). \<not> coordinatorRegistered r c}"
  "set (planRegisters d r) = RegisterInstance ` {i \<in> set (tDataInstances d). r (dsName i) = None}"
  "set (planDemotions h m) = (if h then {DemoteInstance m} else {})"
  "set (planUnregisters d r m h) = UnregisterInstance `
     {n \<in> dsName ` set (tRetiringDataInstances d). r n \<noteq> None \<and> \<not> (n = m \<and> \<not> h)}"
  by (auto simp: planAdds_def planRegisters_def planDemotions_def planUnregisters_def)

definition moved :: "(string \<Rightarrow> Instance option) \<Rightarrow> string \<Rightarrow> string \<Rightarrow> bool" where
  "moved registered name address =
     (case registered name of None \<Rightarrow> False
      | Some r \<Rightarrow> iBoltServer r \<noteq> [] \<and> iBoltServer r \<noteq> address)"

lemma boltServerUpdates_eq:
  "boltServerUpdates d r =
     map UpdateCoordinatorBoltServer (filter (\<lambda>c. moved r (csName c) (csBoltServer c)) (tCoordinators d))
     @ map UpdateInstanceBoltServer (filter (\<lambda>i. moved r (dsName i) (dsBoltServer i)) (tDataInstances d))"
  by (simp add: boltServerUpdates_def moved_def)

lemma promotions_mem [plan_simps]:
  "c \<in> set (promotions d ob lag) \<longleftrightarrow> \<not> staysMain d ob \<and>
     (if handsOver d ob lag then c = SetInstanceToMain (handoverTo d ob lag) (leavingMain d ob)
      else leavingMain d ob = [] \<and> tDataInstances d \<noteq> []
        \<and> c = SetInstanceToMain [the (promotionTarget d (index ob))] [])"
  by (auto simp: promotions_def)

lemma Plan_mem:
  assumes "Plan d ob lag = Some cmds"
  shows
    "AddCoordinator c \<in> set cmds \<longleftrightarrow> c \<in> set (tCoordinators d) \<and> \<not> coordinatorRegistered (index ob) c"
    "RegisterInstance i \<in> set cmds \<longleftrightarrow> i \<in> set (tDataInstances d) \<and> index ob (dsName i) = None"
    "UpdateCoordinatorBoltServer c \<in> set cmds \<longleftrightarrow>
       c \<in> set (tCoordinators d) \<and> moved (index ob) (csName c) (csBoltServer c)"
    "UpdateInstanceBoltServer i \<in> set cmds \<longleftrightarrow>
       i \<in> set (tDataInstances d) \<and> moved (index ob) (dsName i) (dsBoltServer i)"
    "DemoteInstance n \<in> set cmds \<longleftrightarrow> handsOver d ob lag \<and> n = leavingMain d ob"
    "SetInstanceToMain ns m \<in> set cmds \<longleftrightarrow> SetInstanceToMain ns m \<in> set (promotions d ob lag)"
    "UnregisterInstance n \<in> set cmds \<longleftrightarrow> retiringNames d n \<and> index ob n \<noteq> None
       \<and> \<not> (n = leavingMain d ob \<and> \<not> handsOver d ob lag)"
    "RemoveCoordinator c \<in> set cmds \<longleftrightarrow> c \<in> set (tRetiringCoordinators d)
       \<and> leaves (index ob) (leaderName ob) c"
    "YieldLeadership n \<in> set cmds \<longleftrightarrow> n = leaderName ob \<and> n \<in> csName ` set (tRetiringCoordinators d)"
  using assms
  by (auto simp: Plan_eq section_sets boltServerUpdates_eq promotions_mem retiringNames_def split: if_splits)

section \<open>Properties of the plan\<close>

text \<open>Sample data the witnesses evaluate: one coordinator staying and one leaving, a MAIN leaving.\<close>

definition exCoordinator :: "int32 \<Rightarrow> CoordinatorSpec" where
  "exCoordinator i = \<lparr>csID = i, csBoltServer = ''c'' @ itoa i, csCoordinatorServer = ''r'' @ itoa i,
     csManagementServer = ''m'' @ itoa i\<rparr>"

definition exData :: "string \<Rightarrow> DataInstanceSpec" where
  "exData n = \<lparr>dsName = n, dsBoltServer = n @ ''b'', dsManagementServer = n @ ''m'',
     dsReplicationServer = n @ ''r''\<rparr>"

definition exRow :: "string \<Rightarrow> string \<Rightarrow> string \<Rightarrow> Instance" where
  "exRow n b role = \<lparr>iName = n, iBoltServer = b, iCoordinatorServer = [], iManagementServer = [],
     iHealth = HealthUp, iRole = role\<rparr>"

definition exTopology :: Topology where
  "exTopology = \<lparr>tCoordinators = [exCoordinator 1], tDataInstances = [exData ''d0''],
     tRetiringCoordinators = [exCoordinator 2], tRetiringDataInstances = [exData ''d1'']\<rparr>"

definition exView :: "Instance list" where
  "exView = [exRow ''coordinator_1'' ''c1'' RoleFollower, exRow ''coordinator_2'' ''c2'' RoleLeader,
     exRow ''d0'' ''d0b'' RoleReplica, exRow ''d1'' ''d1b'' RoleMain]"

definition exLag :: "ReplicationLag list" where
  "exLag = [\<lparr>rlInstance = ''d0'',
     rlDatabases = [\<lparr>dlDatabase = ''memgraph'', dlCommittedTxns = 7, dlTxnsBehindMain = 0\<rparr>]\<rparr>]"

lemma exPlan:
  "Plan exTopology exView exLag = Some [DemoteInstance ''d1'', SetInstanceToMain [''d0''] ''d1'',
     UnregisterInstance ''d1'', YieldLeadership ''coordinator_2'']"
  by code_simp

lemma exPlan_waiting: "Plan exTopology exView [] = Some [YieldLeadership ''coordinator_2'']"
  by code_simp

text \<open>
  \<open>Plan\<close> never panics: for every topology, view and lag it returns a list of commands (the index
  into an empty slice in \<open>promotionTarget\<close> is guarded).
\<close>

theorem Plan_total: "\<exists>commands. Plan declared observed lag = Some commands"
  by (simp add: Plan_eq)

text \<open>The members a command is aimed at.\<close>

fun cmdTargets :: "Command \<Rightarrow> string list" where
  "cmdTargets (AddCoordinator c) = [csName c]"
| "cmdTargets (RegisterInstance i) = [dsName i]"
| "cmdTargets (UpdateCoordinatorBoltServer c) = [csName c]"
| "cmdTargets (UpdateInstanceBoltServer i) = [dsName i]"
| "cmdTargets (SetInstanceToMain candidates restore) = candidates @ (if restore = [] then [] else [restore])"
| "cmdTargets (DemoteInstance n) = [n]"
| "cmdTargets (UnregisterInstance n) = [n]"
| "cmdTargets (RemoveCoordinator c) = [csName c]"
| "cmdTargets (YieldLeadership l) = [l]"

definition declaredNames :: "Topology \<Rightarrow> string set" where
  "declaredNames d = csName ` set (tCoordinators d) \<union> dsName ` set (tDataInstances d)"

definition retiringMembers :: "Topology \<Rightarrow> string set" where
  "retiringMembers d = csName ` set (tRetiringCoordinators d) \<union> dsName ` set (tRetiringDataInstances d)"

lemma leavingMain_retires: "leavingMain d ob \<noteq> [] \<Longrightarrow> leavingMain d ob \<in> dsName ` set (tRetiringDataInstances d)"
  by (metis leavingMain_SomeD retiringNames_def)

lemma handoverTo_declared: "set (handoverTo d ob lag) \<subseteq> dsName ` set (tDataInstances d)"
  by (auto simp: handoverTo_def in_handoverCandidates)

lemma promotions_targets:
  assumes "SetInstanceToMain ns m \<in> set (promotions d ob lag)"
  shows "ns \<noteq> []" and "set ns \<subseteq> dsName ` set (tDataInstances d)"
    and "m \<noteq> [] \<Longrightarrow> m = leavingMain d ob \<and> ns = handoverTo d ob lag \<and> handsOver d ob lag"
    and "m = [] \<Longrightarrow> leavingMain d ob = []"
  using assms handoverTo_declared [of d ob lag] promotionTarget_Some [of d "index ob"]
    handsOver_leaving [of d ob lag]
  by (auto simp: promotions_mem handsOver_def split: if_splits)

text \<open>
  Every command of a plan is aimed only at members the topology declares or retires, so an
  instance a human registered is never touched.
\<close>

theorem Plan_targets_members:
  assumes "Plan declared observed lag = Some commands" and "command \<in> set commands"
  shows "set (cmdTargets command) \<subseteq> declaredNames declared \<union> retiringMembers declared"
proof (cases command)
  case (SetInstanceToMain ns m)
  with assms have p: "SetInstanceToMain ns m \<in> set (promotions declared observed lag)"
    by (simp add: Plan_mem)
  show ?thesis
    using promotions_targets(2,3) [OF p] leavingMain_retires [of declared observed] SetInstanceToMain
    by (auto simp: declaredNames_def retiringMembers_def)
next
  case (DemoteInstance n)
  with assms show ?thesis
    using leavingMain_retires [of declared observed] handsOver_leaving [of declared observed lag]
    by (auto simp: Plan_mem retiringMembers_def)
qed (use assms in \<open>auto simp: Plan_mem declaredNames_def retiringMembers_def retiringNames_def\<close>)

theorem Plan_targets_members_witness:
  "set (cmdTargets (SetInstanceToMain [''d0''] ''d1''))
     \<subseteq> declaredNames exTopology \<union> retiringMembers exTopology"
  by (rule Plan_targets_members [OF exPlan]) simp

text \<open>The phases of a plan, in the order the code appends them.\<close>

fun phase :: "Command \<Rightarrow> nat" where
  "phase (AddCoordinator c) = 0"
| "phase (RegisterInstance i) = 1"
| "phase (UpdateCoordinatorBoltServer c) = 2"
| "phase (UpdateInstanceBoltServer i) = 3"
| "phase (DemoteInstance n) = 4"
| "phase (SetInstanceToMain candidates restore) = 5"
| "phase (UnregisterInstance n) = 6"
| "phase (RemoveCoordinator c) = 7"
| "phase (YieldLeadership l) = 8"

definition within :: "nat \<Rightarrow> nat \<Rightarrow> Command list \<Rightarrow> bool" where
  "within lo hi cmds \<longleftrightarrow> sorted (map phase cmds) \<and> (\<forall>c \<in> set cmds. lo \<le> phase c \<and> phase c \<le> hi)"

lemma within_const: "(\<And>c. c \<in> set cmds \<Longrightarrow> phase c = k) \<Longrightarrow> within k k cmds"
  by (induction cmds) (auto simp: within_def)

lemma within_append:
  "within a b xs \<Longrightarrow> within c d ys \<Longrightarrow> b < c \<Longrightarrow> a \<le> b \<Longrightarrow> c \<le> d \<Longrightarrow> within a d (xs @ ys)"
  by (fastforce simp: within_def sorted_append)

lemma section_phases:
  "within 0 0 (planAdds d r)"
  "within 1 1 (planRegisters d r)"
  "within 2 2 (map UpdateCoordinatorBoltServer cs)"
  "within 3 3 (map UpdateInstanceBoltServer ds)"
  "within 4 4 (planDemotions h m)"
  "within 5 5 (promotions d ob lag)"
  "within 6 6 (planUnregisters d r m h)"
  "within 7 7 (map RemoveCoordinator cs)"
  "within 8 8 (if y then [YieldLeadership l] else [])"
  by (rule within_const; auto simp: section_sets promotions_mem split: if_splits)+

lemma Plan_sorted:
  assumes "Plan d ob lag = Some cmds"
  shows "sorted (map phase cmds)"
proof -
  have "within 0 8 cmds"
    unfolding assms [unfolded Plan_eq option.inject boltServerUpdates_eq append_assoc, symmetric]
    by (rule within_append [OF section_phases(1)], rule within_append [OF section_phases(2)],
        rule within_append [OF section_phases(3)], rule within_append [OF section_phases(4)],
        rule within_append [OF section_phases(5)], rule within_append [OF section_phases(6)],
        rule within_append [OF section_phases(7)], rule within_append [OF section_phases(8)],
        rule section_phases(9), simp_all)
  then show ?thesis by (simp add: within_def)
qed

lemma Plan_middle:
  assumes "Plan d ob lag = Some cmds"
  shows "\<exists>before after. cmds = before
    @ planDemotions (handsOver d ob lag) (leavingMain d ob) @ promotions d ob lag @ after"
  using assms unfolding Plan_eq option.inject by (metis append.assoc)

text \<open>A member a retiring MAIN may hand over to, read off the two views.\<close>

definition fitSuccessor :: "Topology \<Rightarrow> Instance list \<Rightarrow> ReplicationLag list \<Rightarrow> string \<Rightarrow> bool" where
  "fitSuccessor d ob lag n \<longleftrightarrow> n \<in> dsName ` set (tDataInstances d)
     \<and> (\<exists>r \<in> set ob. iName r = n \<and> IsUp r)
     \<and> (\<exists>l \<in> set lag. rlInstance l = n \<and> rlDatabases l \<noteq> []
          \<and> (\<forall>db \<in> set (rlDatabases l). dlTxnsBehindMain db \<le> 0))"

lemma lagOf_caught_up:
  assumes "IsCaughtUp (lagOf (indexLag lag) n)"
  shows "\<exists>l \<in> set lag. rlInstance l = n \<and> rlDatabases l \<noteq> []
           \<and> (\<forall>db \<in> set (rlDatabases l). dlTxnsBehindMain db \<le> 0)"
  using assms lag_view.build_Some [of lag n]
  by (auto simp: lagOf_def IsCaughtUp_iff zeroReplicationLag_def split: option.splits)

lemma handoverTo_fit: "n \<in> set (handoverTo d ob lag) \<Longrightarrow> fitSuccessor d ob lag n"
  using instance_view.build_Some [of ob n] lagOf_caught_up [of lag n]
  by (auto simp: handoverTo_def in_handoverCandidates fitSuccessor_def split: if_splits
      intro: rev_image_eqI)

text \<open>
  C3: a MAIN is demoted only when it is an observed MAIN on its way out and a survivor that is
  declared, observed up and caught up in every database exists; unless another MAIN stays, the very
  next command promotes such survivors, in order, with the demoted instance as the one to restore.
\<close>

theorem Plan_handover_safe:
  assumes "Plan declared observed lag = Some commands" and "DemoteInstance name \<in> set commands"
  shows "(\<exists>i \<in> set observed. iName i = name \<and> IsMain i) \<and> retiringNames declared name
    \<and> (\<exists>n. fitSuccessor declared observed lag n)
    \<and> (\<not> staysMain declared observed \<longrightarrow>
        (\<exists>before candidates after.
           commands = before @ DemoteInstance name # SetInstanceToMain candidates name # after
           \<and> candidates \<noteq> [] \<and> (\<forall>n \<in> set candidates. fitSuccessor declared observed lag n)))"
proof -
  from assms have h: "handsOver declared observed lag" and n: "name = leavingMain declared observed"
    by (simp_all add: Plan_mem)
  then have ne: "handoverTo declared observed lag \<noteq> []" by (simp add: handsOver_def)
  then have fit: "\<exists>n. fitSuccessor declared observed lag n"
    by (metis handoverTo_fit list.set_intros(1) neq_Nil_conv)
  have seq: "\<exists>before after. commands =
      before @ DemoteInstance name # SetInstanceToMain (handoverTo declared observed lag) name # after"
    if "\<not> staysMain declared observed"
    using Plan_middle [OF assms(1)] h n that by (auto simp: promotions_def planDemotions_def)
  from leavingMain_SomeD [OF handsOver_leaving [OF h]]
  have "(\<exists>i \<in> set observed. iName i = name \<and> IsMain i) \<and> retiringNames declared name"
    unfolding n by metis
  with fit seq ne handoverTo_fit show ?thesis by meson
qed

theorem Plan_handover_safe_witness:
  "fitSuccessor exTopology exView exLag ''d0'' \<and> retiringNames exTopology ''d1''"
proof -
  have "\<not> staysMain exTopology exView" by code_simp
  moreover have "DemoteInstance ''d1'' \<in> set [DemoteInstance ''d1'', SetInstanceToMain [''d0''] ''d1'',
      UnregisterInstance ''d1'', YieldLeadership ''coordinator_2'']" by simp
  note Plan_handover_safe [OF exPlan this]
  ultimately obtain before candidates after where c:
    "[DemoteInstance ''d1'', SetInstanceToMain [''d0''] ''d1'', UnregisterInstance ''d1'', YieldLeadership ''coordinator_2'']
       = before @ DemoteInstance ''d1'' # SetInstanceToMain candidates ''d1'' # after"
    "\<forall>n \<in> set candidates. fitSuccessor exTopology exView exLag n" "retiringNames exTopology ''d1''" by blast
  from c(1) have "candidates = [''d0'']" by (auto simp: Cons_eq_append_conv)
  with c(2,3) show ?thesis by simp
qed

text \<open>At most one row of the view is a MAIN, what a healthy cluster reports.\<close>

definition oneMain :: "Instance list \<Rightarrow> bool" where
  "oneMain ob \<longleftrightarrow> (\<forall>i \<in> set ob. \<forall>j \<in> set ob. IsMain i \<longrightarrow> IsMain j \<longrightarrow> iName i = iName j)"

text \<open>Every member name is a real one: the operator builds them from a non-empty prefix.\<close>

definition namedMembers :: "Topology \<Rightarrow> bool" where
  "namedMembers d \<longleftrightarrow> (\<forall>i \<in> set (tDataInstances d) \<union> set (tRetiringDataInstances d). dsName i \<noteq> [])"

lemma namedMembers_retiring: "namedMembers d \<Longrightarrow> \<not> retiringNames d []"
  by (force simp: namedMembers_def retiringNames_def)

lemma leavingMain_iff:
  assumes "oneMain ob" and "namedMembers d" and "i \<in> set ob" and "IsMain i" and "retiringNames d (iName i)"
  shows "leavingMain d ob = iName i"
proof -
  have "leavingMain d ob \<noteq> []"
    using leavingMain_Nil [OF _ assms(3-5)] namedMembers_retiring [OF assms(2)] by metis
  from leavingMain_SomeD [OF this] obtain j where "j \<in> set ob" "IsMain j" "iName j = leavingMain d ob"
    by blast
  with assms(1,3,4) show ?thesis unfolding oneMain_def by metis
qed



text \<open>
  C8: a promotion is planned only when no MAIN stays; its candidates are declared instances, at
  least one; after a demotion (a non-empty \<open>Restore\<close>) every candidate is fit to succeed, and without
  one (a bootstrap or a repair) the view reports no MAIN at all.
\<close>

theorem Plan_promotes_only_without_MAIN:
  assumes "Plan declared observed lag = Some commands" and "namedMembers declared"
    and "SetInstanceToMain candidates restore \<in> set commands"
  shows "\<not> staysMain declared observed \<and> candidates \<noteq> []
    \<and> set candidates \<subseteq> dsName ` set (tDataInstances declared)
    \<and> (if restore = [] then (\<forall>i \<in> set observed. \<not> IsMain i)
       else DemoteInstance restore \<in> set commands
         \<and> (\<forall>n \<in> set candidates. fitSuccessor declared observed lag n))"
proof -
  have p: "SetInstanceToMain candidates restore \<in> set (promotions declared observed lag)"
    using assms(1,3) by (simp add: Plan_mem)
  then have stays: "\<not> staysMain declared observed" by (simp add: promotions_mem)
  have "\<not> IsMain i" if "restore = []" and i: "i \<in> set observed" for i
  proof
    assume m: "IsMain i"
    with stays i have "retiringNames declared (iName i)" by (auto simp: staysMain_def)
    from leavingMain_Nil [OF promotions_targets(4) [OF p that(1)] i m this]
      namedMembers_retiring [OF assms(2)] show False by auto
  qed
  moreover have "DemoteInstance restore \<in> set commands
      \<and> (\<forall>n \<in> set candidates. fitSuccessor declared observed lag n)" if "restore \<noteq> []"
    using promotions_targets(3) [OF p that] Plan_mem(5) [OF assms(1)] handoverTo_fit by blast
  ultimately show ?thesis using stays promotions_targets(1,2) [OF p] by auto
qed

theorem Plan_promotes_only_without_MAIN_witness:
  "\<not> staysMain exTopology exView \<and> [''d0''] \<noteq> []
    \<and> set [''d0''] \<subseteq> dsName ` set (tDataInstances exTopology)
    \<and> (if ''d1'' = [] then (\<forall>i \<in> set exView. \<not> IsMain i)
       else DemoteInstance ''d1'' \<in> set [DemoteInstance ''d1'', SetInstanceToMain [''d0''] ''d1'',
              UnregisterInstance ''d1'', YieldLeadership ''coordinator_2'']
         \<and> (\<forall>n \<in> set [''d0'']. fitSuccessor exTopology exView exLag n))"
  by (rule Plan_promotes_only_without_MAIN [OF exPlan])
    (simp_all add: namedMembers_def exTopology_def exData_def)

text \<open>The leader row.\<close>

lemma leaderName_row:
  "leaderName ob \<noteq> [] \<Longrightarrow> \<exists>i \<in> set ob. iName i = leaderName ob \<and> IsLeader i"
  by (auto simp: leaderName_def dest!: find_SomeD split: option.splits)

lemma leader_is_retiring_row:
  "leaderName ob \<in> csName ` set cs \<Longrightarrow> \<exists>i \<in> set ob. iName i = leaderName ob \<and> IsLeader i"
  by (rule leaderName_row) auto

lemma Plan_last:
  assumes "Plan d ob lag = Some cmds"
  shows "\<exists>front. cmds = front @ (if leaderName ob \<in> csName ` set (tRetiringCoordinators d)
      then [YieldLeadership (leaderName ob)] else []) \<and> (\<forall>l. YieldLeadership l \<notin> set front)"
proof -
  let ?front = "planAdds d (index ob) @ planRegisters d (index ob) @ boltServerUpdates d (index ob)
      @ planDemotions (handsOver d ob lag) (leavingMain d ob) @ promotions d ob lag
      @ planUnregisters d (index ob) (leavingMain d ob) (handsOver d ob lag)
      @ map RemoveCoordinator (filter (leaves (index ob) (leaderName ob)) (tRetiringCoordinators d))"
  have "\<forall>l. YieldLeadership l \<notin> set ?front"
    by (auto simp: section_sets boltServerUpdates_eq promotions_mem split: if_splits)
  with assms show ?thesis unfolding Plan_eq option.inject by (metis append_assoc)
qed

text \<open>
  C7: Raft leadership is respected: the observed leader is never removed, and a plan that yields
  leadership does so once, as its very last command, from an observed leader on its way out.
\<close>

theorem Plan_leader_safe:
  assumes "Plan declared observed lag = Some commands"
  shows "(\<forall>c. RemoveCoordinator c \<in> set commands \<longrightarrow> c \<in> set (tRetiringCoordinators declared)
        \<and> csName c \<noteq> leaderName observed \<and> coordinatorRegistered (index observed) c)
    \<and> (\<forall>before l after. commands = before @ YieldLeadership l # after \<longrightarrow> after = []
        \<and> (\<forall>l'. YieldLeadership l' \<notin> set before)
        \<and> l \<in> csName ` set (tRetiringCoordinators declared)
        \<and> (\<exists>i \<in> set observed. iName i = l \<and> IsLeader i))"
proof (intro conjI allI impI)
  fix before l after
  assume eq: "commands = before @ YieldLeadership l # after"
  then have "YieldLeadership l \<in> set commands" by simp
  then have l: "l = leaderName observed" "l \<in> csName ` set (tRetiringCoordinators declared)"
    using Plan_mem(9) [OF assms] by blast+
  then obtain front where front: "before @ YieldLeadership l # after = front @ [YieldLeadership l]"
    and no: "\<forall>l. YieldLeadership l \<notin> set front"
    using Plan_last [OF assms] eq by auto
  from front no show after: "after = []" by (cases after rule: rev_cases) auto
  from front no after show "\<And>l'. YieldLeadership l' \<notin> set before" by auto
  from l show "l \<in> csName ` set (tRetiringCoordinators declared)"
    and "\<exists>i \<in> set observed. iName i = l \<and> IsLeader i"
    using leader_is_retiring_row by blast+
qed (use assms in \<open>auto simp: Plan_mem leaves_def\<close>)

theorem Plan_leader_safe_witness:
  "\<exists>i \<in> set exView. iName i = ''coordinator_2'' \<and> IsLeader i"
proof -
  have "[YieldLeadership ''coordinator_2''] = [] @ YieldLeadership ''coordinator_2'' # []" by simp
  with Plan_leader_safe [OF exPlan_waiting] show ?thesis by blast
qed

section \<open>Convergence\<close>

text \<open>What the operator wants of a cluster, read off the views alone: nothing is left to do.\<close>

definition settled :: "Topology \<Rightarrow> Instance list \<Rightarrow> ReplicationLag list \<Rightarrow> bool" where
  "settled d ob lag \<longleftrightarrow>
     (\<forall>c \<in> set (tCoordinators d). \<exists>r. index ob (csName c) = Some r
        \<and> iBoltServer r = csBoltServer c \<and> iBoltServer r \<noteq> [])
     \<and> (\<forall>i \<in> set (tDataInstances d). \<exists>r. index ob (dsName i) = Some r
        \<and> (iBoltServer r = dsBoltServer i \<or> iBoltServer r = []))
     \<and> (tDataInstances d = [] \<or> (\<exists>i \<in> set ob. IsMain i))
     \<and> (\<forall>i \<in> set (tRetiringDataInstances d). index ob (dsName i) \<noteq> None \<longrightarrow>
          dsName i = leavingMain d ob)
     \<and> (leavingMain d ob \<noteq> [] \<longrightarrow> handoverCandidates d (index ob) (indexLag lag) = [])
     \<and> (\<forall>c \<in> set (tRetiringCoordinators d). \<not> coordinatorRegistered (index ob) c
          \<and> csName c \<noteq> leaderName ob)"

lemma no_promotion_iff:
  assumes "namedMembers d" and "\<not> handsOver d ob lag"
  shows "promotions d ob lag = [] \<longleftrightarrow> tDataInstances d = [] \<or> (\<exists>i \<in> set ob. IsMain i)"
proof -
  have "(\<exists>i \<in> set ob. IsMain i) \<longleftrightarrow> staysMain d ob \<or> leavingMain d ob \<noteq> []"
    using leavingMain_SomeD [of d ob] leavingMain_Nil [of d ob] namedMembers_retiring [OF assms(1)]
    by (auto simp: staysMain_def) metis
  with assms(2) show ?thesis by (auto simp: promotions_def)
qed

lemma Plan_Nil_iff:
  "Plan d ob lag = Some [] \<longleftrightarrow>
     (\<forall>c \<in> set (tCoordinators d). coordinatorRegistered (index ob) c \<and> \<not> moved (index ob) (csName c) (csBoltServer c))
     \<and> (\<forall>i \<in> set (tDataInstances d). index ob (dsName i) \<noteq> None \<and> \<not> moved (index ob) (dsName i) (dsBoltServer i))
     \<and> \<not> handsOver d ob lag \<and> promotions d ob lag = []
     \<and> (\<forall>i \<in> set (tRetiringDataInstances d). index ob (dsName i) \<noteq> None \<longrightarrow> dsName i = leavingMain d ob)
     \<and> (\<forall>c \<in> set (tRetiringCoordinators d). \<not> leaves (index ob) (leaderName ob) c \<and> csName c \<noteq> leaderName ob)"
proof -
  have y: "((if leaderName ob \<in> csName ` set cs then [YieldLeadership (leaderName ob)] else []) = [])
      \<longleftrightarrow> (\<forall>c \<in> set cs. csName c \<noteq> leaderName ob)" for cs by force
  have u: "planUnregisters d (index ob) m False = [] \<longleftrightarrow>
      (\<forall>i \<in> set (tRetiringDataInstances d). index ob (dsName i) \<noteq> None \<longrightarrow> dsName i = m)" for m
    by (auto simp: planUnregisters_eq filter_empty_conv)
  show ?thesis
  proof (cases "handsOver d ob lag")
    case False
    have "planDemotions False m = []" for m by (simp add: planDemotions_def)
    with False show ?thesis
      unfolding Plan_eq option.inject append_is_Nil_conv y
      by (auto simp: u planAdds_def planRegisters_def boltServerUpdates_eq filter_empty_conv)
  qed (simp add: Plan_eq planDemotions_def)
qed

lemma Plan_settled_iff:
  assumes "namedMembers declared"
  shows "Plan declared observed lag = Some [] \<longleftrightarrow> settled declared observed lag"
proof (cases "handsOver declared observed lag")
  case True
  then show ?thesis by (auto simp: Plan_Nil_iff settled_def handsOver_def handoverTo_def split: if_splits)
next
  case False
  then have "leavingMain declared observed \<noteq> [] \<longrightarrow>
      handoverCandidates declared (index observed) (indexLag lag) = []"
    by (simp add: handsOver_def handoverTo_def split: if_splits)
  with False show ?thesis
    unfolding Plan_Nil_iff settled_def no_promotion_iff [OF assms False]
    by (fastforce simp: coordinatorRegistered_def moved_def leaves_def split: option.splits)
qed

text \<open>
  C9: \<open>Plan\<close> returns no command exactly when the cluster is settled: every declared coordinator and
  instance is registered at its declared address, a MAIN exists, no member on its way out is still
  registered save a MAIN nobody can take over from, and none is the leader.
\<close>

theorem Plan_empty_iff_settled:
  assumes "namedMembers declared"
  shows "Plan declared observed lag = Some [] \<longleftrightarrow> settled declared observed lag"
  using assms by (rule Plan_settled_iff)

definition exSettledView :: "Instance list" where
  "exSettledView = [exRow ''coordinator_1'' ''c1'' RoleLeader, exRow ''d0'' ''d0b'' RoleMain]"

theorem Plan_empty_iff_settled_witness:
  "Plan exTopology exSettledView [] = Some [] \<and> settled exTopology exSettledView []"
proof -
  have "namedMembers exTopology" by (simp add: namedMembers_def exTopology_def exData_def)
  moreover have "Plan exTopology exSettledView [] = Some []" by code_simp
  ultimately show ?thesis using Plan_empty_iff_settled [of exTopology exSettledView "[]"] by simp
qed

text \<open>
  An empty plan does not mean that the members on their way out have left: when it is empty and
  they have not, exactly one thing is in the way, an observed MAIN on its way out for which no
  declared instance is registered, up and caught up.
\<close>

theorem Plan_empty_not_Retired:
  assumes "namedMembers declared" and "Plan declared observed lag = Some []"
    and "\<not> Retired declared observed"
  shows "\<exists>i \<in> set observed. IsMain i \<and> retiringNames declared (iName i)
    \<and> (\<forall>n \<in> dsName ` set (tDataInstances declared). \<not>
         ((\<exists>r. index observed n = Some r \<and> IsUp r) \<and> IsCaughtUp (lagOf (indexLag lag) n)))
    \<and> (\<forall>n. retiringNames declared n \<longrightarrow> index observed n \<noteq> None \<longrightarrow> n = iName i)"
proof -
  note nil = assms(2) [unfolded Plan_Nil_iff]
  from nil have "\<forall>c \<in> set (tRetiringCoordinators declared). \<not> coordinatorRegistered (index observed) c"
    by (auto simp: leaves_def)
  with assms(3) obtain d where d: "d \<in> set (tRetiringDataInstances declared)" "index observed (dsName d) \<noteq> None"
    by (auto simp: Retired_def list_ex_iff)
  with nil have m: "leavingMain declared observed = dsName d" by auto
  with d assms(1) have ne: "leavingMain declared observed \<noteq> []" by (auto simp: namedMembers_def)
  from nil ne have none: "handoverCandidates declared (index observed) (indexLag lag) = []"
    by (simp add: handsOver_def handoverTo_def split: if_splits)
  have "\<not> ((\<exists>r. index observed n = Some r \<and> IsUp r) \<and> IsCaughtUp (lagOf (indexLag lag) n))"
    if "n \<in> dsName ` set (tDataInstances declared)" for n
    using that none in_handoverCandidates [of n declared "index observed" "indexLag lag"] by auto
  moreover have "\<forall>n. retiringNames declared n \<longrightarrow> index observed n \<noteq> None \<longrightarrow> n = leavingMain declared observed"
    using nil by (auto simp: retiringNames_def)
  ultimately show ?thesis using leavingMain_SomeD [OF ne] by metis
qed

definition exStuckTopology :: Topology where
  "exStuckTopology = exTopology\<lparr>tRetiringCoordinators := []\<rparr>"

theorem Plan_empty_not_Retired_witness:
  "\<exists>i \<in> set exView. IsMain i \<and> retiringNames exStuckTopology (iName i)
    \<and> (\<forall>n \<in> dsName ` set (tDataInstances exStuckTopology). \<not>
         ((\<exists>r. index exView n = Some r \<and> IsUp r) \<and> IsCaughtUp (lagOf (indexLag []) n)))
    \<and> (\<forall>n. retiringNames exStuckTopology n \<longrightarrow> index exView n \<noteq> None \<longrightarrow> n = iName i)"
proof (rule Plan_empty_not_Retired)
  show "namedMembers exStuckTopology"
    by (simp add: namedMembers_def exStuckTopology_def exTopology_def exData_def)
  show "Plan exStuckTopology exView [] = Some []" and "\<not> Retired exStuckTopology exView"
    by code_simp+
qed

section \<open>Retired and Registered\<close>

text \<open>Counting in an \<open>int32\<close> is exact for any list that fits the width.\<close>

lemma count32:
  "k + int (length xs) \<le> int32_max \<Longrightarrow> 0 \<le> k \<Longrightarrow>
   foldl (\<lambda>n x. if P x then wrap32 (n + 1) else n) k xs = k + int (length (filter P xs))"
proof (induction xs arbitrary: k)
  case (Cons x xs)
  then have "is_int32 (k + 1)" by (auto simp: is_int32_def int32_min_def)
  with Cons show ?case by auto
qed simp

lemma Registered_eq:
  assumes "int (length (tCoordinators d)) \<le> int32_max" and "int (length (tDataInstances d)) \<le> int32_max"
  shows "Registered d ob =
    (int (length (filter (coordinatorRegistered (index ob)) (tCoordinators d))),
     int (length (filter (\<lambda>i. index ob (dsName i) \<noteq> None) (tDataInstances d))))"
  using assms by (simp add: Registered_def Let_def count32 del: not_None_eq)

text \<open>
  The counts the status reports reach the declared counts exactly when the plan stops issuing
  registrations, each role for itself.
\<close>

theorem Registered_complete_iff:
  assumes "Plan declared observed lag = Some commands"
    and "int (length (tCoordinators declared)) \<le> int32_max"
    and "int (length (tDataInstances declared)) \<le> int32_max"
  shows "(fst (Registered declared observed) = int (length (tCoordinators declared))
        \<longleftrightarrow> (\<forall>c. AddCoordinator c \<notin> set commands))
    \<and> (snd (Registered declared observed) = int (length (tDataInstances declared))
        \<longleftrightarrow> (\<forall>i. RegisterInstance i \<notin> set commands))"
  using assms(2,3) by (auto simp: Registered_eq Plan_mem [OF assms(1)] length_filter_full)

theorem Registered_complete_iff_witness:
  "fst (Registered exTopology exView) = 1 \<and> snd (Registered exTopology exView) = 1"
proof -
  have "int (length (tCoordinators exTopology)) = 1" and "int (length (tDataInstances exTopology)) = 1"
    by (simp_all add: exTopology_def)
  then show ?thesis
    using Registered_complete_iff [OF exPlan] by (simp add: int32_max_def)
qed

text \<open>
  \<open>Retired\<close> is the precondition of deleting pods: when it holds, no row of the view carries the
  name of a data instance on its way out, and no row that carries the name of a coordinator on its
  way out has a bolt address, whatever the plan says.
\<close>

theorem Retired_iff_gone:
  assumes "distinct (map iName observed)"
  shows "Retired declared observed \<longleftrightarrow>
    (\<forall>r \<in> set observed. \<not> retiringNames declared (iName r)
       \<and> (iName r \<in> csName ` set (tRetiringCoordinators declared) \<longrightarrow> iBoltServer r = []))"
proof -
  have reg: "coordinatorRegistered (index observed) c \<longleftrightarrow>
      (\<exists>r \<in> set observed. iName r = csName c \<and> iBoltServer r \<noteq> [])" for c
  proof -
    have "coordinatorRegistered (index observed) c \<longleftrightarrow>
        (\<exists>r. index observed (csName c) = Some r \<and> iBoltServer r \<noteq> [])"
      by (simp add: coordinatorRegistered_def split: option.splits)
    then show ?thesis unfolding instance_view.build_Some_iff [OF assms] by blast
  qed
  have "(\<exists>r. index observed n = Some r) \<longleftrightarrow> (\<exists>r \<in> set observed. iName r = n)" for n
    by (rule instance_view.present_iff)
  then show ?thesis
    unfolding Retired_def Let_def list_ex_iff reg retiringNames_def not_None_eq by force
qed

theorem Retired_iff_gone_witness:
  "Retired exTopology exSettledView \<longleftrightarrow>
    (\<forall>r \<in> set exSettledView. \<not> retiringNames exTopology (iName r)
       \<and> (iName r \<in> csName ` set (tRetiringCoordinators exTopology) \<longrightarrow> iBoltServer r = []))"
  by (rule Retired_iff_gone) (simp add: exSettledView_def exRow_def)

section \<open>Running a promotion\<close>

text \<open>Every name of the list, tried in order from a state, is refused; the refusals and the state left.\<close>

fun refusedAll :: "'s Client \<Rightarrow> string list \<Rightarrow> 's \<Rightarrow> (goerror list \<times> 's) option" where
  "refusedAll client [] s = Some ([], s)"
| "refusedAll client (n # ns) s =
     (case clSetInstanceToMain client n s of
        (None, s') \<Rightarrow> None
      | (Some e, s') \<Rightarrow> map_option (\<lambda>(errs, s''). ((''promoting '' @ n @ '': '' @ e) # errs, s''))
          (refusedAll client ns s'))"

lemma tryCandidates_refused:
  "refusedAll client ns s = Some (errs', s') \<Longrightarrow>
   tryCandidates client ns errs s = (Some (errs @ errs'), s')"
  by (induction ns arbitrary: s errs errs') (auto split: prod.splits option.splits)

lemma tryCandidates_accepted:
  "refusedAll client before s = Some (errs', s') \<Longrightarrow> clSetInstanceToMain client n s' = (None, s'') \<Longrightarrow>
   tryCandidates client (before @ n # after) errs s = (None, s'')"
  by (induction before arbitrary: s errs errs') (auto split: prod.splits option.splits)

lemma refusedAll_None:
  assumes "refusedAll client ns s = None"
  shows "\<exists>before n after errs s' s''. ns = before @ n # after
    \<and> refusedAll client before s = Some (errs, s') \<and> clSetInstanceToMain client n s' = (None, s'')"
  using assms
proof (induction ns arbitrary: s)
  case (Cons n ns)
  obtain r s1 where c: "clSetInstanceToMain client n s = (r, s1)" by (cases "clSetInstanceToMain client n s")
  show ?case
  proof (cases r)
    case None
    with c have "n # ns = [] @ n # ns \<and> refusedAll client [] s = Some ([], s)
        \<and> clSetInstanceToMain client n s = (None, s1)" by simp
    then show ?thesis by blast
  next
    case (Some e)
    with Cons.prems c have "refusedAll client ns s1 = None" by simp
    from Cons.IH [OF this] obtain before m after errs s' s'' where
      "ns = before @ m # after" "refusedAll client before s1 = Some (errs, s')"
      "clSetInstanceToMain client m s' = (None, s'')" by blast
    with c Some have "n # ns = (n # before) @ m # after
        \<and> refusedAll client (n # before) s = Some ((''promoting '' @ n @ '': '' @ e) # errs, s')
        \<and> clSetInstanceToMain client m s' = (None, s'')" by simp
    then show ?thesis by blast
  qed
qed simp

text \<open>
  Running a promotion. The command succeeds exactly when one of its candidates is accepted after
  every earlier one was refused (or when it has neither a candidate nor a \<open>Restore\<close>); otherwise, with
  every candidate refused, it fails, and a non-empty \<open>Restore\<close> has been promoted back from the state
  the refusals left.
\<close>

theorem runSetInstanceToMain_outcome:
  "(case refusedAll client candidates s of
      None \<Rightarrow> \<exists>before n after errs s' s''. candidates = before @ n # after
        \<and> refusedAll client before s = Some (errs, s') \<and> clSetInstanceToMain client n s' = (None, s'')
        \<and> cmdRun client (SetInstanceToMain candidates restore) s = (None, s'')
    | Some (errs, s') \<Rightarrow>
        if restore = [] then cmdRun client (SetInstanceToMain candidates restore) s = (errorsJoin errs, s')
          \<and> (errorsJoin errs = None \<longleftrightarrow> candidates = [])
        else \<exists>e. cmdRun client (SetInstanceToMain candidates restore) s
          = (Some e, snd (clSetInstanceToMain client restore s')))"
proof (cases "refusedAll client candidates s")
  case None
  from refusedAll_None [OF None] obtain before n after errs s' s'' where c:
    "candidates = before @ n # after" "refusedAll client before s = Some (errs, s')"
    "clSetInstanceToMain client n s' = (None, s'')" by blast
  with tryCandidates_accepted [OF c(2,3)] None show ?thesis
    by (auto simp: runSetInstanceToMain_def)
next
  case (Some p)
  obtain errs s' where p: "p = (errs, s')" by (cases p)
  have "errs = [] \<longleftrightarrow> candidates = []"
    using Some p by (cases candidates) (auto split: prod.splits option.splits)
  with Some p tryCandidates_refused [of client candidates s errs s' "[]"] show ?thesis
    by (auto simp: runSetInstanceToMain_def errorsJoin_def split: prod.splits option.splits)
qed

end
