(* ===== verification/Fake_Memgraph.thy ===== *)
theory Fake_Memgraph
  imports Planner
begin

text \<open>
  \<open>src/internal/controller/fake_memgraph_test.go\<close>: the repository's own executable specification of a
  Memgraph HA cluster behind the \<open>memgraph.Client\<close> seam. It keeps one shared SHOW INSTANCES view,
  applies the registration commands to it, and refuses what Memgraph refuses: duplicate
  registrations, a second MAIN, a demotion or an unregistration of the wrong instance, the removal of
  the Raft leader.

  Modelled: the fields that the registration queries read or write, and the client methods of the
  \<open>Client\<close> record. The \<open>closed\<close> flag of the one connection is part of the state.

  The second half abstracts the view to a map from names to rows and shows that every accepted
  command but a promotion and a yield changes one row only (\<open>rowStep\<close>), the refinement the
  convergence proof works on.
\<close>

section \<open>The cluster\<close>

record fakeMemgraph =
  fInstances :: "Instance list"
  fStaleViews :: "string \<Rightarrow> Instance list option"
  fBehind :: "string \<Rightarrow> int64 option"
  fRejected :: "(string \<times> goerror) list"
  fExecuted :: "string list"
  fClosed :: bool

definition newFakeMemgraph :: fakeMemgraph where
  "newFakeMemgraph = \<lparr>fInstances = [], fStaleViews = Map.empty, fBehind = Map.empty, fRejected = [],
     fExecuted = [], fClosed = False\<rparr>"

definition hasInstance :: "Instance list \<Rightarrow> string \<Rightarrow> bool" where
  "hasInstance instances name = list_ex (\<lambda>i. iName i = name) instances"

text \<open>
  \<open>selfName\<close>: the coordinator that serves a connection, read off the pod ordinal of its address
  \<open><statefulset>-<ordinal>.<rest>\<close>. \<open>strconv.Atoi\<close> reads a 64-bit integer; its own error text,
  which \<open>selfName\<close> appends to its message, is left out.
\<close>

definition atoi64 :: "string \<Rightarrow> int option" where
  "atoi64 s =
     (let ranged = (\<lambda>i. if - (2 ^ 63) \<le> i \<and> i < 2 ^ 63 then Some i else None)
      in case s of
           [] \<Rightarrow> None
         | c # cs \<Rightarrow>
             if c = CHR ''-'' then Option.bind (parseDigits cs) (\<lambda>n. ranged (- int n))
             else if c = CHR ''+'' then Option.bind (parseDigits cs) (\<lambda>n. ranged (int n))
             else Option.bind (parseDigits s) (\<lambda>n. ranged (int n)))"

text \<open>\<open>s[strings.LastIndex(s, "-")+1:]\<close>, \<^term>\<open>None\<close> when there is no dash.\<close>

definition afterLastDash :: "string \<Rightarrow> string option" where
  "afterLastDash s = (if CHR ''-'' \<in> set s then Some (rev (takeWhile (\<lambda>c. c \<noteq> CHR ''-'') (rev s))) else None)"

definition beforeDot :: "string \<Rightarrow> string" where
  "beforeDot s = (case cut s ''.'' of Some (pod, _) \<Rightarrow> pod | None \<Rightarrow> s)"

definition selfName :: "string \<Rightarrow> goerror + string" where
  "selfName address =
     (case afterLastDash (beforeDot address) of
        None \<Rightarrow> Inl (''fake memgraph: '' @ address @ '' is not a pod address'')
      | Some suffix \<Rightarrow> (case atoi64 suffix of
            None \<Rightarrow> Inl (''fake memgraph: '' @ address @ '' carries no pod ordinal'')
          | Some ordinal \<Rightarrow> Inr (coordinatorPrefix @ itoa ordinal)))"

section \<open>The client methods\<close>

definition closedError :: "string \<Rightarrow> goerror" where
  "closedError address = ''fake memgraph: connection to '' @ address @ '' already closed''"

text \<open>\<open>execute\<close>: record the command and apply it to the shared view.\<close>

definition execute ::
  "string \<Rightarrow> string \<Rightarrow> (Instance list \<Rightarrow> goerror + Instance list) \<Rightarrow> fakeMemgraph call" where
  "execute address command apply_fn s =
     (if fClosed s then (Some (closedError address), s)
      else case find (\<lambda>(prefix, _). hasPrefix command prefix) (fRejected s) of
          Some (_, err) \<Rightarrow> (Some err, s)
        | None \<Rightarrow> (case apply_fn (fInstances s) of
              Inl err \<Rightarrow> (Some err, s)
            | Inr instances \<Rightarrow>
                (None, s\<lparr>fInstances := instances, fExecuted := fExecuted s @ [address @ '': '' @ command]\<rparr>)))"

text \<open>
  The loops \<open>for i, instance := range instances { if instance.Name != name { continue }; ... }\<close>: the
  first row with the name is handed to \<open>f\<close>, which refuses it, replaces it or deletes it (\<^term>\<open>None\<close>);
  \<^term>\<open>None\<close> when no row has the name.
\<close>

fun atRow ::
  "(Instance \<Rightarrow> bool) \<Rightarrow> (Instance \<Rightarrow> goerror + Instance option) \<Rightarrow> Instance list \<Rightarrow> (goerror + Instance list) option" where
  "atRow p f [] = None"
| "atRow p f (i # is) =
     (if p i then Some (case f i of Inl e \<Rightarrow> Inl e | Inr None \<Rightarrow> Inr is | Inr (Some j) \<Rightarrow> Inr (j # is))
      else map_option (map_sum id ((#) i)) (atRow p f is))"

definition fakeAddCoordinator :: "string \<Rightarrow> CoordinatorSpec \<Rightarrow> fakeMemgraph call" where
  "fakeAddCoordinator address c = execute address (''ADD COORDINATOR '' @ itoa (csID c)) (\<lambda>instances.
     case atRow (\<lambda>i. iName i = csName c)
         (\<lambda>i. if iBoltServer i \<noteq> []
            then Inl (''fake memgraph: coordinator '' @ csName c @ '' already exists'')
            else Inr (Some (i\<lparr>iBoltServer := csBoltServer c, iCoordinatorServer := csCoordinatorServer c,
                iManagementServer := csManagementServer c\<rparr>))) instances of
       Some result \<Rightarrow> result
     | None \<Rightarrow> (case selfName address of
           Inl err \<Rightarrow> Inl err
         | Inr self \<Rightarrow> Inr (instances @ [\<lparr>iName = csName c, iBoltServer = csBoltServer c,
             iCoordinatorServer = csCoordinatorServer c, iManagementServer = csManagementServer c,
             iHealth = ''up'', iRole = (if csName c = self then RoleLeader else RoleFollower)\<rparr>])))"

definition fakeRegisterInstance :: "string \<Rightarrow> DataInstanceSpec \<Rightarrow> fakeMemgraph call" where
  "fakeRegisterInstance address d = execute address (''REGISTER INSTANCE '' @ dsName d) (\<lambda>instances.
     if hasInstance instances (dsName d)
     then Inl (''fake memgraph: instance '' @ dsName d @ '' already registered'')
     else Inr (instances @ [\<lparr>iName = dsName d, iBoltServer = dsBoltServer d, iCoordinatorServer = [],
       iManagementServer = dsManagementServer d, iHealth = ''up'', iRole = RoleReplica\<rparr>]))"

definition fakeUpdateCoordinatorBoltServer :: "string \<Rightarrow> int32 \<Rightarrow> string \<Rightarrow> fakeMemgraph call" where
  "fakeUpdateCoordinatorBoltServer address cid boltServer =
     execute address (''UPDATE CONFIG FOR COORDINATOR '' @ itoa cid @ '' bolt_server='' @ boltServer) (\<lambda>instances.
       case atRow (\<lambda>i. iName i = coordinatorPrefix @ itoa cid \<and> iBoltServer i \<noteq> [])
           (\<lambda>i. Inr (Some (i\<lparr>iBoltServer := boltServer\<rparr>))) instances of
         Some result \<Rightarrow> result
       | None \<Rightarrow> Inl (''fake memgraph: coordinator '' @ coordinatorPrefix @ itoa cid @ '' is not a member''))"

definition notRegistered :: "string \<Rightarrow> goerror" where
  "notRegistered name = ''fake memgraph: instance '' @ name @ '' is not registered''"

definition fakeUpdateInstanceBoltServer :: "string \<Rightarrow> string \<Rightarrow> string \<Rightarrow> fakeMemgraph call" where
  "fakeUpdateInstanceBoltServer address name boltServer =
     execute address (''UPDATE CONFIG FOR INSTANCE '' @ name @ '' bolt_server='' @ boltServer) (\<lambda>instances.
       case atRow (\<lambda>i. iName i = name) (\<lambda>i. Inr (Some (i\<lparr>iBoltServer := boltServer\<rparr>))) instances of
         Some result \<Rightarrow> result
       | None \<Rightarrow> Inl (notRegistered name))"

definition fakeSetInstanceToMain :: "string \<Rightarrow> string \<Rightarrow> fakeMemgraph call" where
  "fakeSetInstanceToMain address name =
     execute address (''SET INSTANCE '' @ name @ '' TO MAIN'') (\<lambda>instances.
       case find IsMain instances of
         Some i \<Rightarrow> Inl (''fake memgraph: '' @ iName i @ '' is already MAIN'')
       | None \<Rightarrow> (case atRow (\<lambda>i. iName i = name) (\<lambda>i. Inr (Some (i\<lparr>iRole := RoleMain\<rparr>))) instances of
             Some result \<Rightarrow> result
           | None \<Rightarrow> Inl (notRegistered name)))"

definition fakeDemoteInstance :: "string \<Rightarrow> string \<Rightarrow> fakeMemgraph call" where
  "fakeDemoteInstance address name =
     execute address (''DEMOTE INSTANCE '' @ name) (\<lambda>instances.
       case atRow (\<lambda>i. iName i = name)
           (\<lambda>i. if \<not> IsMain i then Inl (''fake memgraph: instance '' @ name @ '' is not MAIN'')
              else Inr (Some (i\<lparr>iRole := RoleReplica\<rparr>))) instances of
         Some result \<Rightarrow> result
       | None \<Rightarrow> Inl (notRegistered name))"

definition fakeUnregisterInstance :: "string \<Rightarrow> string \<Rightarrow> fakeMemgraph call" where
  "fakeUnregisterInstance address name =
     execute address (''UNREGISTER INSTANCE '' @ name) (\<lambda>instances.
       case atRow (\<lambda>i. iName i = name)
           (\<lambda>i. if IsMain i then Inl (''fake memgraph: instance '' @ name @ '' is MAIN'') else Inr None) instances of
         Some result \<Rightarrow> result
       | None \<Rightarrow> Inl (notRegistered name))"

definition fakeRemoveCoordinator :: "string \<Rightarrow> int32 \<Rightarrow> fakeMemgraph call" where
  "fakeRemoveCoordinator address cid =
     execute address (''REMOVE COORDINATOR '' @ itoa cid) (\<lambda>instances.
       case atRow (\<lambda>i. iName i = coordinatorPrefix @ itoa cid)
           (\<lambda>i. if IsLeader i then Inl (''fake memgraph: '' @ coordinatorPrefix @ itoa cid @ '' is the leader'')
              else Inr None) instances of
         Some result \<Rightarrow> result
       | None \<Rightarrow> Inl (''fake memgraph: coordinator '' @ coordinatorPrefix @ itoa cid @ '' is not a member''))"

text \<open>The election of \<open>YieldLeadership\<close>: the first other coordinator row takes over.\<close>

definition successorOf :: "string \<Rightarrow> Instance \<Rightarrow> bool" where
  "successorOf self i \<longleftrightarrow> hasPrefix (iName i) coordinatorPrefix \<and> iName i \<noteq> self"

fun setRoleFirst :: "(Instance \<Rightarrow> bool) \<Rightarrow> Instance list \<Rightarrow> Instance list" where
  "setRoleFirst p [] = []"
| "setRoleFirst p (i # is) = (if p i then i\<lparr>iRole := RoleLeader\<rparr> # is else i # setRoleFirst p is)"

definition fakeYieldLeadership :: "string \<Rightarrow> fakeMemgraph call" where
  "fakeYieldLeadership address s =
     (case selfName address of
        Inl err \<Rightarrow> (Some err, s)
      | Inr self \<Rightarrow> execute address ''YIELD LEADERSHIP'' (\<lambda>instances.
          if \<not> list_ex (successorOf self) instances
          then Inl (''fake memgraph: '' @ self @ '' is the only coordinator, so leadership cannot be yielded'')
          else Inr (setRoleFirst (successorOf self)
            (map (\<lambda>i. if iName i = self then i\<lparr>iRole := RoleFollower\<rparr> else i) instances))) s)"

definition fakeShowInstances :: "string \<Rightarrow> fakeMemgraph \<Rightarrow> goerror + Instance list" where
  "fakeShowInstances address s =
     (if fClosed s then Inl (closedError address)
      else case fStaleViews s address of
          Some stale \<Rightarrow> Inr stale
        | None \<Rightarrow> (case selfName address of
              Inl err \<Rightarrow> Inl err
            | Inr self \<Rightarrow> Inr (if \<not> hasInstance (fInstances s) self
                then fInstances s @ [zeroInstance\<lparr>iName := self, iHealth := ''up'', iRole := RoleLeader\<rparr>]
                else fInstances s)))"

definition fakeShowReplicationLag :: "string \<Rightarrow> fakeMemgraph \<Rightarrow> goerror + ReplicationLag list" where
  "fakeShowReplicationLag address s =
     (if fClosed s then Inl (closedError address)
      else if \<not> list_ex IsMain (fInstances s) then Inr []
      else Inr (map (\<lambda>i.
          let behind = (if IsMain i then 0 else case fBehind s (iName i) of None \<Rightarrow> 0 | Some b \<Rightarrow> b) in
          \<lparr>rlInstance = iName i, rlDatabases = [\<lparr>dlDatabase = ''memgraph'',
             dlCommittedTxns = 100 - behind, dlTxnsBehindMain = behind\<rparr>]\<rparr>)
        (filter (\<lambda>i. \<not> hasPrefix (iName i) ''coordinator_'') (fInstances s))))"

definition fakeClient :: "string \<Rightarrow> fakeMemgraph Client" where
  "fakeClient address = \<lparr>
     clShowInstances = fakeShowInstances address,
     clShowReplicationLag = fakeShowReplicationLag address,
     clAddCoordinator = fakeAddCoordinator address,
     clRegisterInstance = fakeRegisterInstance address,
     clSetInstanceToMain = fakeSetInstanceToMain address,
     clUpdateCoordinatorBoltServer = fakeUpdateCoordinatorBoltServer address,
     clUpdateInstanceBoltServer = fakeUpdateInstanceBoltServer address,
     clDemoteInstance = fakeDemoteInstance address,
     clUnregisterInstance = fakeUnregisterInstance address,
     clRemoveCoordinator = fakeRemoveCoordinator address,
     clYieldLeadership = fakeYieldLeadership address\<rparr>"

section \<open>The view as a map, one row per command\<close>

fun cmdKey :: "Command \<Rightarrow> string" where
  "cmdKey (AddCoordinator c) = csName c"
| "cmdKey (RegisterInstance d) = dsName d"
| "cmdKey (UpdateCoordinatorBoltServer c) = csName c"
| "cmdKey (UpdateInstanceBoltServer d) = dsName d"
| "cmdKey (DemoteInstance n) = n"
| "cmdKey (UnregisterInstance n) = n"
| "cmdKey (RemoveCoordinator c) = csName c"
| "cmdKey (SetInstanceToMain candidates restore) = (case candidates of [] \<Rightarrow> restore | n # _ \<Rightarrow> n)"
| "cmdKey (YieldLeadership l) = l"

text \<open>What an accepted command makes of the one row it is aimed at; \<^term>\<open>None\<close> when it is refused.\<close>

fun rowStep :: "string \<Rightarrow> Command \<Rightarrow> Instance option \<Rightarrow> Instance option option" where
  "rowStep self (AddCoordinator c) row = (case row of
       None \<Rightarrow> Some (Some \<lparr>iName = csName c, iBoltServer = csBoltServer c,
         iCoordinatorServer = csCoordinatorServer c, iManagementServer = csManagementServer c,
         iHealth = ''up'', iRole = (if csName c = self then RoleLeader else RoleFollower)\<rparr>)
     | Some i \<Rightarrow> if iBoltServer i \<noteq> [] then None
         else Some (Some (i\<lparr>iBoltServer := csBoltServer c, iCoordinatorServer := csCoordinatorServer c,
           iManagementServer := csManagementServer c\<rparr>)))"
| "rowStep self (RegisterInstance d) row = (case row of
       None \<Rightarrow> Some (Some \<lparr>iName = dsName d, iBoltServer = dsBoltServer d, iCoordinatorServer = [],
         iManagementServer = dsManagementServer d, iHealth = ''up'', iRole = RoleReplica\<rparr>)
     | Some i \<Rightarrow> None)"
| "rowStep self (UpdateCoordinatorBoltServer c) row = (case row of
       None \<Rightarrow> None
     | Some i \<Rightarrow> if iBoltServer i = [] then None else Some (Some (i\<lparr>iBoltServer := csBoltServer c\<rparr>)))"
| "rowStep self (UpdateInstanceBoltServer d) row =
     map_option (\<lambda>i. Some (i\<lparr>iBoltServer := dsBoltServer d\<rparr>)) row"
| "rowStep self (DemoteInstance n) row = (case row of
       None \<Rightarrow> None
     | Some i \<Rightarrow> if IsMain i then Some (Some (i\<lparr>iRole := RoleReplica\<rparr>)) else None)"
| "rowStep self (UnregisterInstance n) row = (case row of
       None \<Rightarrow> None | Some i \<Rightarrow> if IsMain i then None else Some None)"
| "rowStep self (RemoveCoordinator c) row = (case row of
       None \<Rightarrow> None | Some i \<Rightarrow> if IsLeader i then None else Some None)"
| "rowStep self (SetInstanceToMain candidates restore) row = None"
| "rowStep self (YieldLeadership l) row = None"

definition accepting :: "string \<Rightarrow> string \<Rightarrow> fakeMemgraph \<Rightarrow> bool" where
  "accepting address self s \<longleftrightarrow> \<not> fClosed s \<and> fRejected s = [] \<and> selfName address = Inr self
     \<and> fStaleViews s address = None \<and> distinct (map iName (fInstances s))"

lemma atRow_split:
  "(\<And>j. j \<in> set xs \<Longrightarrow> \<not> p j) \<Longrightarrow> p i \<Longrightarrow> atRow p f (xs @ i # ys) =
     Some (case f i of Inl e \<Rightarrow> Inl e | Inr None \<Rightarrow> Inr (xs @ ys) | Inr (Some j) \<Rightarrow> Inr (xs @ j # ys))"
  by (induction xs) (auto split: sum.splits option.splits)

lemma atRow_None: "(\<And>j. j \<in> set is \<Longrightarrow> \<not> p j) \<Longrightarrow> atRow p f is = None"
  by (induction "is") auto

lemma index_eq_None: "index is k = None \<longleftrightarrow> k \<notin> iName ` set is"
  by (rule instance_view.build_None)

lemma index_split:
  assumes "distinct (map iName is)" and "index is k = Some i"
  shows "\<exists>xs ys. is = xs @ i # ys \<and> iName i = k \<and> k \<notin> iName ` set xs \<and> k \<notin> iName ` set ys"
proof -
  from assms instance_view.build_Some have "i \<in> set is" "iName i = k" by blast+
  then obtain xs ys where "is = xs @ i # ys" by (auto dest: split_list)
  with assms(1) \<open>iName i = k\<close> show ?thesis by auto
qed

lemma index_replace:
  assumes "k \<notin> iName ` set xs" and "k \<notin> iName ` set ys" and "iName i = k"
  shows "index (xs @ ys) = (index (xs @ i # ys))(k := None)"
    and "iName j = k \<Longrightarrow> index (xs @ j # ys) = (index (xs @ i # ys))(k := Some j)"
proof -
  have "index xs k = None" "index ys k = None" using assms by (simp_all add: index_eq_None)
  then show "index (xs @ ys) = (index (xs @ i # ys))(k := None)"
    and "iName j = k \<Longrightarrow> index (xs @ j # ys) = (index (xs @ i # ys))(k := Some j)"
    using assms(3) by (auto simp: index_def index_by_append index_by_Cons map_add_def fun_eq_iff
        split: option.splits)
qed

lemma atRow_index:
  assumes "distinct (map iName is)" and "index is k = Some i" and "p i"
    and "\<And>j. p j \<Longrightarrow> iName j = k" and "f i = Inr r" and "\<And>j. r = Some j \<Longrightarrow> iName j = k"
  shows "\<exists>is'. atRow p f is = Some (Inr is') \<and> distinct (map iName is') \<and> index is' = (index is)(k := r)"
proof -
  from index_split [OF assms(1,2)] obtain xs ys where s: "is = xs @ i # ys" "iName i = k"
    "k \<notin> iName ` set xs" "k \<notin> iName ` set ys" by blast
  have "j \<in> set xs \<Longrightarrow> \<not> p j" for j using s(3) assms(4) by (metis image_eqI)
  from atRow_split [where p = p and i = i and f = f and xs = xs and ys = ys, OF this assms(3)]
  have a: "atRow p f is = Some (case f i of Inl e \<Rightarrow> Inl e | Inr None \<Rightarrow> Inr (xs @ ys)
      | Inr (Some j) \<Rightarrow> Inr (xs @ j # ys))" by (simp only: s(1))
  note d = assms(1) [unfolded s(1)]
  show ?thesis
  proof (cases r)
    case None
    with a assms(5) d index_replace(1) [OF s(3,4,2)] show ?thesis by (simp add: s(1))
  next
    case (Some j)
    with a assms(5,6) d s(2) index_replace(2) [OF s(3,4,2), of j] show ?thesis by (simp add: s(1))
  qed
qed

lemma index_snoc: "index (is @ [i]) = (index is)(iName i := Some i)"
  by (simp add: index_def)

lemma execute_ok:
  assumes "accepting address self s" and "apply_fn (fInstances s) = Inr is'" and "distinct (map iName is')"
  shows "\<exists>s'. execute address command apply_fn s = (None, s') \<and> accepting address self s' \<and> fInstances s' = is'"
  using assms by (simp add: execute_def accepting_def)

text \<open>A command accepted at its row: the state it leaves.\<close>

definition rowDone ::
  "string \<Rightarrow> string \<Rightarrow> fakeMemgraph \<Rightarrow> string \<Rightarrow> Instance option \<Rightarrow> goerror option \<times> fakeMemgraph \<Rightarrow> bool" where
  "rowDone address self s k r result \<longleftrightarrow> (\<exists>s'. result = (None, s') \<and> accepting address self s'
     \<and> index (fInstances s') = (index (fInstances s))(k := r))"

lemma execute_row:
  assumes "accepting address self s" and "apply_fn (fInstances s) = Inr is'" and "distinct (map iName is')"
    and "index is' = (index (fInstances s))(k := r)"
  shows "rowDone address self s k r (execute address command apply_fn s)"
  using execute_ok [where apply_fn = apply_fn, OF assms(1-3), of command] assms(4) by (auto simp: rowDone_def)

lemma execute_atRow:
  assumes "accepting address self s" and "index (fInstances s) k = Some i" and "p i"
    and "\<And>j. p j \<Longrightarrow> iName j = k" and "f i = Inr r" and "\<And>j. r = Some j \<Longrightarrow> iName j = k"
  shows "rowDone address self s k r (execute address command
     (\<lambda>instances. case atRow p f instances of Some result \<Rightarrow> result | None \<Rightarrow> other instances) s)"
proof -
  have d: "distinct (map iName (fInstances s))" using assms(1) by (simp add: accepting_def)
  from atRow_index [where p = p and f = f, OF d assms(2-6)] show ?thesis by (auto intro: execute_row [OF assms(1)])
qed

lemma execute_snoc:
  assumes "accepting address self s" and "index (fInstances s) (iName i) = None"
    and "apply_fn (fInstances s) = Inr (fInstances s @ [i])"
  shows "rowDone address self s (iName i) (Some i) (execute address command apply_fn s)"
  using assms
  by (intro execute_row) (auto simp: index_snoc index_eq_None accepting_def)

lemmas fake_defs = fakeAddCoordinator_def fakeRegisterInstance_def fakeUpdateCoordinatorBoltServer_def
  fakeUpdateInstanceBoltServer_def fakeDemoteInstance_def fakeUnregisterInstance_def
  fakeRemoveCoordinator_def

lemma index_name: "index is k = Some i \<Longrightarrow> iName i = k"
  using instance_view.build_Some by blast

lemma add_row:
  assumes "accepting address self s"
    and "rowStep self (AddCoordinator c) (index (fInstances s) (csName c)) = Some r"
  shows "rowDone address self s (csName c) r (fakeAddCoordinator address c s)"
proof (cases "index (fInstances s) (csName c)")
  case None
  let ?i = "\<lparr>iName = csName c, iBoltServer = csBoltServer c,
         iCoordinatorServer = csCoordinatorServer c, iManagementServer = csManagementServer c,
         iHealth = ''up'', iRole = (if csName c = self then RoleLeader else RoleFollower)\<rparr>"
  have r: "r = Some ?i" using None assms(2) by simp
  have self: "selfName address = Inr self" using assms(1) by (simp add: accepting_def)
  have no: "atRow (\<lambda>i. iName i = csName c) f (fInstances s) = None" for f
    using None by (intro atRow_None) (force simp: index_eq_None)
  have "rowDone address self s (iName ?i) (Some ?i) (fakeAddCoordinator address c s)"
    unfolding fakeAddCoordinator_def
    using None self no by (intro execute_snoc [OF assms(1)]) simp_all
  with r show ?thesis by simp
next
  case (Some i)
  with assms(2) have "iBoltServer i = []" by (simp split: if_splits)
  with Some assms(2) show ?thesis
    unfolding fakeAddCoordinator_def
    by (intro execute_atRow [OF assms(1) Some]) (auto dest: index_name)
qed

lemma register_row:
  assumes "accepting address self s"
    and "rowStep self (RegisterInstance d) (index (fInstances s) (dsName d)) = Some r"
  shows "rowDone address self s (dsName d) r (fakeRegisterInstance address d s)"
proof -
  let ?i = "\<lparr>iName = dsName d, iBoltServer = dsBoltServer d, iCoordinatorServer = [],
         iManagementServer = dsManagementServer d, iHealth = ''up'', iRole = RoleReplica\<rparr>"
  have none: "index (fInstances s) (dsName d) = None" and r: "r = Some ?i"
    using assms(2) by (simp_all split: option.splits)
  then have no: "\<not> hasInstance (fInstances s) (dsName d)"
    by (force simp: hasInstance_def list_ex_iff index_eq_None)
  have "rowDone address self s (iName ?i) (Some ?i) (fakeRegisterInstance address d s)"
    unfolding fakeRegisterInstance_def using none no by (intro execute_snoc [OF assms(1)]) simp_all
  with r show ?thesis by simp
qed

text \<open>
  Every command but a promotion and a yield refines \<open>rowStep\<close> on the map of the view: where
  \<open>rowStep\<close> accepts, the cluster does, and only the one row changes.
\<close>

lemma cmdRun_row:
  assumes "accepting address self s"
    and "rowStep self c (index (fInstances s) (cmdKey c)) = Some r"
  shows "rowDone address self s (cmdKey c) r (cmdRun (fakeClient address) c s)"
proof (cases c)
  case (AddCoordinator x)
  with assms add_row show ?thesis by (simp add: fakeClient_def)
next
  case (RegisterInstance x)
  with assms register_row show ?thesis by (simp add: fakeClient_def)
next
  case (UpdateCoordinatorBoltServer x)
  with assms(2) obtain i where i: "index (fInstances s) (csName x) = Some i" "iBoltServer i \<noteq> []"
    "r = Some (i\<lparr>iBoltServer := csBoltServer x\<rparr>)" by (auto split: option.splits if_splits)
  then show ?thesis
    unfolding UpdateCoordinatorBoltServer
    by (simp add: fakeClient_def fake_defs)
      (intro execute_atRow [OF assms(1)], auto dest: index_name simp: csName_def)
next
  case (UpdateInstanceBoltServer x)
  with assms(2) obtain i where i: "index (fInstances s) (dsName x) = Some i"
    "r = Some (i\<lparr>iBoltServer := dsBoltServer x\<rparr>)" by auto
  then show ?thesis
    unfolding UpdateInstanceBoltServer
    by (simp add: fakeClient_def fake_defs) (intro execute_atRow [OF assms(1)], auto dest: index_name)
next
  case (DemoteInstance n)
  with assms(2) obtain i where i: "index (fInstances s) n = Some i" "IsMain i"
    "r = Some (i\<lparr>iRole := RoleReplica\<rparr>)" by (auto split: option.splits if_splits)
  then show ?thesis
    unfolding DemoteInstance
    by (simp add: fakeClient_def fake_defs) (intro execute_atRow [OF assms(1)], auto dest: index_name)
next
  case (UnregisterInstance n)
  with assms(2) obtain i where i: "index (fInstances s) n = Some i" "\<not> IsMain i" "r = None"
    by (auto split: option.splits if_splits)
  then show ?thesis
    unfolding UnregisterInstance
    by (simp add: fakeClient_def fake_defs) (intro execute_atRow [OF assms(1)], auto dest: index_name)
next
  case (RemoveCoordinator x)
  with assms(2) obtain i where i: "index (fInstances s) (csName x) = Some i" "\<not> IsLeader i" "r = None"
    by (auto split: option.splits if_splits)
  then show ?thesis
    unfolding RemoveCoordinator
    by (simp add: fakeClient_def fake_defs)
      (intro execute_atRow [OF assms(1)], auto dest: index_name simp: csName_def)
qed (use assms(2) in simp_all)

end
