(* ===== verification/Registration.thy ===== *)
theory Registration
  imports Fake_Memgraph "HOL-Library.Multiset"
begin

text \<open>
  The registration pass of \<open>MemgraphDBClusterReconciler.reconcileRegistration\<close>
  (\<open>src/internal/controller/memgraphdbcluster_controller.go\<close>): the planned commands are run in order
  against the leader's connection and the first one refused ends the pass.

  The two theorems at the end join the planner with the cluster of \<open>fake_memgraph_test.go\<close>: a healthy
  cluster refuses no planned command, and one pass is enough. The proof follows the pass through four
  stages, each on the map of the view: registrations and address updates, the demotion, the promotion,
  the unregistrations and removals.
\<close>

section \<open>Running the plan\<close>

text \<open>The loop over the commands: the command that was refused, with the refusal, ends it.\<close>

fun runCommands :: "'s Client \<Rightarrow> Command list \<Rightarrow> 's \<Rightarrow> (Command \<times> goerror) option \<times> 's" where
  "runCommands client [] s = (None, s)"
| "runCommands client (command # commands) s =
     (case cmdRun client command s of
        (Some err, s') \<Rightarrow> (Some (command, err), s')
      | (None, s') \<Rightarrow> runCommands client commands s')"

lemma runCommands_append:
  "runCommands client (xs @ ys) s =
     (case runCommands client xs s of (None, s') \<Rightarrow> runCommands client ys s' | r \<Rightarrow> r)"
  by (induction xs arbitrary: s) (auto split: prod.splits option.splits)

lemma runCommands_seq:
  "runCommands client xs s = (None, s') \<Longrightarrow> runCommands client (xs @ ys) s = runCommands client ys s'"
  by (simp add: runCommands_append)

section \<open>Commands that change one row each\<close>

lemma runCommands_rows:
  assumes "accepting address self s" and "distinct (map cmdKey cs)"
    and "\<And>c. c \<in> set cs \<Longrightarrow> rowStep self c (index (fInstances s) (cmdKey c)) \<noteq> None"
  shows "\<exists>s'. runCommands (fakeClient address) cs s = (None, s') \<and> accepting address self s'
    \<and> (\<forall>c \<in> set cs. rowStep self c (index (fInstances s) (cmdKey c)) = Some (index (fInstances s') (cmdKey c)))
    \<and> (\<forall>n. n \<notin> cmdKey ` set cs \<longrightarrow> index (fInstances s') n = index (fInstances s) n)"
  using assms
proof (induction cs arbitrary: s)
  case (Cons c cs)
  from Cons.prems(3) [of c] obtain r where r: "rowStep self c (index (fInstances s) (cmdKey c)) = Some r"
    by auto
  from cmdRun_row [OF Cons.prems(1) r] obtain s1 where s1: "cmdRun (fakeClient address) c s = (None, s1)"
    "accepting address self s1" "index (fInstances s1) = (index (fInstances s))(cmdKey c := r)"
    by (auto simp: rowDone_def)
  have other: "index (fInstances s1) (cmdKey c') = index (fInstances s) (cmdKey c')" if "c' \<in> set cs" for c'
  proof -
    from Cons.prems(2) have "cmdKey c \<notin> cmdKey ` set cs" by auto
    with that have "cmdKey c' \<noteq> cmdKey c" by (metis image_eqI)
    then show ?thesis by (simp add: s1(3))
  qed
  have d: "distinct (map cmdKey cs)" using Cons.prems(2) by simp
  have ok: "rowStep self c' (index (fInstances s1) (cmdKey c')) \<noteq> None" if "c' \<in> set cs" for c'
    using Cons.prems(3) [of c'] other [OF that] that by simp
  from Cons.IH [OF s1(2) d ok] obtain s' where s': "runCommands (fakeClient address) cs s1 = (None, s')"
    "accepting address self s'"
    "\<forall>c \<in> set cs. rowStep self c (index (fInstances s1) (cmdKey c)) = Some (index (fInstances s') (cmdKey c))"
    "\<forall>n. n \<notin> cmdKey ` set cs \<longrightarrow> index (fInstances s') n = index (fInstances s1) n" by blast
  have "cmdKey c \<notin> cmdKey ` set cs" using Cons.prems(2) by auto
  with s' s1 other r show ?case by auto
qed simp

text \<open>A name holds MAIN in a view given as a map.\<close>

definition mainAt :: "(string \<Rightarrow> Instance option) \<Rightarrow> string \<Rightarrow> bool" where
  "mainAt m n \<longleftrightarrow> (\<exists>i. m n = Some i \<and> IsMain i)"

lemma IsMain_roles [simp]:
  "IsMain (i\<lparr>iRole := RoleMain\<rparr>)" "\<not> IsMain (i\<lparr>iRole := RoleReplica\<rparr>)" "\<not> IsLeader (i\<lparr>iRole := RoleMain\<rparr>)"
  by (simp_all add: IsMain_def IsLeader_def)

lemma IsMain_update [simp]:
  "IsMain (i\<lparr>iBoltServer := b\<rparr>) = IsMain i" "IsLeader (i\<lparr>iBoltServer := b\<rparr>) = IsLeader i"
  "IsMain (i\<lparr>iCoordinatorServer := b\<rparr>) = IsMain i" "IsLeader (i\<lparr>iCoordinatorServer := b\<rparr>) = IsLeader i"
  "IsMain (i\<lparr>iManagementServer := b\<rparr>) = IsMain i" "IsLeader (i\<lparr>iManagementServer := b\<rparr>) = IsLeader i"
  by (simp_all add: IsMain_def IsLeader_def)

text \<open>Registrations and address updates neither make nor unmake a MAIN, and keep every row.\<close>

lemma rowStep_front:
  assumes "rowStep self c row = Some row'" and "phase c \<le> 3"
  shows "\<exists>i'. row' = Some i' \<and> (IsMain i' \<longleftrightarrow> (\<exists>i. row = Some i \<and> IsMain i))
    \<and> (IsLeader i' \<longrightarrow> cmdKey c = self \<or> (\<exists>i. row = Some i \<and> IsLeader i))"
  using assms
  by (cases c) (auto simp: IsMain_def IsLeader_def split: option.splits if_splits)

lemma promote_row:
  assumes "accepting address self s" and "\<And>n. \<not> mainAt (index (fInstances s)) n"
    and "index (fInstances s) n = Some i"
  shows "rowDone address self s n (Some (i\<lparr>iRole := RoleMain\<rparr>))
    (cmdRun (fakeClient address) (SetInstanceToMain (n # ns) restore) s)"
proof -
  have dist: "distinct (map iName (fInstances s))" using assms(1) by (simp add: accepting_def)
  have "\<not> IsMain j" if "j \<in> set (fInstances s)" for j
    using instance_view.build_row [OF dist that] assms(2) [of "iName j"] by (auto simp: mainAt_def)
  then have none: "find IsMain (fInstances s) = None" by (simp add: find_None_iff)
  have "\<exists>is'. atRow (\<lambda>i. iName i = n) (\<lambda>i. Inr (Some (i\<lparr>iRole := RoleMain\<rparr>))) (fInstances s) = Some (Inr is')
      \<and> distinct (map iName is') \<and> index is' = (index (fInstances s))(n := Some (i\<lparr>iRole := RoleMain\<rparr>))"
    using index_name [OF assms(3)] by (intro atRow_index [OF dist assms(3)]) auto
  then obtain is' where is': "atRow (\<lambda>i. iName i = n) (\<lambda>i. Inr (Some (i\<lparr>iRole := RoleMain\<rparr>))) (fInstances s) = Some (Inr is')"
    "distinct (map iName is')" "index is' = (index (fInstances s))(n := Some (i\<lparr>iRole := RoleMain\<rparr>))" by blast
  have "rowDone address self s n (Some (i\<lparr>iRole := RoleMain\<rparr>)) (fakeSetInstanceToMain address n s)"
    unfolding fakeSetInstanceToMain_def by (rule execute_row [OF assms(1) _ is'(2,3)]) (simp add: none is'(1))
  then show ?thesis by (auto simp: rowDone_def fakeClient_def runSetInstanceToMain_def)
qed

lemma yield_accepted:
  assumes "accepting address self s" and "i \<in> set (fInstances s)" and "successorOf self i"
  shows "\<exists>s'. cmdRun (fakeClient address) (YieldLeadership l) s = (None, s')"
  using assms by (auto simp: fakeClient_def fakeYieldLeadership_def execute_def accepting_def list_ex_iff)

section \<open>The situation a pass starts from\<close>

text \<open>
  A topology the resource builders make: names are distinct, a data instance's name is not empty and
  not a coordinator's, and every declared coordinator has a bolt address.
\<close>

definition wellFormed :: "Topology \<Rightarrow> bool" where
  "wellFormed d \<longleftrightarrow> distinct (map csName (tCoordinators d @ tRetiringCoordinators d))
     \<and> distinct (map dsName (tDataInstances d @ tRetiringDataInstances d))
     \<and> (\<forall>i \<in> set (tDataInstances d @ tRetiringDataInstances d).
          dsName i \<noteq> [] \<and> \<not> hasPrefix (dsName i) coordinatorPrefix)
     \<and> tCoordinators d \<noteq> [] \<and> (\<forall>c \<in> set (tCoordinators d). csBoltServer c \<noteq> [])"

text \<open>
  A cluster in order, reached through its leader: at most one MAIN, never a coordinator, and the
  leader row is the row of the coordinator that serves the connection, if it has one yet.
\<close>

definition healthy :: "string \<Rightarrow> string \<Rightarrow> fakeMemgraph \<Rightarrow> bool" where
  "healthy address self s \<longleftrightarrow> accepting address self s \<and> oneMain (fInstances s)
     \<and> (\<forall>i \<in> set (fInstances s). IsMain i \<longrightarrow> \<not> hasPrefix (iName i) coordinatorPrefix)
     \<and> (\<forall>i \<in> set (fInstances s). IsLeader i \<longleftrightarrow> iName i = self)"

lemma hasPrefix_append [simp]: "hasPrefix (p @ s) p"
  by (simp add: hasPrefix_def)

lemma csName_prefix [simp]: "hasPrefix (csName c) coordinatorPrefix"
  by (simp add: csName_def)

lemma self_prefix: "selfName address = Inr self \<Longrightarrow> hasPrefix self coordinatorPrefix"
  by (auto simp: selfName_def split: option.splits)

lemma wellFormed_named: "wellFormed d \<Longrightarrow> namedMembers d"
  by (auto simp: wellFormed_def namedMembers_def)

lemma wellFormed_data:
  "wellFormed d \<Longrightarrow> i \<in> set (tDataInstances d) \<union> set (tRetiringDataInstances d) \<Longrightarrow>
   hasPrefix n coordinatorPrefix \<Longrightarrow> dsName i \<noteq> n"
  by (auto simp: wellFormed_def)

definition selfRow :: "string \<Rightarrow> Instance" where
  "selfRow self = zeroInstance\<lparr>iName := self, iHealth := ''up'', iRole := RoleLeader\<rparr>"

lemma selfRow_simps [simp]:
  "iName (selfRow self) = self" "iBoltServer (selfRow self) = []" "\<not> IsMain (selfRow self)"
  "IsLeader (selfRow self)"
  by (simp_all add: selfRow_def zeroInstance_def IsMain_def IsLeader_def)

definition viewOf :: "string \<Rightarrow> Instance list \<Rightarrow> Instance list" where
  "viewOf self is = (if hasInstance is self then is else is @ [selfRow self])"

lemma fakeShowInstances_view:
  "accepting address self s \<Longrightarrow> fakeShowInstances address s = Inr (viewOf self (fInstances s))"
  by (simp add: fakeShowInstances_def accepting_def viewOf_def selfRow_def)

subsection \<open>What the extra row of a coordinator not added yet changes in the plan: nothing\<close>

lemma index_view: "n \<noteq> self \<Longrightarrow> index (viewOf self is) n = index is n"
  by (simp add: viewOf_def index_snoc)

lemma index_view_self:
  "index (viewOf self is) self = (case index is self of None \<Rightarrow> Some (selfRow self) | Some i \<Rightarrow> Some i)"
  using index_eq_None [of "is" self]
  by (auto simp: viewOf_def index_snoc hasInstance_def list_ex_iff split: option.splits)

lemma coordinatorRegistered_view [simp]:
  "coordinatorRegistered (index (viewOf self is)) c = coordinatorRegistered (index is) c"
  by (cases "csName c = self")
    (auto simp: coordinatorRegistered_def index_view index_view_self split: option.splits)

lemma moved_view [simp]: "moved (index (viewOf self is)) n a = moved (index is) n a"
  by (cases "n = self") (auto simp: moved_def index_view index_view_self split: option.splits)

lemma viewOf_main: "i \<in> set (viewOf self is) \<and> IsMain i \<longleftrightarrow> i \<in> set is \<and> IsMain i"
  by (auto simp: viewOf_def)

lemma staysMain_view [simp]: "staysMain d (viewOf self is) = staysMain d is"
  using viewOf_main [of _ self "is"] by (auto simp: staysMain_def)

lemma leavingMain_view [simp]: "leavingMain d (viewOf self is) = leavingMain d is"
  by (simp add: leavingMain_def viewOf_def)

lemma leaderName_self:
  assumes "healthy address self s"
  shows "leaderName (viewOf self (fInstances s)) = self"
proof -
  have "\<exists>i \<in> set (viewOf self (fInstances s)). IsLeader i"
    using assms by (auto simp: healthy_def viewOf_def hasInstance_def list_ex_iff)
  then obtain i where i: "find IsLeader (viewOf self (fInstances s)) = Some i"
    by (metis find_None_iff option.exhaust)
  then have "i \<in> set (viewOf self (fInstances s))" "IsLeader i" by (auto dest: find_SomeD)
  then have "iName i = self" using assms by (auto simp: healthy_def viewOf_def split: if_splits)
  with i show ?thesis by (simp add: leaderName_def)
qed

section \<open>Stage one: registrations and address updates\<close>

definition frontCommands :: "Topology \<Rightarrow> (string \<Rightarrow> Instance option) \<Rightarrow> Command list" where
  "frontCommands d r = planAdds d r @ planRegisters d r @ boltServerUpdates d r"

lemma frontCommands_view:
  assumes "wellFormed d" and "hasPrefix self coordinatorPrefix"
  shows "frontCommands d (index (viewOf self is)) = frontCommands d (index is)"
proof -
  have "index (viewOf self is) (dsName i) = index is (dsName i)" if "i \<in> set (tDataInstances d)" for i
    using wellFormed_data [OF assms(1) _ assms(2)] that by (auto intro: index_view)
  then have "planRegisters d (index (viewOf self is)) = planRegisters d (index is)"
    by (simp add: planRegisters_def cong: filter_cong)
  then show ?thesis by (simp add: frontCommands_def planAdds_def boltServerUpdates_eq)
qed

lemma frontCommands_cases:
  assumes "c \<in> set (frontCommands d m)"
  shows "(\<exists>x \<in> set (tCoordinators d). c = AddCoordinator x \<and> \<not> coordinatorRegistered m x)
    \<or> (\<exists>x \<in> set (tDataInstances d). c = RegisterInstance x \<and> m (dsName x) = None)
    \<or> (\<exists>x \<in> set (tCoordinators d). c = UpdateCoordinatorBoltServer x \<and> moved m (csName x) (csBoltServer x))
    \<or> (\<exists>x \<in> set (tDataInstances d). c = UpdateInstanceBoltServer x \<and> moved m (dsName x) (dsBoltServer x))"
  using assms by (auto simp: frontCommands_def section_sets boltServerUpdates_eq)

lemma distinct_filter_parts:
  assumes "distinct (map f xs)" and "\<And>x. x \<in> set xs \<Longrightarrow> \<not> (P x \<and> Q x)"
  shows "distinct (map f (filter P xs @ filter Q xs))"
  using assms by (auto simp: distinct_map inj_on_def)

lemma frontCommands_distinct:
  assumes "wellFormed d"
  shows "distinct (map cmdKey (frontCommands d m))"
proof -
  have keys: "mset (map cmdKey (frontCommands d m)) =
    mset (map csName (filter (\<lambda>c. \<not> coordinatorRegistered m c) (tCoordinators d)
        @ filter (\<lambda>c. moved m (csName c) (csBoltServer c)) (tCoordinators d))
      @ map dsName (filter (\<lambda>i. m (dsName i) = None) (tDataInstances d)
        @ filter (\<lambda>i. moved m (dsName i) (dsBoltServer i)) (tDataInstances d)))"
    by (simp add: frontCommands_def planAdds_def planRegisters_def boltServerUpdates_eq comp_def)
  have "distinct (map csName (filter (\<lambda>c. \<not> coordinatorRegistered m c) (tCoordinators d)
        @ filter (\<lambda>c. moved m (csName c) (csBoltServer c)) (tCoordinators d)))"
    using assms by (intro distinct_filter_parts)
      (auto simp: wellFormed_def moved_def coordinatorRegistered_def split: option.splits)
  moreover have "distinct (map dsName (filter (\<lambda>i. m (dsName i) = None) (tDataInstances d)
        @ filter (\<lambda>i. moved m (dsName i) (dsBoltServer i)) (tDataInstances d)))"
    using assms by (intro distinct_filter_parts) (auto simp: wellFormed_def moved_def)
  moreover have "csName c \<noteq> dsName i" if "i \<in> set (tDataInstances d)" for c i
    using wellFormed_data [OF assms, of i "csName c"] that by (auto simp: eq_commute)
  ultimately show ?thesis
    unfolding mset_eq_imp_distinct_iff [OF keys] by auto
qed

lemma frontCommands_accepted:
  assumes "c \<in> set (frontCommands d m)"
  shows "rowStep self c (m (cmdKey c)) \<noteq> None" and "phase c \<le> 3" and "cmdKey c \<in> declaredNames d"
  using frontCommands_cases [OF assms]
  by (auto simp: coordinatorRegistered_def moved_def declaredNames_def split: option.splits)

text \<open>What holds of the map once the declared members are registered at their addresses.\<close>

definition frontDone ::
  "Topology \<Rightarrow> string \<Rightarrow> (string \<Rightarrow> Instance option) \<Rightarrow> (string \<Rightarrow> Instance option) \<Rightarrow> bool" where
  "frontDone d self m0 m1 \<longleftrightarrow>
     (\<forall>c \<in> set (tCoordinators d). \<exists>r. m1 (csName c) = Some r \<and> iBoltServer r = csBoltServer c)
     \<and> (\<forall>i \<in> set (tDataInstances d). \<exists>r. m1 (dsName i) = Some r
          \<and> (iBoltServer r = dsBoltServer i \<or> iBoltServer r = []))
     \<and> (\<forall>n. mainAt m1 n = mainAt m0 n)
     \<and> (\<forall>n. n \<notin> declaredNames d \<longrightarrow> m1 n = m0 n)
     \<and> (\<forall>n i. m1 n = Some i \<longrightarrow> IsLeader i \<longrightarrow> n = self)"

lemma front_pointwise:
  assumes "\<forall>c \<in> set (frontCommands d m0). rowStep self c (m0 (cmdKey c)) = Some (m1 (cmdKey c))"
    and "\<forall>n. n \<notin> cmdKey ` set (frontCommands d m0) \<longrightarrow> m1 n = m0 n"
  shows "mainAt m1 n = mainAt m0 n"
    and "m1 n = Some i \<Longrightarrow> IsLeader i \<Longrightarrow> n = self \<or> (\<exists>j. m0 n = Some j \<and> IsLeader j)"
    and "n \<notin> declaredNames d \<Longrightarrow> m1 n = m0 n"
proof -
  show "mainAt m1 n = mainAt m0 n"
  proof (cases "n \<in> cmdKey ` set (frontCommands d m0)")
    case True
    then obtain c where c: "c \<in> set (frontCommands d m0)" "n = cmdKey c" by blast
    with rowStep_front [OF _ frontCommands_accepted(2) [OF c(1)]] assms(1) show ?thesis
      by (fastforce simp: mainAt_def)
  qed (use assms(2) in \<open>auto simp: mainAt_def\<close>)
  show "n = self \<or> (\<exists>j. m0 n = Some j \<and> IsLeader j)" if "m1 n = Some i" and "IsLeader i"
  proof (cases "n \<in> cmdKey ` set (frontCommands d m0)")
    case True
    then obtain c where c: "c \<in> set (frontCommands d m0)" "n = cmdKey c" by blast
    with rowStep_front [OF _ frontCommands_accepted(2) [OF c(1)]] assms(1) that show ?thesis by fastforce
  qed (use assms(2) that in auto)
  show "n \<notin> declaredNames d \<Longrightarrow> m1 n = m0 n"
    using assms(2) frontCommands_accepted(3) by (metis imageE)
qed

lemma front_key:
  assumes "wellFormed d" and "x \<in> set (frontCommands d m)"
  shows "c \<in> set (tCoordinators d) \<Longrightarrow> cmdKey x = csName c \<Longrightarrow>
      \<not> coordinatorRegistered m c \<or> moved m (csName c) (csBoltServer c)"
    and "i \<in> set (tDataInstances d) \<Longrightarrow> cmdKey x = dsName i \<Longrightarrow>
      m (dsName i) = None \<or> moved m (dsName i) (dsBoltServer i)"
proof -
  have cs: "inj_on csName (set (tCoordinators d))" and ds: "inj_on dsName (set (tDataInstances d))"
    using assms(1) by (auto simp: wellFormed_def distinct_map)
  have ne: "dsName i \<noteq> csName c" "csName c \<noteq> dsName i" if "i \<in> set (tDataInstances d)" for c i
    using wellFormed_data [OF assms(1), of i "csName c"] that by (auto simp: eq_commute)
  show "\<not> coordinatorRegistered m c \<or> moved m (csName c) (csBoltServer c)"
    if c: "c \<in> set (tCoordinators d)" "cmdKey x = csName c"
    using frontCommands_cases [OF assms(2)] c by (auto simp: ne dest: inj_onD [OF cs])
  show "m (dsName i) = None \<or> moved m (dsName i) (dsBoltServer i)"
    if i: "i \<in> set (tDataInstances d)" "cmdKey x = dsName i"
    using frontCommands_cases [OF assms(2)] i by (auto simp: ne dest: inj_onD [OF ds])
qed

lemma front_coordinator:
  assumes row: "\<forall>c \<in> set (frontCommands d m0). rowStep self c (m0 (cmdKey c)) = Some (m1 (cmdKey c))"
    and rest: "\<forall>n. n \<notin> cmdKey ` set (frontCommands d m0) \<longrightarrow> m1 n = m0 n"
    and "wellFormed d" and c: "c \<in> set (tCoordinators d)"
  shows "\<exists>r. m1 (csName c) = Some r \<and> iBoltServer r = csBoltServer c"
proof -
  consider "\<not> coordinatorRegistered m0 c" | "moved m0 (csName c) (csBoltServer c)"
    | "coordinatorRegistered m0 c" "\<not> moved m0 (csName c) (csBoltServer c)" by blast
  then show ?thesis
  proof cases
    case 1
    with c have "AddCoordinator c \<in> set (frontCommands d m0)" by (simp add: frontCommands_def section_sets)
    from bspec [OF row this, symmetric] show ?thesis by (auto split: option.splits if_splits)
  next
    case 2
    with c have "UpdateCoordinatorBoltServer c \<in> set (frontCommands d m0)"
      by (simp add: frontCommands_def boltServerUpdates_eq)
    from bspec [OF row this, symmetric] show ?thesis by (auto split: option.splits if_splits)
  next
    case 3
    with front_key(1) [OF assms(3) _ c] have "csName c \<notin> cmdKey ` set (frontCommands d m0)" by (metis imageE)
    with rest 3 show ?thesis by (auto simp: coordinatorRegistered_def moved_def split: option.splits)
  qed
qed

lemma front_data:
  assumes row: "\<forall>c \<in> set (frontCommands d m0). rowStep self c (m0 (cmdKey c)) = Some (m1 (cmdKey c))"
    and rest: "\<forall>n. n \<notin> cmdKey ` set (frontCommands d m0) \<longrightarrow> m1 n = m0 n"
    and "wellFormed d" and i: "i \<in> set (tDataInstances d)"
  shows "\<exists>r. m1 (dsName i) = Some r \<and> (iBoltServer r = dsBoltServer i \<or> iBoltServer r = [])"
proof -
  consider "m0 (dsName i) = None" | "moved m0 (dsName i) (dsBoltServer i)"
    | "m0 (dsName i) \<noteq> None" "\<not> moved m0 (dsName i) (dsBoltServer i)" by blast
  then show ?thesis
  proof cases
    case 1
    with i have "RegisterInstance i \<in> set (frontCommands d m0)" by (simp add: frontCommands_def section_sets)
    from bspec [OF row this, symmetric] 1 show ?thesis by auto
  next
    case 2
    with i have "UpdateInstanceBoltServer i \<in> set (frontCommands d m0)"
      by (simp add: frontCommands_def boltServerUpdates_eq)
    from bspec [OF row this, symmetric] show ?thesis by (cases "m0 (dsName i)") auto
  next
    case 3
    with front_key(2) [OF assms(3) _ i] have "dsName i \<notin> cmdKey ` set (frontCommands d m0)" by (metis imageE)
    with rest 3 show ?thesis by (auto simp: moved_def split: option.splits)
  qed
qed

lemma stage_front:
  assumes "wellFormed d" and "healthy address self s"
  shows "\<exists>s1. runCommands (fakeClient address) (frontCommands d (index (viewOf self (fInstances s)))) s = (None, s1)
    \<and> accepting address self s1 \<and> frontDone d self (index (fInstances s)) (index (fInstances s1))"
proof -
  let ?m0 = "index (fInstances s)"
  have acc: "accepting address self s" using assms(2) by (simp add: healthy_def)
  then have "hasPrefix self coordinatorPrefix" by (auto simp: accepting_def intro: self_prefix)
  from frontCommands_view [OF assms(1) this]
  have view: "frontCommands d (index (viewOf self (fInstances s))) = frontCommands d ?m0" .
  from runCommands_rows [OF acc frontCommands_distinct [OF assms(1), of ?m0]] frontCommands_accepted(1)
  obtain s1 where s1: "runCommands (fakeClient address) (frontCommands d ?m0) s = (None, s1)"
    "accepting address self s1"
    and row: "\<forall>c \<in> set (frontCommands d ?m0). rowStep self c (?m0 (cmdKey c)) = Some (index (fInstances s1) (cmdKey c))"
    and rest: "\<forall>n. n \<notin> cmdKey ` set (frontCommands d ?m0) \<longrightarrow> index (fInstances s1) n = ?m0 n" by auto
  have "n = self" if "?m0 n = Some i" and "IsLeader i" for n i
    using that assms(2) instance_view.build_Some by (fastforce simp: healthy_def)
  with front_coordinator [OF row rest assms(1)] front_data [OF row rest assms(1)]
    front_pointwise [OF row rest]
  have "frontDone d self ?m0 (index (fInstances s1))" unfolding frontDone_def by blast
  with s1 view show ?thesis by auto
qed

section \<open>Stages two and three: the MAIN moves\<close>

text \<open>The rows stay, with their addresses; none becomes a leader.\<close>

definition rowKept :: "Instance option \<Rightarrow> Instance option \<Rightarrow> bool" where
  "rowKept row row' \<longleftrightarrow> (case row of None \<Rightarrow> row' = None
     | Some r \<Rightarrow> \<exists>r'. row' = Some r' \<and> iBoltServer r' = iBoltServer r \<and> (IsLeader r' \<longrightarrow> IsLeader r))"

definition rowsKept :: "(string \<Rightarrow> Instance option) \<Rightarrow> (string \<Rightarrow> Instance option) \<Rightarrow> bool" where
  "rowsKept m m' \<longleftrightarrow> (\<forall>n. rowKept (m n) (m' n))"

lemma rowKept_trans: "rowKept a b \<Longrightarrow> rowKept b c \<Longrightarrow> rowKept a c"
  by (cases a; cases b) (auto simp: rowKept_def)

lemma rowsKept_refl [simp]: "rowsKept m m"
  by (simp add: rowsKept_def rowKept_def split: option.splits)

lemma rowsKept_trans: "rowsKept m m' \<Longrightarrow> rowsKept m' m'' \<Longrightarrow> rowsKept m m''"
  unfolding rowsKept_def by (blast intro: rowKept_trans)

lemma rowsKept_role:
  "m n = Some r \<Longrightarrow> \<not> IsLeader (r\<lparr>iRole := role\<rparr>) \<Longrightarrow> rowsKept m (m(n := Some (r\<lparr>iRole := role\<rparr>)))"
  by (simp add: rowsKept_def rowKept_def split: option.splits)

lemma rowsKept_None: "rowsKept m m' \<Longrightarrow> m' n = None \<longleftrightarrow> m n = None"
  unfolding rowsKept_def by (cases "m n") (auto simp: rowKept_def dest!: spec [of _ n])

lemma rowsKept_Some:
  "rowsKept m m' \<Longrightarrow> m n = Some r \<Longrightarrow>
   \<exists>r'. m' n = Some r' \<and> iBoltServer r' = iBoltServer r \<and> (IsLeader r' \<longrightarrow> IsLeader r)"
  unfolding rowsKept_def by (auto simp: rowKept_def dest!: spec [of _ n])

text \<open>Where the MAIN is after the move.\<close>

definition mainSettled :: "Topology \<Rightarrow> string \<Rightarrow> bool \<Rightarrow> (string \<Rightarrow> Instance option) \<Rightarrow> bool" where
  "mainSettled d leaving handover m \<longleftrightarrow>
     (\<forall>n. mainAt m n \<longrightarrow> \<not> hasPrefix n coordinatorPrefix \<and> (retiringNames d n \<longrightarrow> n = leaving \<and> \<not> handover))
     \<and> (tDataInstances d = [] \<or> (\<exists>n. mainAt m n))"

lemma mainAt_index:
  "distinct (map iName is) \<Longrightarrow> mainAt (index is) n \<longleftrightarrow> (\<exists>i \<in> set is. iName i = n \<and> IsMain i)"
  by (auto simp: mainAt_def instance_view.build_Some_iff)

lemma mainAt_upd: "mainAt (m(n := Some r)) k \<longleftrightarrow> (if k = n then IsMain r else mainAt m k)"
  by (simp add: mainAt_def)

lemma stage_promote:
  assumes "accepting address self s" and "\<And>n. \<not> mainAt (index (fInstances s)) n"
    and "index (fInstances s) n \<noteq> None"
  shows "\<exists>s'. cmdRun (fakeClient address) (SetInstanceToMain (n # ns) restore) s = (None, s')
    \<and> accepting address self s' \<and> rowsKept (index (fInstances s)) (index (fInstances s'))
    \<and> (\<forall>k. mainAt (index (fInstances s')) k \<longleftrightarrow> k = n)"
proof -
  from assms(3) obtain i where i: "index (fInstances s) n = Some i" by auto
  from promote_row [OF assms(1,2) i, of ns restore] obtain s' where s':
    "cmdRun (fakeClient address) (SetInstanceToMain (n # ns) restore) s = (None, s')" "accepting address self s'"
    "index (fInstances s') = (index (fInstances s))(n := Some (i\<lparr>iRole := RoleMain\<rparr>))"
    by (auto simp: rowDone_def)
  then show ?thesis
    using rowsKept_role [of "index (fInstances s)" n i RoleMain] assms(2) i by (auto simp: mainAt_upd)
qed

lemma stage_demote:
  assumes "accepting address self s" and "\<And>k. mainAt (index (fInstances s)) k \<longleftrightarrow> k = n"
  shows "\<exists>s'. cmdRun (fakeClient address) (DemoteInstance n) s = (None, s')
    \<and> accepting address self s' \<and> rowsKept (index (fInstances s)) (index (fInstances s'))
    \<and> (\<forall>k. \<not> mainAt (index (fInstances s')) k)"
proof -
  from assms(2) [of n] obtain i where i: "index (fInstances s) n = Some i" "IsMain i" by (auto simp: mainAt_def)
  then have "rowStep self (DemoteInstance n) (index (fInstances s) (cmdKey (DemoteInstance n)))
      = Some (Some (i\<lparr>iRole := RoleReplica\<rparr>))" by simp
  from cmdRun_row [OF assms(1) this] obtain s' where s':
    "cmdRun (fakeClient address) (DemoteInstance n) s = (None, s')" "accepting address self s'"
    "index (fInstances s') = (index (fInstances s))(n := Some (i\<lparr>iRole := RoleReplica\<rparr>))"
    by (auto simp: rowDone_def)
  have "\<not> IsLeader (i\<lparr>iRole := RoleReplica\<rparr>)" by (simp add: IsLeader_def)
  with s' show ?thesis
    using rowsKept_role [of "index (fInstances s)" n i RoleReplica] assms(2) i by (auto simp: mainAt_upd)
qed

lemma declared_not_retiring:
  assumes "wellFormed d" and "n \<in> dsName ` set (tDataInstances d)"
  shows "\<not> retiringNames d n" and "\<not> hasPrefix n coordinatorPrefix"
  using assms by (auto simp: wellFormed_def retiringNames_def)

text \<open>The facts about the MAIN that the middle of a pass relies on.\<close>

definition midPass :: "Topology \<Rightarrow> Instance list \<Rightarrow> (string \<Rightarrow> Instance option) \<Rightarrow> bool" where
  "midPass d is m \<longleftrightarrow>
     (\<forall>n. mainAt m n \<longleftrightarrow> (\<exists>i \<in> set is. iName i = n \<and> IsMain i))
     \<and> (\<forall>n \<in> dsName ` set (tDataInstances d). m n \<noteq> None)"

lemma healthy_mains:
  assumes "healthy address self s" and "midPass d (fInstances s) m" and "mainAt m n" and "mainAt m k"
  shows "n = k" and "\<not> hasPrefix n coordinatorPrefix"
  using assms by (auto simp: healthy_def midPass_def oneMain_def)

lemma mains_leaving:
  assumes "wellFormed d" and "healthy address self s" and "midPass d (fInstances s) m"
    and "\<not> staysMain d (fInstances s)" and "mainAt m n"
  shows "n = leavingMain d (fInstances s)"
proof -
  from assms(3,5) obtain i where i: "i \<in> set (fInstances s)" "iName i = n" "IsMain i"
    by (auto simp: midPass_def)
  with assms(4) have "retiringNames d (iName i)" by (auto simp: staysMain_def)
  with leavingMain_iff [OF _ wellFormed_named [OF assms(1)] i(1,3)] assms(2) i(2) show ?thesis
    by (auto simp: healthy_def)
qed

lemma leaving_main:
  assumes "midPass d is m" and "leavingMain d is \<noteq> []"
  shows "mainAt m (leavingMain d is)"
  using leavingMain_SomeD [OF assms(2)] assms(1) unfolding midPass_def by blast

lemma stays_no_leaving:
  assumes "healthy address self s" and "midPass d (fInstances s) m" and "staysMain d (fInstances s)"
  shows "leavingMain d (fInstances s) = []"
    and "mainAt m n \<Longrightarrow> \<not> retiringNames d n"
    and "\<exists>n. mainAt m n"
proof -
  from assms(3) obtain i where i: "i \<in> set (fInstances s)" "IsMain i" "\<not> retiringNames d (iName i)"
    by (auto simp: staysMain_def)
  then have m: "mainAt m (iName i)" using assms(2) by (auto simp: midPass_def)
  then show "\<exists>n. mainAt m n" by blast
  show ret: "\<not> retiringNames d n" if "mainAt m n" for n
    using healthy_mains(1) [OF assms(1,2) that m] i(3) by simp
  show "leavingMain d (fInstances s) = []"
    using leavingMain_SomeD [of d "fInstances s"] leaving_main [OF assms(2)] ret by metis
qed

lemma stage_handover:
  assumes "wellFormed d" and "healthy address self s" and "accepting address self s1"
    and "midPass d (fInstances s) (index (fInstances s1))" and "\<not> staysMain d (fInstances s)"
    and "leavingMain d (fInstances s) = leaving" and "leaving \<noteq> []"
    and "n \<in> dsName ` set (tDataInstances d)"
  shows "\<exists>s3. runCommands (fakeClient address) [DemoteInstance leaving, SetInstanceToMain (n # ns) restore] s1
      = (None, s3) \<and> accepting address self s3 \<and> rowsKept (index (fInstances s1)) (index (fInstances s3))
    \<and> mainSettled d leaving True (index (fInstances s3))"
proof -
  have "mainAt (index (fInstances s1)) k \<longleftrightarrow> k = leaving" for k
    using mains_leaving [OF assms(1,2,4,5), of k] leaving_main [OF assms(4)] assms(6,7) by blast
  from stage_demote [OF assms(3) this] obtain s2 where s2:
    "cmdRun (fakeClient address) (DemoteInstance leaving) s1 = (None, s2)" "accepting address self s2"
    "rowsKept (index (fInstances s1)) (index (fInstances s2))" "\<And>k. \<not> mainAt (index (fInstances s2)) k" by blast
  have "index (fInstances s2) n \<noteq> None"
    using assms(4,8) rowsKept_None [OF s2(3)] by (auto simp: midPass_def)
  from stage_promote [OF s2(2,4) this, of ns restore] obtain s3 where s3:
    "cmdRun (fakeClient address) (SetInstanceToMain (n # ns) restore) s2 = (None, s3)" "accepting address self s3"
    "rowsKept (index (fInstances s2)) (index (fInstances s3))"
    "\<And>k. mainAt (index (fInstances s3)) k \<longleftrightarrow> k = n" by blast
  have "mainSettled d leaving True (index (fInstances s3))"
    using declared_not_retiring [OF assms(1,8)] by (auto simp: mainSettled_def s3(4))
  then show ?thesis using s2 s3 rowsKept_trans by (auto simp del: cmdRun.simps)
qed

lemma stage_bootstrap:
  assumes "wellFormed d" and "healthy address self s" and "accepting address self s1"
    and "midPass d (fInstances s) (index (fInstances s1))" and "\<not> staysMain d (fInstances s)"
    and "leavingMain d (fInstances s) = []" and "n \<in> dsName ` set (tDataInstances d)"
  shows "\<exists>s3. runCommands (fakeClient address) [SetInstanceToMain [n] []] s1 = (None, s3)
    \<and> accepting address self s3 \<and> rowsKept (index (fInstances s1)) (index (fInstances s3))
    \<and> mainSettled d [] False (index (fInstances s3))"
proof -
  have none: "\<not> mainAt (index (fInstances s1)) k" for k
  proof
    assume k: "mainAt (index (fInstances s1)) k"
    then have "k = []" using mains_leaving [OF assms(1,2,4,5)] assms(6) by simp
    with k assms(4,5) have "retiringNames d []" by (auto simp: midPass_def staysMain_def)
    then show False using namedMembers_retiring [OF wellFormed_named [OF assms(1)]] by simp
  qed
  have "index (fInstances s1) n \<noteq> None" using assms(4,7) by (auto simp: midPass_def)
  from stage_promote [OF assms(3) none this, of "[]" "[]"] obtain s3 where s3:
    "cmdRun (fakeClient address) (SetInstanceToMain [n] []) s1 = (None, s3)" "accepting address self s3"
    "rowsKept (index (fInstances s1)) (index (fInstances s3))"
    "\<And>k. mainAt (index (fInstances s3)) k \<longleftrightarrow> k = n" by blast
  have "mainSettled d [] False (index (fInstances s3))"
    using declared_not_retiring [OF assms(1,7)] by (auto simp: mainSettled_def s3(4))
  with s3 show ?thesis by (auto simp del: cmdRun.simps)
qed

lemma stage_main:
  assumes "wellFormed d" and "healthy address self s" and "accepting address self s1"
    and "midPass d (fInstances s) (index (fInstances s1))"
  defines "V \<equiv> viewOf self (fInstances s)"
  shows "\<exists>s3. runCommands (fakeClient address)
      (planDemotions (handsOver d V lag) (leavingMain d V) @ promotions d V lag) s1 = (None, s3)
    \<and> accepting address self s3 \<and> rowsKept (index (fInstances s1)) (index (fInstances s3))
    \<and> mainSettled d (leavingMain d V) (handsOver d V lag) (index (fInstances s3))"
proof -
  have L: "leavingMain d V = leavingMain d (fInstances s)" by (simp add: V_def)
  consider (stays) "staysMain d (fInstances s)"
    | (handover) "\<not> staysMain d (fInstances s)" "handsOver d V lag"
    | (bootstrap) "\<not> staysMain d (fInstances s)" "\<not> handsOver d V lag" "leavingMain d V = []" "tDataInstances d \<noteq> []"
    | (waiting) "\<not> staysMain d (fInstances s)" "\<not> handsOver d V lag" "leavingMain d V \<noteq> [] \<or> tDataInstances d = []"
    by blast
  then show ?thesis
  proof cases
    case stays
    note st = stays_no_leaving [OF assms(2,4) stays]
    have "\<not> handsOver d V lag" using handsOver_leaving [of d V lag] st(1) L by auto
    moreover have "mainSettled d (leavingMain d V) False (index (fInstances s1))"
      using st healthy_mains(2) [OF assms(2,4)] unfolding mainSettled_def by blast
    ultimately show ?thesis using stays assms(3) by (simp add: V_def promotions_def planDemotions_def)
  next
    case handover
    then obtain n ns where n: "handoverTo d V lag = n # ns" by (cases "handoverTo d V lag") (auto simp: handsOver_def)
    have "n \<in> dsName ` set (tDataInstances d)" using handoverTo_declared [of d V lag] n by auto
    from stage_handover [OF assms(1-4) handover(1) _ _ this, of "leavingMain d V"]
      handsOver_leaving [OF handover(2)] handover n L
    show ?thesis by (simp add: planDemotions_def promotions_def V_def del: cmdRun.simps runCommands.simps)
  next
    case bootstrap
    obtain i where i: "i \<in> set (tDataInstances d)" "promotionTarget d (index V) = Some (dsName i)"
      using promotionTarget_Some [OF bootstrap(4)] by blast
    then have "dsName i \<in> dsName ` set (tDataInstances d)" by simp
    from stage_bootstrap [OF assms(1-4) bootstrap(1) _ this] bootstrap i(2) L show ?thesis
      by (simp add: planDemotions_def promotions_def V_def del: cmdRun.simps runCommands.simps)
  next
    case waiting
    have "mainSettled d (leavingMain d V) False (index (fInstances s1))"
      using mains_leaving [OF assms(1,2,4) waiting(1)] leaving_main [OF assms(4)] waiting(3) L
        healthy_mains(2) [OF assms(2,4)]
      unfolding mainSettled_def by metis
    with waiting assms(3) show ?thesis by (auto simp: V_def promotions_def planDemotions_def)
  qed
qed

section \<open>Stage four: unregistrations and removals\<close>

definition backCommands ::
  "Topology \<Rightarrow> (string \<Rightarrow> Instance option) \<Rightarrow> string \<Rightarrow> bool \<Rightarrow> string \<Rightarrow> Command list" where
  "backCommands d m leaving handover leader = planUnregisters d m leaving handover
     @ map RemoveCoordinator (filter (leaves m leader) (tRetiringCoordinators d))"

lemma backCommands_distinct:
  assumes "wellFormed d"
  shows "distinct (map cmdKey (backCommands d m leaving h leader))"
proof -
  have "distinct (map cmdKey (planUnregisters d m leaving h))"
    using assms by (simp add: planUnregisters_eq comp_def wellFormed_def)
  moreover have "distinct (map cmdKey (map RemoveCoordinator (filter (leaves m leader) (tRetiringCoordinators d))))"
    using assms by (simp add: comp_def wellFormed_def distinct_map_filter)
  moreover have "\<not> hasPrefix (cmdKey c) coordinatorPrefix" if "c \<in> set (planUnregisters d m leaving h)" for c
    using that assms by (auto simp: section_sets wellFormed_def)
  ultimately show ?thesis by (force simp: backCommands_def)
qed

lemma retiring_not_declared:
  assumes "wellFormed d"
  shows "c \<in> set (tRetiringCoordinators d) \<Longrightarrow> csName c \<notin> declaredNames d"
    and "retiringNames d n \<Longrightarrow> n \<notin> declaredNames d"
proof -
  show "csName c \<notin> declaredNames d" if "c \<in> set (tRetiringCoordinators d)"
    using assms that wellFormed_data [OF assms, of _ "csName c"]
    by (force simp: wellFormed_def declaredNames_def)
  show "n \<notin> declaredNames d" if "retiringNames d n"
    using assms that wellFormed_data [OF assms, of _ "csName _"]
    by (force simp: wellFormed_def declaredNames_def retiringNames_def)
qed

lemma backCommands_accepted:
  assumes "wellFormed d" and "selfName address = Inr self" and "frontDone d self (index is) m1"
    and "rowsKept m1 m3" and "mainSettled d leaving h m3"
    and "c \<in> set (backCommands d (index (viewOf self is)) leaving h self)"
  shows "rowStep self c (m3 (cmdKey c)) = Some None"
proof -
  from assms(6) consider
    (unreg) n where "c = UnregisterInstance n" "retiringNames d n" "index (viewOf self is) n \<noteq> None"
      "\<not> (n = leaving \<and> \<not> h)"
    | (remove) x where "c = RemoveCoordinator x" "x \<in> set (tRetiringCoordinators d)" "csName x \<noteq> self"
      "coordinatorRegistered (index is) x"
    by (auto simp: backCommands_def section_sets retiringNames_def leaves_def)
  then show ?thesis
  proof cases
    case unreg
    have "n \<noteq> self"
      using unreg(2) self_prefix [OF assms(2)] assms(1) by (auto simp: wellFormed_def retiringNames_def)
    with unreg(3) have "index is n \<noteq> None" by (simp add: index_view)
    with assms(3) retiring_not_declared(2) [OF assms(1) unreg(2)] have "m1 n \<noteq> None" by (simp add: frontDone_def)
    then obtain r where "m3 n = Some r" using rowsKept_None [OF assms(4), of n] by auto
    moreover have "\<not> mainAt m3 n" using assms(5) unreg(2,4) by (auto simp: mainSettled_def)
    ultimately show ?thesis using unreg(1) by (simp add: mainAt_def)
  next
    case remove
    from remove(4) obtain r where "index is (csName x) = Some r"
      by (auto simp: coordinatorRegistered_def split: option.splits)
    with assms(3) retiring_not_declared(1) [OF assms(1) remove(2)] have r: "m1 (csName x) = Some r"
      by (simp add: frontDone_def)
    with assms(3) remove(3) have "\<not> IsLeader r" by (auto simp: frontDone_def)
    with rowsKept_Some [OF assms(4) r] remove(1) show ?thesis by auto
  qed
qed

section \<open>A whole pass\<close>

lemma Plan_stages:
  assumes "healthy address self s"
  shows "Plan d (viewOf self (fInstances s)) lag = Some
    (let V = viewOf self (fInstances s); h = handsOver d V lag in
      frontCommands d (index V)
      @ (planDemotions h (leavingMain d V) @ promotions d V lag)
      @ backCommands d (index V) (leavingMain d V) h self
      @ (if self \<in> csName ` set (tRetiringCoordinators d) then [YieldLeadership self] else []))"
  by (simp add: Plan_eq Let_def frontCommands_def backCommands_def leaderName_self [OF assms])

definition passDone ::
  "Topology \<Rightarrow> string \<Rightarrow> string \<Rightarrow> bool \<Rightarrow> fakeMemgraph \<Rightarrow> fakeMemgraph \<Rightarrow> bool" where
  "passDone d self leaving h s s4 \<longleftrightarrow> (\<exists>m1 m3. frontDone d self (index (fInstances s)) m1 \<and> rowsKept m1 m3
     \<and> mainSettled d leaving h m3
     \<and> (\<forall>n. index (fInstances s4) n =
          (if n \<in> cmdKey ` set (backCommands d (index (viewOf self (fInstances s))) leaving h self)
           then None else m3 n)))"

lemma pass_runs:
  assumes "wellFormed d" and "healthy address self s"
  defines "V \<equiv> viewOf self (fInstances s)"
  shows "\<exists>s4. runCommands (fakeClient address) (frontCommands d (index V)
      @ (planDemotions (handsOver d V lag) (leavingMain d V) @ promotions d V lag)
      @ backCommands d (index V) (leavingMain d V) (handsOver d V lag) self) s = (None, s4)
    \<and> accepting address self s4 \<and> passDone d self (leavingMain d V) (handsOver d V lag) s s4"
proof -
  have dist: "distinct (map iName (fInstances s))" and self: "selfName address = Inr self"
    using assms(2) by (simp_all add: healthy_def accepting_def)
  from stage_front [OF assms(1,2)] obtain s1 where s1:
    "runCommands (fakeClient address) (frontCommands d (index V)) s = (None, s1)"
    "accepting address self s1" "frontDone d self (index (fInstances s)) (index (fInstances s1))"
    by (auto simp: V_def)
  then have "midPass d (fInstances s) (index (fInstances s1))"
    by (auto simp: midPass_def frontDone_def mainAt_index [OF dist])
  from stage_main [OF assms(1,2) s1(2) this, of lag] obtain s3 where s3:
    "runCommands (fakeClient address) (planDemotions (handsOver d V lag) (leavingMain d V) @ promotions d V lag) s1 = (None, s3)"
    "accepting address self s3" "rowsKept (index (fInstances s1)) (index (fInstances s3))"
    "mainSettled d (leavingMain d V) (handsOver d V lag) (index (fInstances s3))" unfolding V_def by blast
  let ?behind = "backCommands d (index V) (leavingMain d V) (handsOver d V lag) self"
  have ok: "rowStep self c (index (fInstances s3) (cmdKey c)) = Some None" if "c \<in> set ?behind" for c
    using backCommands_accepted [OF assms(1) self s1(3) s3(3,4)] that by (simp add: V_def)
  from runCommands_rows [OF s3(2) backCommands_distinct [OF assms(1)], of "index V" "leavingMain d V"
      "handsOver d V lag" self] ok
  obtain s4 where s4: "runCommands (fakeClient address) ?behind s3 = (None, s4)" "accepting address self s4"
    "\<forall>c \<in> set ?behind. rowStep self c (index (fInstances s3) (cmdKey c)) = Some (index (fInstances s4) (cmdKey c))"
    "\<forall>n. n \<notin> cmdKey ` set ?behind \<longrightarrow> index (fInstances s4) n = index (fInstances s3) n" by auto
  have "index (fInstances s4) n = (if n \<in> cmdKey ` set ?behind then None else index (fInstances s3) n)" for n
    using s4(3,4) ok by auto
  with s1(3) s3(3,4) have "passDone d self (leavingMain d V) (handsOver d V lag) s s4"
    unfolding passDone_def V_def by blast
  with s4(1,2) show ?thesis by (simp only: runCommands_seq [OF s1(1)] runCommands_seq [OF s3(1)]) blast
qed

lemma declared_coordinator_row:
  assumes "wellFormed d" and "passDone d self leaving h s s4" and "c \<in> set (tCoordinators d)"
  shows "\<exists>r. index (fInstances s4) (csName c) = Some r \<and> iBoltServer r = csBoltServer c"
proof -
  from assms(2) obtain m1 m3 where m: "frontDone d self (index (fInstances s)) m1" "rowsKept m1 m3"
    "\<forall>n. index (fInstances s4) n =
       (if n \<in> cmdKey ` set (backCommands d (index (viewOf self (fInstances s))) leaving h self) then None else m3 n)"
    by (auto simp: passDone_def)
  have "csName c \<in> declaredNames d" using assms(3) by (auto simp: declaredNames_def)
  then have "csName c \<notin> cmdKey ` set (backCommands d m' leaving h self)" for m'
    using retiring_not_declared [OF assms(1)]
    by (auto simp: backCommands_def section_sets retiringNames_def)
  moreover obtain r where "m1 (csName c) = Some r" "iBoltServer r = csBoltServer c"
    using m(1) assms(3) by (auto simp: frontDone_def)
  ultimately show ?thesis using m(3) rowsKept_Some [OF m(2)] by fastforce
qed

text \<open>
  C2: a healthy cluster refuses no planned command: whatever the topology asks for and whatever the
  lag says, running the plan made from the leader's own view against the cluster ends without an
  error, every command in turn finding the state it needs.
\<close>

theorem planned_commands_accepted:
  assumes "wellFormed declared" and "healthy address self s"
    and "fakeShowInstances address s = Inr observed" and "Plan declared observed lag = Some commands"
  shows "\<exists>s'. runCommands (fakeClient address) commands s = (None, s')"
proof -
  have view: "observed = viewOf self (fInstances s)"
    using assms(2,3) fakeShowInstances_view [of address self s] by (simp add: healthy_def)
  from pass_runs [OF assms(1,2), of lag] obtain s4 where s4:
    "runCommands (fakeClient address) (frontCommands declared (index observed)
      @ (planDemotions (handsOver declared observed lag) (leavingMain declared observed) @ promotions declared observed lag)
      @ backCommands declared (index observed) (leavingMain declared observed) (handsOver declared observed lag) self) s
      = (None, s4)"
    "accepting address self s4"
    "passDone declared self (leavingMain declared observed) (handsOver declared observed lag) s s4"
    unfolding view by blast
  have cmds: "commands = (frontCommands declared (index observed)
      @ (planDemotions (handsOver declared observed lag) (leavingMain declared observed) @ promotions declared observed lag)
      @ backCommands declared (index observed) (leavingMain declared observed) (handsOver declared observed lag) self)
      @ (if self \<in> csName ` set (tRetiringCoordinators declared) then [YieldLeadership self] else [])"
    using assms(4) Plan_stages [OF assms(2), of declared lag] by (simp add: view Let_def)
  have "\<exists>s'. cmdRun (fakeClient address) (YieldLeadership self) s4 = (None, s')"
    if "self \<in> csName ` set (tRetiringCoordinators declared)"
  proof -
    obtain c where c: "c \<in> set (tCoordinators declared)"
      using assms(1) list.set_sel(1) unfolding wellFormed_def by blast
    from declared_coordinator_row [OF assms(1) s4(3) c] instance_view.build_Some
    obtain r where r: "r \<in> set (fInstances s4)" "iName r = csName c" by blast
    have "csName c \<noteq> self"
      using that c retiring_not_declared(1) [OF assms(1)] unfolding declaredNames_def
      by (metis UnI1 imageE image_eqI)
    with r have "successorOf self r" by (simp add: successorOf_def)
    from yield_accepted [OF s4(2) r(1) this] show ?thesis .
  qed
  then show ?thesis
    unfolding cmds runCommands_seq [OF s4(1)] by (auto simp del: cmdRun.simps)
qed

section \<open>One pass is enough\<close>

lemma index_view_Some: "index is n = Some r \<Longrightarrow> index (viewOf self is) n = Some r"
  by (cases "n = self") (simp_all add: index_view index_view_self)

text \<open>What a finished pass leaves, when nobody on the way out stays leader and no handover waits.\<close>

definition passResult ::
  "Topology \<Rightarrow> string \<Rightarrow> string \<Rightarrow> bool \<Rightarrow> Instance list \<Rightarrow> (string \<Rightarrow> Instance option) \<Rightarrow> (string \<Rightarrow> Instance option)
    \<Rightarrow> (string \<Rightarrow> Instance option) \<Rightarrow> bool" where
  "passResult d self leaving h is m1 m3 m4 \<longleftrightarrow>
     frontDone d self (index is) m1 \<and> rowsKept m1 m3 \<and> mainSettled d leaving h m3
     \<and> (\<forall>n. m4 n = (if n \<in> cmdKey ` set (backCommands d (index (viewOf self is)) leaving h self)
          then None else m3 n))
     \<and> self \<notin> csName ` set (tRetiringCoordinators d) \<and> (leaving \<noteq> [] \<longrightarrow> h)"

lemma back_keys:
  "n \<in> cmdKey ` set (backCommands d m leaving h leader) \<longleftrightarrow>
     (retiringNames d n \<and> m n \<noteq> None \<and> \<not> (n = leaving \<and> \<not> h))
     \<or> (\<exists>c \<in> set (tRetiringCoordinators d). n = csName c \<and> leaves m leader c)"
  unfolding backCommands_def set_append image_Un section_sets set_map set_filter image_image
    cmdKey.simps retiringNames_def by blast

lemma retiring_data_gone:
  assumes "wellFormed d" and "hasPrefix self coordinatorPrefix" and "passResult d self leaving h is m1 m3 m4"
    and "retiringNames d n"
  shows "m4 n = None"
proof (rule ccontr)
  assume keep: "m4 n \<noteq> None"
  have "n \<noteq> []" using namedMembers_retiring [OF wellFormed_named [OF assms(1)]] assms(4) by blast
  then have stuck: "\<not> (n = leaving \<and> \<not> h)" using assms(3) by (auto simp: passResult_def)
  from keep assms(3) have "n \<notin> cmdKey ` set (backCommands d (index (viewOf self is)) leaving h self)"
    and m3: "m3 n \<noteq> None" by (auto simp: passResult_def split: if_splits)
  with assms(4) stuck have "index (viewOf self is) n = None" by (simp add: back_keys)
  moreover have "n \<noteq> self" using assms(1,2,4) by (auto simp: wellFormed_def retiringNames_def)
  ultimately have "index is n = None" by (simp add: index_view)
  with assms(3) retiring_not_declared(2) [OF assms(1,4)] have "m1 n = None"
    by (simp add: passResult_def frontDone_def)
  with m3 rowsKept_None [of m1 m3 n] assms(3) show False by (simp add: passResult_def)
qed

lemma retiring_coordinator_gone:
  assumes "wellFormed d" and "passResult d self leaving h is m1 m3 m4" and "c \<in> set (tRetiringCoordinators d)"
  shows "\<not> coordinatorRegistered m4 c"
proof
  assume "coordinatorRegistered m4 c"
  then obtain r where r: "m4 (csName c) = Some r" "iBoltServer r \<noteq> []"
    by (auto simp: coordinatorRegistered_def split: option.splits)
  then have no: "csName c \<notin> cmdKey ` set (backCommands d (index (viewOf self is)) leaving h self)"
    and m3: "m3 (csName c) = Some r" using assms(2) by (auto simp: passResult_def split: if_splits)
  have "csName c \<noteq> self" using assms(2,3) by (auto simp: passResult_def)
  with no assms(3) have unreg: "\<not> coordinatorRegistered (index is) c" by (auto simp: back_keys leaves_def)
  have kept: "rowsKept m1 m3" using assms(2) by (simp add: passResult_def)
  obtain r1 where r1: "m1 (csName c) = Some r1" using rowsKept_None [OF kept, of "csName c"] m3 by auto
  with rowsKept_Some [OF kept r1] m3 r(2) have "iBoltServer r1 \<noteq> []" by auto
  moreover have "index is (csName c) = Some r1"
    using r1 assms(2) retiring_not_declared(1) [OF assms(1,3)] by (simp add: passResult_def frontDone_def)
  ultimately show False using unreg by (simp add: coordinatorRegistered_def)
qed

lemma main_stays:
  assumes "wellFormed d" and "passResult d self leaving h is m1 m3 m4" and "tDataInstances d \<noteq> []"
  shows "\<exists>n. mainAt m4 n"
proof -
  from assms(2,3) obtain n where n: "mainAt m3 n" "\<not> hasPrefix n coordinatorPrefix"
    "retiringNames d n \<Longrightarrow> n = leaving \<and> \<not> h" by (auto simp: passResult_def mainSettled_def)
  have "\<not> retiringNames d n"
  proof
    assume r: "retiringNames d n"
    then have "n \<noteq> []" using namedMembers_retiring [OF wellFormed_named [OF assms(1)]] by blast
    with n(3) [OF r] assms(2) show False by (auto simp: passResult_def)
  qed
  with n(2) have "n \<notin> cmdKey ` set (backCommands d (index (viewOf self is)) leaving h self)"
    by (auto simp: back_keys)
  with n(1) assms(2) show ?thesis unfolding mainAt_def by (auto simp: passResult_def)
qed

lemma declared_rows:
  assumes "wellFormed d" and "passResult d self leaving h is m1 m3 m4" and "n \<in> declaredNames d"
    and "m1 n = Some r"
  shows "\<exists>r'. m4 n = Some r' \<and> iBoltServer r' = iBoltServer r"
proof -
  have "n \<notin> cmdKey ` set (backCommands d (index (viewOf self is)) leaving h self)"
    using assms(3) retiring_not_declared [OF assms(1)] by (auto simp: back_keys)
  with assms(2) have "m4 n = m3 n" by (simp add: passResult_def)
  with rowsKept_Some [of m1 m3 n r] assms(2,4) show ?thesis by (auto simp: passResult_def)
qed

lemma leaderName_cases: "(\<And>i. i \<in> set ob \<Longrightarrow> IsLeader i \<Longrightarrow> iName i = self) \<Longrightarrow> leaderName ob = [] \<or> leaderName ob = self"
  using leaderName_row [of ob] by metis

lemma pass_leader:
  assumes "passResult d self leaving h (fInstances s) m1 m3 (index (fInstances s4))"
    and "distinct (map iName (fInstances s4))"
  shows "leaderName (viewOf self (fInstances s4)) = [] \<or> leaderName (viewOf self (fInstances s4)) = self"
proof (rule leaderName_cases)
  fix i
  assume i: "i \<in> set (viewOf self (fInstances s4))" "IsLeader i"
  show "iName i = self"
  proof (cases "i \<in> set (fInstances s4)")
    case True
    from instance_view.build_row [OF assms(2) True] assms(1) have m3: "m3 (iName i) = Some i"
      by (auto simp: passResult_def split: if_splits)
    have kept: "rowsKept m1 m3" using assms(1) by (simp add: passResult_def)
    obtain r where r: "m1 (iName i) = Some r" using rowsKept_None [OF kept, of "iName i"] m3 by auto
    with rowsKept_Some [OF kept r] m3 i(2) have "IsLeader r" by auto
    with r assms(1) show ?thesis by (auto simp: passResult_def frontDone_def)
  next
    case False
    with i(1) show ?thesis by (auto simp: viewOf_def split: if_splits)
  qed
qed

lemma pass_settles:
  assumes "wellFormed d" and "accepting address self s4"
    and pr: "passResult d self leaving h (fInstances s) m1 m3 (index (fInstances s4))"
  shows "settled d (viewOf self (fInstances s4)) lag"
    and "retiringNames d n \<Longrightarrow> index (viewOf self (fInstances s4)) n = None"
    and "c \<in> set (tRetiringCoordinators d) \<Longrightarrow> \<not> coordinatorRegistered (index (viewOf self (fInstances s4))) c"
proof -
  let ?V = "viewOf self (fInstances s4)"
  have dist: "distinct (map iName (fInstances s4))" and pre: "hasPrefix self coordinatorPrefix"
    using assms(2) by (auto simp: accepting_def intro: self_prefix)
  show gone: "index ?V n = None" if "retiringNames d n" for n
  proof -
    have "n \<noteq> self" using that assms(1) pre by (auto simp: wellFormed_def retiringNames_def)
    then show ?thesis using retiring_data_gone [OF assms(1) pre pr that] by (simp add: index_view)
  qed
  show gone_c: "\<not> coordinatorRegistered (index ?V) c" if "c \<in> set (tRetiringCoordinators d)" for c
    using retiring_coordinator_gone [OF assms(1) pr that] by simp
  have front: "frontDone d self (index (fInstances s)) m1" using pr by (simp add: passResult_def)
  have coords: "\<exists>r. index ?V (csName c) = Some r \<and> iBoltServer r = csBoltServer c \<and> iBoltServer r \<noteq> []"
    if c: "c \<in> set (tCoordinators d)" for c
  proof -
    obtain r where r: "m1 (csName c) = Some r" "iBoltServer r = csBoltServer c"
      using front c by (auto simp: frontDone_def)
    have "csName c \<in> declaredNames d" using c by (simp add: declaredNames_def)
    from declared_rows [OF assms(1) pr this r(1)] obtain r' where
      "index (fInstances s4) (csName c) = Some r'" "iBoltServer r' = iBoltServer r" by blast
    with index_view_Some [of "fInstances s4" "csName c" r'] r(2) c assms(1) show ?thesis
      by (simp add: wellFormed_def)
  qed
  have data: "\<exists>r. index ?V (dsName i) = Some r \<and> (iBoltServer r = dsBoltServer i \<or> iBoltServer r = [])"
    if i: "i \<in> set (tDataInstances d)" for i
  proof -
    obtain r where r: "m1 (dsName i) = Some r" "iBoltServer r = dsBoltServer i \<or> iBoltServer r = []"
      using front i by (auto simp: frontDone_def)
    have "dsName i \<in> declaredNames d" using i by (simp add: declaredNames_def)
    from declared_rows [OF assms(1) pr this r(1)] obtain r' where
      "index (fInstances s4) (dsName i) = Some r'" "iBoltServer r' = iBoltServer r" by blast
    with index_view_Some [of "fInstances s4" "dsName i" r'] r(2) show ?thesis by simp
  qed
  have main: "tDataInstances d = [] \<or> (\<exists>i \<in> set ?V. IsMain i)"
    using main_stays [OF assms(1) pr] viewOf_main [of _ self "fInstances s4"]
    by (auto simp: mainAt_index [OF dist])
  have "leavingMain d ?V = []"
    using leavingMain_SomeD [of d ?V] gone index_eq_None [of ?V] by (metis image_eqI)
  moreover have "csName c \<noteq> leaderName ?V" if "c \<in> set (tRetiringCoordinators d)" for c
    using pass_leader [OF pr dist] that pr csName_nonempty(1) [of c] unfolding passResult_def by (metis image_eqI)
  moreover have "index ?V (dsName i) = None" if "i \<in> set (tRetiringDataInstances d)" for i
    using gone [of "dsName i"] that by (simp add: retiringNames_def)
  ultimately show "settled d ?V lag"
    unfolding settled_def using coords data main gone_c by (intro conjI) simp_all
qed

text \<open>
  C1: one pass is enough. On a healthy cluster, when the plan yields no leadership and demotes
  whatever MAIN is on its way out, running it leaves a cluster whose next view plans no command at
  all, whatever the lag then says, and from which every member on its way out is gone.
\<close>

theorem one_pass_converges:
  assumes "wellFormed declared" and "healthy address self s"
    and "fakeShowInstances address s = Inr observed" and "Plan declared observed lag = Some commands"
    and "YieldLeadership self \<notin> set commands"
    and "\<forall>i \<in> set observed. IsMain i \<longrightarrow> retiringNames declared (iName i) \<longrightarrow> DemoteInstance (iName i) \<in> set commands"
  shows "\<exists>s' observed'. runCommands (fakeClient address) commands s = (None, s')
    \<and> fakeShowInstances address s' = Inr observed'
    \<and> (\<forall>lag'. Plan declared observed' lag' = Some []) \<and> Retired declared observed'"
proof -
  have view: "observed = viewOf self (fInstances s)"
    using assms(2,3) fakeShowInstances_view [of address self s] by (simp add: healthy_def)
  have noyield: "self \<notin> csName ` set (tRetiringCoordinators declared)"
    using assms(5) unfolding Plan_mem(9) [OF assms(4)] view leaderName_self [OF assms(2)] by simp
  let ?L = "leavingMain declared observed" and ?h = "handsOver declared observed lag"
  have nostuck: "?L \<noteq> [] \<longrightarrow> ?h"
    using leavingMain_SomeD [of declared observed] assms(6) unfolding Plan_mem(5) [OF assms(4)] by metis
  have cmds: "commands = frontCommands declared (index observed)
      @ (planDemotions ?h ?L @ promotions declared observed lag) @ backCommands declared (index observed) ?L ?h self"
    using assms(4) Plan_stages [OF assms(2), of declared lag] noyield by (simp add: view Let_def)
  from pass_runs [OF assms(1,2), of lag] obtain s4 where s4:
    "runCommands (fakeClient address) commands s = (None, s4)" "accepting address self s4"
    "passDone declared self ?L ?h s s4" unfolding cmds view by blast
  then obtain m1 m3 where "passResult declared self ?L ?h (fInstances s) m1 m3 (index (fInstances s4))"
    using noyield nostuck unfolding passDone_def passResult_def view by blast
  note settles = pass_settles [OF assms(1) s4(2) this]
  have "\<forall>lag'. Plan declared (viewOf self (fInstances s4)) lag' = Some []"
    using settles(1) Plan_settled_iff [OF wellFormed_named [OF assms(1)]] by blast
  moreover have "Retired declared (viewOf self (fInstances s4))"
    using settles(2,3) by (auto simp: Retired_def Let_def list_ex_iff retiringNames_def)
  ultimately show ?thesis using s4(1) fakeShowInstances_view [OF s4(2)] by blast
qed

definition exState :: fakeMemgraph where
  "exState = newFakeMemgraph\<lparr>fInstances := [exRow ''coordinator_1'' ''c1'' RoleLeader,
     exRow ''coordinator_2'' ''c2'' RoleFollower, exRow ''d0'' ''old'' RoleReplica, exRow ''d1'' ''d1b'' RoleMain]\<rparr>"

definition exAddress :: string where
  "exAddress = ''db-coordinator-1.db.ns.svc:7687''"

lemma exState_facts:
  "wellFormed exTopology" "healthy exAddress ''coordinator_1'' exState"
  "fakeShowInstances exAddress exState = Inr (fInstances exState)"
  "Plan exTopology (fInstances exState) exLag = Some [UpdateInstanceBoltServer (exData ''d0''), DemoteInstance ''d1'',
     SetInstanceToMain [''d0''] ''d1'', UnregisterInstance ''d1'', RemoveCoordinator (exCoordinator 2)]"
  by code_simp+

theorem planned_commands_accepted_witness:
  "\<exists>s'. runCommands (fakeClient exAddress) [UpdateInstanceBoltServer (exData ''d0''), DemoteInstance ''d1'',
     SetInstanceToMain [''d0''] ''d1'', UnregisterInstance ''d1'', RemoveCoordinator (exCoordinator 2)] exState = (None, s')"
  by (rule planned_commands_accepted [OF exState_facts])

theorem one_pass_converges_witness:
  "\<exists>s' observed'. runCommands (fakeClient exAddress) [UpdateInstanceBoltServer (exData ''d0''), DemoteInstance ''d1'',
     SetInstanceToMain [''d0''] ''d1'', UnregisterInstance ''d1'', RemoveCoordinator (exCoordinator 2)] exState = (None, s')
    \<and> fakeShowInstances exAddress s' = Inr observed'
    \<and> (\<forall>lag'. Plan exTopology observed' lag' = Some []) \<and> Retired exTopology observed'"
  by (rule one_pass_converges [OF exState_facts])
    (simp_all add: exState_def newFakeMemgraph_def exRow_def IsMain_def)

end
