(* ===== verification/Topology_Builder.thy ===== *)
theory Topology_Builder
  imports Normalize_Spec Registration
begin

text \<open>
  \<open>src/internal/resources/topology.go\<close>: the topology the planner drives the cluster toward, derived
  from the spec, the external addresses and the replica counts, with the names of members and pods and
  the parsers that invert them.

  \<open>make([]T, 0, n)\<close> panics for a negative \<open>n\<close>; the builders that allocate that way return an option.
  \<open>topologies_well_formed\<close> shows that what they build is what the registration theorems ask for.
\<close>

section \<open>Names\<close>

definition DeclaredCoordinators :: "MemgraphDBCluster \<Rightarrow> int32" where
  "DeclaredCoordinators cluster = nCoordinators (normalize (mcSpec cluster))"

definition DeclaredDataInstances :: "MemgraphDBCluster \<Rightarrow> int32" where
  "DeclaredDataInstances cluster = nDataInstances (normalize (mcSpec cluster))"

definition CoordinatorID :: "int32 \<Rightarrow> int32" where
  "CoordinatorID ordinal = ordinal"

definition CoordinatorInstanceName :: "int32 \<Rightarrow> string" where
  "CoordinatorInstanceName ordinal = coordinatorNameOf (CoordinatorID ordinal)"

definition instancePrefix :: string where
  "instancePrefix = ''instance_''"

definition DataInstanceName :: "int32 \<Rightarrow> string" where
  "DataInstanceName ordinal = instancePrefix @ itoa ordinal"

definition PodName :: "string \<Rightarrow> int32 \<Rightarrow> string" where
  "PodName statefulSet ordinal = statefulSet @ ''-'' @ itoa ordinal"

definition CoordinatorOrdinal :: "string \<Rightarrow> int32 option" where
  "CoordinatorOrdinal name = CoordinatorIDFromName name"

definition DataInstanceOrdinal :: "string \<Rightarrow> int32 option" where
  "DataInstanceOrdinal name = sscanf_d instancePrefix name"

interpretation coordinator_instances: name_codec is_int32 CoordinatorInstanceName CoordinatorOrdinal
  by unfold_locales
    (simp add: CoordinatorInstanceName_def CoordinatorOrdinal_def CoordinatorID_def coordinator_names.decode_encode)

interpretation data_instances: name_codec is_int32 DataInstanceName DataInstanceOrdinal
  by unfold_locales (simp add: DataInstanceName_def DataInstanceOrdinal_def sscanf_d_itoa)

section \<open>Addresses\<close>

definition hostPort :: "string \<Rightarrow> int32 \<Rightarrow> string" where
  "hostPort host port = host @ '':'' @ itoa port"

definition podFQDNSuffix :: "MemgraphDBCluster \<Rightarrow> string \<Rightarrow> normalizedSpec \<Rightarrow> string" where
  "podFQDNSuffix cluster serviceName spec =
     serviceName @ ''.'' @ mcNamespace cluster @ ''.svc.'' @ nClusterDomain spec"

definition podFQDN :: "MemgraphDBCluster \<Rightarrow> string \<Rightarrow> normalizedSpec \<Rightarrow> int32 \<Rightarrow> string" where
  "podFQDN cluster serviceName spec ordinal =
     serviceName @ ''-'' @ itoa ordinal @ ''.'' @ podFQDNSuffix cluster serviceName spec"

definition announcedBolt :: "string \<Rightarrow> string \<Rightarrow> string" where
  "announcedBolt fqdn externalBolt = (if externalBolt \<noteq> [] then externalBolt else hostPort fqdn BoltPort)"

text \<open>The addresses every exposed member is announced at; an unknown one reads as the empty string.\<close>

record ExternalAddresses =
  exCoordinatorsAddr :: string
  exDataAddr :: "int32 \<Rightarrow> string option"

definition dataAddress :: "ExternalAddresses \<Rightarrow> int32 \<Rightarrow> string" where
  "dataAddress external ordinal = (case exDataAddr external ordinal of Some a \<Rightarrow> a | None \<Rightarrow> [])"

section \<open>Members\<close>

definition coordinator :: "MemgraphDBCluster \<Rightarrow> normalizedSpec \<Rightarrow> int32 \<Rightarrow> string \<Rightarrow> CoordinatorSpec" where
  "coordinator cluster spec ordinal externalBolt =
     (let fqdn = podFQDN cluster (CoordinatorName cluster) spec ordinal in
      \<lparr>csID = CoordinatorID ordinal, csBoltServer = announcedBolt fqdn externalBolt,
       csCoordinatorServer = hostPort fqdn CoordinatorPort, csManagementServer = hostPort fqdn ManagementPort\<rparr>)"

definition dataInstance :: "MemgraphDBCluster \<Rightarrow> normalizedSpec \<Rightarrow> int32 \<Rightarrow> string \<Rightarrow> DataInstanceSpec" where
  "dataInstance cluster spec ordinal externalBolt =
     (let fqdn = podFQDN cluster (DataName cluster) spec ordinal in
      \<lparr>dsName = DataInstanceName ordinal, dsBoltServer = announcedBolt fqdn externalBolt,
       dsManagementServer = hostPort fqdn ManagementPort, dsReplicationServer = hostPort fqdn ReplicationPort\<rparr>)"

text \<open>\<open>for ordinal := from; ordinal < to; ordinal++\<close> into a slice made with capacity \<open>to - from\<close>.\<close>

definition ordinals :: "int32 \<Rightarrow> int32 \<Rightarrow> int32 list option" where
  "ordinals from to = (if wrap32 (to - from) < 0 then None else Some [from..to - 1])"

definition DeclaredTopology :: "MemgraphDBCluster \<Rightarrow> ExternalAddresses \<Rightarrow> Topology option" where
  "DeclaredTopology cluster external =
     (let spec = normalize (mcSpec cluster) in
      Option.bind (ordinals 0 (nCoordinators spec)) (\<lambda>cs.
      Option.bind (ordinals 0 (nDataInstances spec)) (\<lambda>ds.
      Some \<lparr>tCoordinators = map (\<lambda>ordinal. coordinator cluster spec ordinal (exCoordinatorsAddr external)) cs,
            tDataInstances = map (\<lambda>ordinal. dataInstance cluster spec ordinal (dataAddress external ordinal)) ds,
            tRetiringCoordinators = [], tRetiringDataInstances = []\<rparr>)))"

definition RetiringCoordinators :: "MemgraphDBCluster \<Rightarrow> int32 \<Rightarrow> CoordinatorSpec list option" where
  "RetiringCoordinators cluster applied =
     (let spec = normalize (mcSpec cluster) in
      if applied \<le> nCoordinators spec then Some []
      else map_option (map (\<lambda>ordinal. coordinator cluster spec ordinal [])) (ordinals (nCoordinators spec) applied))"

definition RetiringDataInstances :: "MemgraphDBCluster \<Rightarrow> int32 \<Rightarrow> DataInstanceSpec list option" where
  "RetiringDataInstances cluster applied =
     (let spec = normalize (mcSpec cluster) in
      if applied \<le> nDataInstances spec then Some []
      else map_option (map (\<lambda>ordinal. dataInstance cluster spec ordinal [])) (ordinals (nDataInstances spec) applied))"

record Endpoint =
  epName :: string
  epPod :: string
  epAddress :: string
  epTLS :: bool

definition endpoints ::
  "MemgraphDBCluster \<Rightarrow> string \<Rightarrow> int32 \<Rightarrow> (int32 \<Rightarrow> string) \<Rightarrow> Endpoint list option" where
  "endpoints cluster statefulSet running instanceName =
     (let spec = normalize (mcSpec cluster) in
      map_option (map (\<lambda>ordinal. \<lparr>epName = instanceName ordinal, epPod = PodName statefulSet ordinal,
          epAddress = hostPort (podFQDN cluster statefulSet spec ordinal) BoltPort,
          epTLS = (nBoltTLSSecret spec \<noteq> [])\<rparr>)) (ordinals 0 running))"

definition CoordinatorEndpoints :: "MemgraphDBCluster \<Rightarrow> int32 \<Rightarrow> Endpoint list option" where
  "CoordinatorEndpoints cluster running = endpoints cluster (CoordinatorName cluster) running CoordinatorInstanceName"

definition DataEndpoints :: "MemgraphDBCluster \<Rightarrow> int32 \<Rightarrow> Endpoint list option" where
  "DataEndpoints cluster running = endpoints cluster (DataName cluster) running DataInstanceName"

text \<open>
  The topology of a pass of \<open>reconcileRegistration\<close>: the declared one with the members that the two
  applied replica counts still run beyond it.
\<close>

definition passTopology :: "MemgraphDBCluster \<Rightarrow> ExternalAddresses \<Rightarrow> int32 \<Rightarrow> int32 \<Rightarrow> Topology option" where
  "passTopology cluster external appliedCoordinators appliedData =
     Option.bind (DeclaredTopology cluster external) (\<lambda>topology.
     Option.bind (RetiringCoordinators cluster appliedCoordinators) (\<lambda>cs.
     Option.bind (RetiringDataInstances cluster appliedData) (\<lambda>ds.
     Some (topology\<lparr>tRetiringCoordinators := cs, tRetiringDataInstances := ds\<rparr>))))"

section \<open>What the builders build\<close>

lemma ordinals_Some:
  "0 \<le> from \<Longrightarrow> from \<le> to \<Longrightarrow> to \<le> int32_max \<Longrightarrow> ordinals from to = Some [from..to - 1]"
  by (simp add: ordinals_def is_int32_def int32_min_def int32_max_def)

lemma csName_coordinator [simp]: "csName (coordinator cluster spec i b) = CoordinatorInstanceName i"
  by (simp add: csName_coordinatorNameOf coordinator_def Let_def CoordinatorInstanceName_def)

lemma dsName_dataInstance [simp]: "dsName (dataInstance cluster spec i b) = DataInstanceName i"
  by (simp add: dataInstance_def Let_def)

lemma csBoltServer_coordinator [simp]: "csBoltServer (coordinator cluster spec i b) \<noteq> []"
  by (simp add: coordinator_def Let_def announcedBolt_def hostPort_def)

lemma DataInstanceName_nonempty [simp]: "DataInstanceName i \<noteq> []"
  by (simp add: DataInstanceName_def instancePrefix_def)

lemma dataName_not_coordinator: "\<not> hasPrefix (DataInstanceName i) coordinatorPrefix"
  by (simp add: DataInstanceName_def instancePrefix_def coordinatorPrefix_def hasPrefix_def)

lemma passTopology_shape:
  assumes "0 < DeclaredCoordinators cluster" and "DeclaredCoordinators cluster \<le> int32_max"
    and "0 \<le> DeclaredDataInstances cluster" and "DeclaredDataInstances cluster \<le> int32_max"
    and "appliedCoordinators \<le> int32_max" and "appliedData \<le> int32_max"
  shows "\<exists>topology. passTopology cluster external appliedCoordinators appliedData = Some topology
    \<and> wellFormed topology
    \<and> length (tCoordinators topology) = nat (DeclaredCoordinators cluster)
    \<and> length (tRetiringCoordinators topology) = nat (appliedCoordinators - DeclaredCoordinators cluster)
    \<and> length (tRetiringDataInstances topology) = nat (appliedData - DeclaredDataInstances cluster)"
proof -
  let ?spec = "normalize (mcSpec cluster)"
  let ?c = "DeclaredCoordinators cluster" and ?d = "DeclaredDataInstances cluster"
  let ?topology = "\<lparr>tCoordinators = map (\<lambda>i. coordinator cluster ?spec i (exCoordinatorsAddr external)) [0..?c - 1],
      tDataInstances = map (\<lambda>i. dataInstance cluster ?spec i (dataAddress external i)) [0..?d - 1],
      tRetiringCoordinators = map (\<lambda>i. coordinator cluster ?spec i []) [?c..appliedCoordinators - 1],
      tRetiringDataInstances = map (\<lambda>i. dataInstance cluster ?spec i []) [?d..appliedData - 1]\<rparr>"
  have built: "passTopology cluster external appliedCoordinators appliedData = Some ?topology"
    using assms ordinals_Some [of 0 ?c] ordinals_Some [of 0 ?d] ordinals_Some [of ?c appliedCoordinators]
      ordinals_Some [of ?d appliedData]
    by (simp add: passTopology_def DeclaredTopology_def RetiringCoordinators_def RetiringDataInstances_def
        Let_def DeclaredCoordinators_def DeclaredDataInstances_def)
  have range: "is_int32 i" if "i \<in> set ([0..a - 1] @ [a..b - 1])" and "0 \<le> a" "a \<le> int32_max" "b \<le> int32_max" for i a b
    using that by (auto simp: is_int32_def int32_min_def)
  have dist: "distinct ([0..a - 1] @ [a..b - 1])" for a b :: int by auto
  have "distinct (map CoordinatorInstanceName ([0..?c - 1] @ [?c..appliedCoordinators - 1]))"
    by (subst coordinator_instances.distinct_encode) (use assms range dist in auto)
  moreover have "distinct (map DataInstanceName ([0..?d - 1] @ [?d..appliedData - 1]))"
    by (subst data_instances.distinct_encode) (use assms range dist in auto)
  ultimately have "wellFormed ?topology"
    using assms(1) dataName_not_coordinator
    by (auto simp: wellFormed_def comp_def)
  with built show ?thesis by auto
qed

text \<open>
  No spelling of a name can drift from its parser: every member name is read back to the ordinal of
  its pod, for every 32-bit ordinal, and two ordinals never share a name.
\<close>

theorem member_names_round_trip:
  assumes "is_int32 i" and "is_int32 j"
  shows "CoordinatorOrdinal (CoordinatorInstanceName i) = Some i
    \<and> DataInstanceOrdinal (DataInstanceName i) = Some i
    \<and> (CoordinatorInstanceName i = CoordinatorInstanceName j \<longleftrightarrow> i = j)
    \<and> (DataInstanceName i = DataInstanceName j \<longleftrightarrow> i = j)
    \<and> CoordinatorInstanceName i \<noteq> DataInstanceName j"
proof -
  have "CoordinatorInstanceName i \<noteq> DataInstanceName j"
    using dataName_not_coordinator [of j]
    by (auto simp: CoordinatorInstanceName_def csName_coordinatorNameOf [symmetric] coordinatorNameOf_def)
      (metis csName_prefix)
  then show ?thesis
    using assms coordinator_instances.decode_encode data_instances.decode_encode
      coordinator_instances.encode_inject data_instances.encode_inject by auto
qed

theorem member_names_round_trip_witness:
  "CoordinatorOrdinal (CoordinatorInstanceName 2) = Some 2 \<and> DataInstanceOrdinal (DataInstanceName 2) = Some 2"
  using member_names_round_trip [of 2 2] by (simp add: is_int32_def int32_min_def int32_max_def)

text \<open>
  C11: the topology of every pass is one the registration theorems hold for: with a positive number of
  coordinators, whatever replica counts the previous apply left, the builders do not panic, all member
  names are distinct, declared members and members on their way out do not overlap, no data instance
  can be taken for a coordinator, and every declared coordinator has an address to be announced at.
\<close>

theorem topologies_well_formed:
  assumes "0 < DeclaredCoordinators cluster" and "DeclaredCoordinators cluster \<le> int32_max"
    and "0 \<le> DeclaredDataInstances cluster" and "DeclaredDataInstances cluster \<le> int32_max"
    and "appliedCoordinators \<le> int32_max" and "appliedData \<le> int32_max"
  shows "\<exists>topology. passTopology cluster external appliedCoordinators appliedData = Some topology
    \<and> wellFormed topology
    \<and> length (tCoordinators topology) = nat (DeclaredCoordinators cluster)
    \<and> length (tRetiringCoordinators topology) = nat (appliedCoordinators - DeclaredCoordinators cluster)
    \<and> length (tRetiringDataInstances topology) = nat (appliedData - DeclaredDataInstances cluster)"
  using assms by (rule passTopology_shape)

lemma exCluster_counts: "DeclaredCoordinators exCluster = 3" "DeclaredDataInstances exCluster = 2"
  by (simp_all add: DeclaredCoordinators_def DeclaredDataInstances_def normalize_def exCluster_def emptySpec_def
      intOrDefault_def DefaultCoordinatorCount_def DefaultDataInstanceCount_def)

theorem topologies_well_formed_witness:
  "\<exists>topology. passTopology exCluster \<lparr>exCoordinatorsAddr = [], exDataAddr = Map.empty\<rparr> 5 2 = Some topology
    \<and> wellFormed topology \<and> length (tCoordinators topology) = nat 3
    \<and> length (tRetiringCoordinators topology) = nat (5 - 3)
    \<and> length (tRetiringDataInstances topology) = nat (2 - 2)"
  using topologies_well_formed [of exCluster 5 2 "\<lparr>exCoordinatorsAddr = [], exDataAddr = Map.empty\<rparr>"]
  by (simp add: exCluster_counts int32_max_def)

end
