(* ===== verification/Expectations.thy ===== *)
theory Expectations
  imports Go_Prelude
begin

text \<open>
  \<open>src/internal/expectations/expectations.go\<close>: the writes whose effect the cache has yet to show. The
  state is the map of outstanding expectations; a cached StatefulSet is its UID and generation. The
  mutex is left out: a method runs alone.

  The locale \<open>write_guard\<close> is the contract its client, the replica arithmetic of the controller, rests
  on: a copy older than the last expected write is not trusted, and anything else is.
\<close>

type_synonym NamespacedName = "string \<times> string"

record written =
  wUID :: string
  wGeneration :: int64

type_synonym StatefulSets = "NamespacedName \<Rightarrow> written option"

definition Expect :: "NamespacedName \<Rightarrow> string \<Rightarrow> int64 \<Rightarrow> StatefulSets \<Rightarrow> StatefulSets" where
  "Expect name uid generation s = s(name \<mapsto> \<lparr>wUID = uid, wGeneration = generation\<rparr>)"

definition Satisfied ::
  "NamespacedName \<Rightarrow> (string \<times> int64) option \<Rightarrow> StatefulSets \<Rightarrow> bool \<times> StatefulSets" where
  "Satisfied name cached s =
     (case s name of
        None \<Rightarrow> (True, s)
      | Some want \<Rightarrow>
          if (case cached of None \<Rightarrow> True
              | Some (uid, generation) \<Rightarrow> uid \<noteq> wUID want \<or> generation \<ge> wGeneration want)
          then (True, s(name := None))
          else (False, s))"

text \<open>A cached copy that still shows the object from before a write.\<close>

definition staleCopy :: "string \<Rightarrow> int64 \<Rightarrow> (string \<times> int64) option \<Rightarrow> bool" where
  "staleCopy uid generation cached \<longleftrightarrow> (\<exists>g. cached = Some (uid, g) \<and> g < generation)"

locale write_guard =
  fixes expect :: "'n \<Rightarrow> string \<Rightarrow> int64 \<Rightarrow> 's \<Rightarrow> 's"
    and satisfied :: "'n \<Rightarrow> (string \<times> int64) option \<Rightarrow> 's \<Rightarrow> bool \<times> 's"
    and awaits :: "'s \<Rightarrow> 'n \<Rightarrow> string \<Rightarrow> int64 \<Rightarrow> bool"
    and idle :: "'s \<Rightarrow> 'n \<Rightarrow> bool"
  assumes expects: "awaits (expect n uid g s) n uid g"
    and refuses: "awaits s n uid g \<Longrightarrow> staleCopy uid g cached \<Longrightarrow> satisfied n cached s = (False, s)"
    and trusts: "awaits s n uid g \<Longrightarrow> \<not> staleCopy uid g cached \<Longrightarrow>
      fst (satisfied n cached s) \<and> idle (snd (satisfied n cached s)) n"
    and stays_idle: "idle s n \<Longrightarrow> satisfied n cached s = (True, s)"
begin

text \<open>The passes that read the cache one after another: which of them trust their copy.\<close>

fun trusted :: "'n \<Rightarrow> (string \<times> int64) option list \<Rightarrow> 's \<Rightarrow> bool list" where
  "trusted n [] s = []"
| "trusted n (cached # copies) s =
     (let (ok, s') = satisfied n cached s in ok # trusted n copies s')"

lemma trusted_idle: "idle s n \<Longrightarrow> trusted n copies s = replicate (length copies) True"
  by (induction copies) (simp_all add: stays_idle)

lemma trusted_awaits:
  "awaits s n uid g \<Longrightarrow>
   trusted n copies s = replicate (length (takeWhile (staleCopy uid g) copies)) False
     @ replicate (length (dropWhile (staleCopy uid g) copies)) True"
proof (induction copies)
  case (Cons cached copies)
  show ?case
  proof (cases "staleCopy uid g cached")
    case True
    with Cons refuses show ?thesis by simp
  next
    case False
    with trusts [OF Cons.prems False] trusted_idle show ?thesis by (simp add: case_prod_unfold Let_def)
  qed
qed simp

lemma never_trusts_before:
  assumes "awaits s n uid g" and "\<forall>cached \<in> set copies. staleCopy uid g cached"
  shows "True \<notin> set (trusted n copies s)"
proof -
  have "takeWhile (staleCopy uid g) copies = copies" "dropWhile (staleCopy uid g) copies = []"
    using assms(2) by (auto simp: takeWhile_eq_all_conv)
  with trusted_awaits [OF assms(1), of copies] show ?thesis by auto
qed

end

interpretation statefulsets: write_guard Expect Satisfied
    "\<lambda>s n uid g. s n = Some \<lparr>wUID = uid, wGeneration = g\<rparr>" "\<lambda>s n. s n = None"
  by unfold_locales (auto simp: Expect_def Satisfied_def staleCopy_def split: option.splits)

text \<open>
  C12: after an expected write, the passes that follow refuse every cached copy until the first one that
  shows the write, another object or none, and trust every copy from there on; a write to another
  StatefulSet is not waited for.
\<close>

theorem Satisfied_refuses_stale_reads:
  "statefulsets.trusted name copies (Expect name uid generation s)
     = replicate (length (takeWhile (staleCopy uid generation) copies)) False
       @ replicate (length (dropWhile (staleCopy uid generation) copies)) True
   \<and> (other \<noteq> name \<longrightarrow> fst (Satisfied other cached (Expect name uid generation s)) = fst (Satisfied other cached s))"
proof
  show "statefulsets.trusted name copies (Expect name uid generation s)
     = replicate (length (takeWhile (staleCopy uid generation) copies)) False
       @ replicate (length (dropWhile (staleCopy uid generation) copies)) True"
    by (rule statefulsets.trusted_awaits [of "Expect name uid generation s" name uid generation copies,
          OF statefulsets.expects])
  show "other \<noteq> name \<longrightarrow> fst (Satisfied other cached (Expect name uid generation s)) = fst (Satisfied other cached s)"
    by (auto simp: Satisfied_def Expect_def split: option.splits)
qed

theorem Satisfied_refuses_stale_reads_witness:
  "(''ns'', ''b'') \<noteq> (''ns'', ''a'') \<and> fst (Satisfied (''ns'', ''b'') None (Expect (''ns'', ''a'') ''u'' 3 Map.empty)) = fst (Satisfied (''ns'', ''b'') None Map.empty)"
  using Satisfied_refuses_stale_reads [of "(''ns'', ''a'')" "[]" "''u''" 3 Map.empty "(''ns'', ''b'')" None] by simp

end
