(* ===== verification/Rollout.thy ===== *)
theory Rollout
  imports Memgraph_Client Api_Types
begin

text \<open>
  \<open>src/internal/rollout/rollout.go\<close>: the pure decision of which pod, if any, a pass may restart.

  Two places leave something to the language. \<open>range\<close> over the map of instances is unspecified in its
  order, so the functions that do it take the order as an argument, a list of the map's keys. Indexing
  an empty slice panics: a decision is an option, and \<open>Next_total\<close> shows that \<^term>\<open>None\<close> never arises.
\<close>

named_theorems rollout_defs \<comment> \<open>what a proof about one decision unfolds\<close>

section \<open>Pods, roles, decisions\<close>

datatype Action = Done | Wait | Delete

record Pod =
  pName :: string
  pUID :: string
  pInstance :: string
  pOrdinal :: int32
  pRevisionHash :: string
  pCurrent :: bool
  pReady :: bool

record Role =
  rReplicas :: int32
  rUpdateRevision :: string
  rStale :: bool
  rPods :: "Pod list"

record Decision =
  dAction :: Action
  dPod :: Pod
  dReason :: string
  dMessage :: string

definition zeroPod :: Pod where
  "zeroPod = \<lparr>pName = [], pUID = [], pInstance = [], pOrdinal = 0, pRevisionHash = [], pCurrent = False,
     pReady = False\<rparr>"

definition zeroDecision :: Decision where
  "zeroDecision = \<lparr>dAction = Done, dPod = zeroPod, dReason = [], dMessage = []\<rparr>"

definition waiting :: "string \<Rightarrow> string \<Rightarrow> Decision" where
  "waiting reason message = zeroDecision\<lparr>dAction := Wait, dReason := reason, dMessage := message\<rparr>"

definition restarting :: "Pod \<Rightarrow> string \<Rightarrow> Decision" where
  "restarting pod message = \<lparr>dAction = Delete, dPod = pod, dReason = ReasonRollingRestartInProgress,
     dMessage = message\<rparr>"

lemma waiting_simps [simp]:
  "dAction (waiting r m) = Wait" "dReason (waiting r m) = r" "dMessage (waiting r m) = m"
  by (simp_all add: waiting_def)

lemma restarting_simps [simp]: "dAction (restarting p m) = Delete" "dPod (restarting p m) = p"
  by (simp_all add: restarting_def)

section \<open>The views as maps\<close>

definition index_rollout :: "Instance list \<Rightarrow> string \<Rightarrow> Instance option" where
  "index_rollout observed = index_by iName observed"

definition indexLag_rollout :: "ReplicationLag list \<Rightarrow> string \<Rightarrow> ReplicationLag option" where
  "indexLag_rollout lag = index_by rlInstance lag"

interpretation rollout_instances: keyed_view iName index_rollout
  unfolding index_rollout_def by (rule index_by_keyed_view)

interpretation rollout_lags: keyed_view rlInstance indexLag_rollout
  unfolding indexLag_rollout_def by (rule index_by_keyed_view)

text \<open>Reading a missing key: the zero value.\<close>

definition at :: "(string \<Rightarrow> Instance option) \<Rightarrow> string \<Rightarrow> Instance" where
  "at m n = (case m n of Some i \<Rightarrow> i | None \<Rightarrow> zeroInstance)"

definition lagAt :: "(string \<Rightarrow> ReplicationLag option) \<Rightarrow> string \<Rightarrow> ReplicationLag" where
  "lagAt m n = (case m n of Some l \<Rightarrow> l | None \<Rightarrow> zeroReplicationLag)"

section \<open>The helpers\<close>

definition outdated :: "Role \<Rightarrow> Pod list" where
  "outdated role =
     (if rUpdateRevision role = [] then []
      else filter (\<lambda>pod. pRevisionHash pod \<noteq> [] \<and> pRevisionHash pod \<noteq> rUpdateRevision role \<and> \<not> pCurrent pod)
        (rPods role))"

definition updated :: "Role \<Rightarrow> Pod list" where
  "updated role =
     (if rUpdateRevision role = [] then []
      else filter (\<lambda>pod. pRevisionHash pod = rUpdateRevision role \<or> pCurrent pod) (rPods role))"

definition InProgress :: "Role \<Rightarrow> bool" where
  "InProgress role = (length (outdated role) > 0)"

text \<open>The loop of \<open>highestOrdinalExcept\<close>: \<^term>\<open>None\<close> for \<open>found = false\<close>.\<close>

definition highestOrdinalExcept :: "Pod list \<Rightarrow> string \<Rightarrow> Pod option" where
  "highestOrdinalExcept pending name =
     foldl (\<lambda>nxt pod.
        if pInstance pod = name then nxt
        else case nxt of None \<Rightarrow> Some pod
          | Some best \<Rightarrow> if pOrdinal pod > pOrdinal best then Some pod else nxt) None pending"

text \<open>\<open>order\<close> is the order in which \<open>range instances\<close> visits the keys.\<close>

definition mainInstance :: "string list \<Rightarrow> (string \<Rightarrow> Instance option) \<Rightarrow> string" where
  "mainInstance order instances =
     (case find (\<lambda>n. IsMain (at instances n)) order of Some n \<Rightarrow> n | None \<Rightarrow> [])"

definition leaderInstance :: "string list \<Rightarrow> (string \<Rightarrow> Instance option) \<Rightarrow> string" where
  "leaderInstance order instances =
     (case find (\<lambda>n. IsLeader (at instances n)) order of Some n \<Rightarrow> n | None \<Rightarrow> [])"

text \<open>\<open>present\<close> and \<open>replicating\<close>: the \<open>Wait\<close> to return, \<^term>\<open>None\<close> for \<open>ok\<close>.\<close>

definition present :: "Role \<Rightarrow> Decision option" where
  "present role =
     (if wrap32 (int (length (rPods role))) \<noteq> rReplicas role
      then Some (waiting ReasonWorkloadsNotReady ''Waiting for the pod restarted last to be recreated'')
      else case find (\<lambda>pod. \<not> pReady pod) (rPods role) of
          Some pod \<Rightarrow> Some (waiting ReasonWorkloadsNotReady
            (''Waiting for pod '' @ pName pod @ '' to become ready''))
        | None \<Rightarrow> None)"

definition replicating ::
  "Role \<Rightarrow> (string \<Rightarrow> Instance option) \<Rightarrow> (string \<Rightarrow> ReplicationLag option) \<Rightarrow> Decision option" where
  "replicating role instances lags =
     (case find (\<lambda>pod. \<not> IsUp (at instances (pInstance pod)) \<or> \<not> IsCaughtUp (lagAt lags (pInstance pod)))
         (updated role) of
        None \<Rightarrow> None
      | Some pod \<Rightarrow>
          if \<not> IsUp (at instances (pInstance pod))
          then Some (waiting ReasonWorkloadsNotReady (''Waiting for restarted data instance ''
            @ pInstance pod @ '' to be reachable before restarting the next pod''))
          else Some (waiting ReasonWaitingForCatchUp (''Waiting for restarted data instance ''
            @ pInstance pod @ '' to catch up with MAIN before restarting the next pod'')))"

section \<open>The next step of each role\<close>

definition nextDataInstance ::
  "string list \<Rightarrow> Role \<Rightarrow> (string \<Rightarrow> Instance option) \<Rightarrow> (string \<Rightarrow> ReplicationLag option) \<Rightarrow> Decision option" where
  "nextDataInstance order data instances lags =
     (case present data of
        Some wait \<Rightarrow> Some wait
      | None \<Rightarrow>
          let main = mainInstance order instances in
          if main = [] then Some (waiting ReasonNoMainElected
            ''Waiting for a MAIN data instance before restarting any data pod'')
          else let pending = outdated data in
          case highestOrdinalExcept pending main of
            Some nxt \<Rightarrow> (case replicating data instances lags of
                Some wait \<Rightarrow> Some wait
              | None \<Rightarrow> Some (restarting nxt
                  (''Restarting data instance pod '' @ pName nxt @ '', which is not MAIN'')))
          | None \<Rightarrow> (case pending of
                [] \<Rightarrow> None
              | mainPod # _ \<Rightarrow>
                  if rReplicas data = 1
                  then Some (restarting mainPod (''Restarting the only data instance pod '' @ pName mainPod
                    @ '', which interrupts the cluster until it is back''))
                  else if \<not> IsUp (at instances main)
                  then Some (waiting ReasonWorkloadsNotReady (''Waiting for MAIN data instance '' @ main
                    @ '' to be reachable before restarting it''))
                  else case find (\<lambda>pod. pInstance pod \<noteq> main \<and> IsUp (at instances (pInstance pod))
                          \<and> IsCaughtUp (lagAt lags (pInstance pod))) (rPods data) of
                      Some pod \<Rightarrow> Some (restarting mainPod (''Restarting MAIN data instance pod ''
                        @ pName mainPod @ '' last; '' @ pInstance pod
                        @ '' is caught up and can be promoted in its place''))
                    | None \<Rightarrow> Some (waiting ReasonNoCaughtUpSurvivor
                        (''Waiting for a data instance that is reachable and caught up with MAIN '' @ main
                        @ '' before restarting it; the cluster keeps serving until one is''))))"

definition nextCoordinator :: "string list \<Rightarrow> Role \<Rightarrow> (string \<Rightarrow> Instance option) \<Rightarrow> Decision option" where
  "nextCoordinator order coordinators instances =
     (case present coordinators of
        Some wait \<Rightarrow> Some wait
      | None \<Rightarrow>
          (case find (\<lambda>pod. \<not> IsUp (at instances (pInstance pod))) (updated coordinators) of
             Some pod \<Rightarrow> Some (waiting ReasonWorkloadsNotReady (''Waiting for restarted coordinator ''
               @ pInstance pod @ '' to be reachable before restarting the next one''))
           | None \<Rightarrow>
               let leader = leaderInstance order instances in
               if leader = [] then Some (waiting ReasonNoCoordinatorLeader
                 ''Waiting for the coordinators to elect a leader before restarting any coordinator pod'')
               else let pending = outdated coordinators in
               case highestOrdinalExcept pending leader of
                 Some nxt \<Rightarrow> Some (restarting nxt (''Restarting coordinator pod '' @ pName nxt
                   @ '', which does not hold Raft leadership''))
               | None \<Rightarrow> (case pending of
                     [] \<Rightarrow> None
                   | pod # _ \<Rightarrow> Some (restarting pod (''Restarting coordinator pod '' @ pName pod
                       @ '' last; it holds Raft leadership, so the surviving members elect a successor'')))))"

definition Next ::
  "string list \<Rightarrow> Role \<Rightarrow> Role \<Rightarrow> Instance list \<Rightarrow> ReplicationLag list \<Rightarrow> Decision option" where
  "Next order data coordinators observed lag =
     (let instances = index_rollout observed; lags = indexLag_rollout lag in
      if rStale data then Some (waiting ReasonWorkloadsNotReady
        ''Waiting for the data StatefulSet's status to describe its current pod template'')
      else if rStale coordinators then Some (waiting ReasonWorkloadsNotReady
        ''Waiting for the coordinator StatefulSet's status to describe its current pod template'')
      else if length (outdated data) > 0 then nextDataInstance order data instances lags
      else if length (outdated coordinators) = 0 then Some zeroDecision
      else case present data of
          Some wait \<Rightarrow> Some wait
        | None \<Rightarrow> nextCoordinator order coordinators instances)"

section \<open>What each helper decides\<close>

lemma present_None:
  "present role = None \<longleftrightarrow>
     wrap32 (int (length (rPods role))) = rReplicas role \<and> (\<forall>p \<in> set (rPods role). pReady p)"
  by (auto simp: present_def find_None_iff dest!: find_SomeD split: option.splits)

lemma present_Wait: "present role = Some d \<Longrightarrow> dAction d = Wait"
  by (auto simp: present_def split: if_splits option.splits)

lemma replicating_None:
  "replicating role instances lags = None \<longleftrightarrow>
     (\<forall>p \<in> set (updated role). IsUp (at instances (pInstance p)) \<and> IsCaughtUp (lagAt lags (pInstance p)))"
  by (auto simp: replicating_def find_None_iff dest!: find_SomeD split: option.splits if_splits)

lemma replicating_Wait: "replicating role instances lags = Some d \<Longrightarrow> dAction d = Wait"
  by (auto simp: replicating_def split: if_splits option.splits)

lemmas wait_rules = present_Wait replicating_Wait

text \<open>The loop of \<open>highestOrdinalExcept\<close> keeps the first pod of the highest ordinal.\<close>

definition bestSoFar :: "Pod list \<Rightarrow> string \<Rightarrow> Pod option \<Rightarrow> bool" where
  "bestSoFar seen name best \<longleftrightarrow> (case best of
       None \<Rightarrow> \<forall>p \<in> set seen. pInstance p = name
     | Some b \<Rightarrow> b \<in> set seen \<and> pInstance b \<noteq> name
         \<and> (\<forall>p \<in> set seen. pInstance p \<noteq> name \<longrightarrow> pOrdinal p \<le> pOrdinal b))"

lemma highestOrdinalExcept_best: "bestSoFar pending name (highestOrdinalExcept pending name)"
proof (induction pending rule: rev_induct)
  case Nil
  then show ?case by (simp add: highestOrdinalExcept_def bestSoFar_def)
next
  case (snoc p pending)
  then show ?case
    by (auto simp: highestOrdinalExcept_def bestSoFar_def split: option.splits if_splits)
qed

lemma highestOrdinalExcept_None:
  "highestOrdinalExcept pending name = None \<longleftrightarrow> (\<forall>p \<in> set pending. pInstance p = name)"
  using highestOrdinalExcept_best [of pending name] by (auto simp: bestSoFar_def split: option.splits)

lemma highestOrdinalExcept_SomeD:
  "highestOrdinalExcept pending name = Some p \<Longrightarrow> p \<in> set pending \<and> pInstance p \<noteq> name
     \<and> (\<forall>q \<in> set pending. pInstance q \<noteq> name \<longrightarrow> pOrdinal q \<le> pOrdinal p)"
  using highestOrdinalExcept_best [of pending name] by (auto simp: bestSoFar_def)

text \<open>Where \<open>range\<close> visits every key once.\<close>

definition visits :: "string list \<Rightarrow> (string \<Rightarrow> Instance option) \<Rightarrow> bool" where
  "visits order m \<longleftrightarrow> distinct order \<and> set order = dom m"

lemma mainInstance_SomeD:
  "mainInstance order m \<noteq> [] \<Longrightarrow> IsMain (at m (mainInstance order m))"
  by (auto simp: mainInstance_def dest!: find_SomeD split: option.splits)

lemma leaderInstance_SomeD:
  "leaderInstance order m \<noteq> [] \<Longrightarrow> IsLeader (at m (leaderInstance order m))"
  by (auto simp: leaderInstance_def dest!: find_SomeD split: option.splits)

lemma at_dom: "IsMain (at m n) \<or> IsLeader (at m n) \<or> IsUp (at m n) \<Longrightarrow> n \<in> dom m"
  by (auto simp: at_def split: option.splits)

lemma find_unique:
  assumes "x \<in> set xs" and "P x" and "\<And>y. P y \<Longrightarrow> y = x"
  shows "find P xs = Some x"
proof (cases "find P xs")
  case None
  with assms(1,2) show ?thesis by (auto simp: find_None_iff)
next
  case (Some y)
  with assms(3) find_SomeD [OF Some] show ?thesis by simp
qed

lemma mainInstance_unique:
  assumes "visits order m" and "IsMain (at m n)" and "\<And>k. IsMain (at m k) \<Longrightarrow> k = n"
  shows "mainInstance order m = n"
proof -
  have "n \<in> set order" using assms(1,2) at_dom [of m n] by (simp add: visits_def)
  from find_unique [where P = "\<lambda>n. IsMain (at m n)", OF this assms(2,3)] show ?thesis
    by (simp add: mainInstance_def)
qed

lemma leaderInstance_unique:
  assumes "visits order m" and "IsLeader (at m n)" and "\<And>k. IsLeader (at m k) \<Longrightarrow> k = n"
  shows "leaderInstance order m = n"
proof -
  have "n \<in> set order" using assms(1,2) at_dom [of m n] by (simp add: visits_def)
  from find_unique [where P = "\<lambda>n. IsLeader (at m n)", OF this assms(2,3)] show ?thesis
    by (simp add: leaderInstance_def)
qed

section \<open>The shape of a restart\<close>

text \<open>A restart of a data pod, with everything the code has checked by then.\<close>

lemma nextDataInstance_Delete:
  assumes "nextDataInstance order data m l = Some d" and "dAction d = Delete"
  defines "main \<equiv> mainInstance order m"
  shows "present data = None \<and> main \<noteq> [] \<and> dPod d \<in> set (outdated data)
    \<and> (if pInstance (dPod d) \<noteq> main
       then replicating data m l = None
         \<and> (\<forall>q \<in> set (outdated data). pInstance q \<noteq> main \<longrightarrow> pOrdinal q \<le> pOrdinal (dPod d))
       else (\<forall>q \<in> set (outdated data). pInstance q = main)
         \<and> (rReplicas data = 1 \<or> IsUp (at m main)
            \<and> (\<exists>q \<in> set (rPods data). pInstance q \<noteq> main \<and> IsUp (at m (pInstance q)) \<and> IsCaughtUp (lagAt l (pInstance q)))))"
proof (cases "highestOrdinalExcept (outdated data) main")
  case (Some p)
  with assms highestOrdinalExcept_SomeD [OF Some] show ?thesis
    by (auto simp: nextDataInstance_def main_def Let_def dest: wait_rules split: option.splits if_splits)
next
  case None
  then have "\<forall>q \<in> set (outdated data). pInstance q = main" by (simp add: highestOrdinalExcept_None)
  with assms None show ?thesis
    by (auto simp: nextDataInstance_def main_def Let_def dest: wait_rules dest!: find_SomeD
        split: option.splits if_splits list.splits)
qed

lemma nextCoordinator_Delete:
  assumes "nextCoordinator order coordinators m = Some d" and "dAction d = Delete"
  defines "leader \<equiv> leaderInstance order m"
  shows "present coordinators = None \<and> leader \<noteq> [] \<and> dPod d \<in> set (outdated coordinators)
    \<and> (\<forall>q \<in> set (updated coordinators). IsUp (at m (pInstance q)))
    \<and> (pInstance (dPod d) = leader \<longrightarrow> (\<forall>q \<in> set (outdated coordinators). pInstance q = leader))"
proof (cases "highestOrdinalExcept (outdated coordinators) leader")
  case (Some p)
  with assms highestOrdinalExcept_SomeD [OF Some] show ?thesis
    by (auto simp: nextCoordinator_def leader_def Let_def find_None_iff dest: wait_rules
        split: option.splits if_splits)
next
  case None
  then have "\<forall>q \<in> set (outdated coordinators). pInstance q = leader"
    by (simp add: highestOrdinalExcept_None)
  with assms None show ?thesis
    by (auto simp: nextCoordinator_def leader_def Let_def find_None_iff dest: wait_rules
        split: option.splits if_splits list.splits)
qed

section \<open>Properties of the decision\<close>

lemmas Next_unfold = Next_def Let_def

text \<open>
  \<open>Next\<close> never panics: for every pair of roles, view, lag and map order it returns a decision.
\<close>

theorem Next_total: "\<exists>d. Next order data coordinators observed lag = Some d"
proof -
  have "nextDataInstance order data m l \<noteq> None" if "outdated data \<noteq> []" for m l
    using that by (auto simp: nextDataInstance_def Let_def split: option.splits list.splits)
  moreover have "nextCoordinator order coordinators m \<noteq> None" if "outdated coordinators \<noteq> []" for m
    using that by (auto simp: nextCoordinator_def Let_def split: option.splits list.splits)
  ultimately show ?thesis by (auto simp: Next_unfold split: option.splits)
qed

text \<open>
  C10: a pod is restarted only when it is outdated, both StatefulSets' statuses are current, and every
  data pod exists and is ready; a coordinator only when no data pod is outdated and every coordinator
  pod exists and is ready too.
\<close>

theorem Next_restart_gates:
  assumes "Next order data coordinators observed lag = Some d" and "dAction d = Delete"
  shows "\<not> rStale data \<and> \<not> rStale coordinators
    \<and> wrap32 (int (length (rPods data))) = rReplicas data \<and> (\<forall>p \<in> set (rPods data). pReady p)
    \<and> (dPod d \<in> set (outdated data)
       \<or> outdated data = [] \<and> dPod d \<in> set (outdated coordinators)
         \<and> wrap32 (int (length (rPods coordinators))) = rReplicas coordinators
         \<and> (\<forall>p \<in> set (rPods coordinators). pReady p))"
proof (cases "outdated data")
  case Nil
  with assms show ?thesis
    by (auto simp: Next_unfold zeroDecision_def present_None dest: wait_rules dest!: nextCoordinator_Delete
        split: if_splits option.splits)
next
  case (Cons p ps)
  with assms show ?thesis
    by (auto simp: Next_unfold present_None dest!: nextDataInstance_Delete split: if_splits)
qed

text \<open>
  C5: the MAIN is the last data pod to be restarted: when the pod chosen runs the observed MAIN, every
  other data pod is up to date, and, unless it is the only replica, the MAIN is reachable and a
  data instance other than it is reachable and has every transaction the MAIN has.
\<close>

theorem Next_MAIN_last:
  assumes "Next order data coordinators observed lag = Some d" and "dAction d = Delete"
    and "dPod d \<in> set (outdated data)"
    and "pInstance (dPod d) = mainInstance order (index_rollout observed)"
  shows "(\<forall>q \<in> set (outdated data). pInstance q = pInstance (dPod d))
    \<and> (rReplicas data = 1
       \<or> IsUp (at (index_rollout observed) (pInstance (dPod d)))
         \<and> (\<exists>q \<in> set (rPods data). pInstance q \<noteq> pInstance (dPod d)
              \<and> IsUp (at (index_rollout observed) (pInstance q))
              \<and> IsCaughtUp (lagAt (indexLag_rollout lag) (pInstance q))))"
proof -
  from assms(3) have "outdated data \<noteq> []" by auto
  with assms(1,2) have "nextDataInstance order data (index_rollout observed) (indexLag_rollout lag) = Some d"
    by (auto simp: Next_unfold split: if_splits)
  from nextDataInstance_Delete [OF this assms(2)] assms(4) show ?thesis by auto
qed

text \<open>
  Another data pod is restarted only when every data instance already on the new revision is
  reachable and caught up, and it is the one with the highest ordinal among those that do not run the
  MAIN.
\<close>

theorem Next_replica_gate:
  assumes "Next order data coordinators observed lag = Some d" and "dAction d = Delete"
    and "dPod d \<in> set (outdated data)"
    and "pInstance (dPod d) \<noteq> mainInstance order (index_rollout observed)"
  shows "(\<forall>p \<in> set (updated data). IsUp (at (index_rollout observed) (pInstance p))
        \<and> IsCaughtUp (lagAt (indexLag_rollout lag) (pInstance p)))
    \<and> (\<forall>q \<in> set (outdated data). pInstance q \<noteq> mainInstance order (index_rollout observed)
        \<longrightarrow> pOrdinal q \<le> pOrdinal (dPod d))
    \<and> IsMain (at (index_rollout observed) (mainInstance order (index_rollout observed)))"
proof -
  from assms(3) have "outdated data \<noteq> []" by auto
  with assms(1,2) have "nextDataInstance order data (index_rollout observed) (indexLag_rollout lag) = Some d"
    by (auto simp: Next_unfold split: if_splits)
  from nextDataInstance_Delete [OF this assms(2)] assms(4) mainInstance_SomeD
  show ?thesis unfolding replicating_None by auto
qed

text \<open>
  The Raft leader is the last coordinator pod to be restarted, a leader is always observed when a
  coordinator goes, and every coordinator already restarted is reachable.
\<close>

theorem Next_leader_last:
  assumes "Next order data coordinators observed lag = Some d" and "dAction d = Delete"
    and "outdated data = []"
  shows "IsLeader (at (index_rollout observed) (leaderInstance order (index_rollout observed)))
    \<and> (\<forall>p \<in> set (updated coordinators). IsUp (at (index_rollout observed) (pInstance p)))
    \<and> (pInstance (dPod d) = leaderInstance order (index_rollout observed) \<longrightarrow>
        (\<forall>q \<in> set (outdated coordinators). pInstance q = pInstance (dPod d)))"
proof -
  from assms have "nextCoordinator order coordinators (index_rollout observed) = Some d"
    by (auto simp: Next_unfold zeroDecision_def dest: wait_rules split: if_splits option.splits)
  from nextCoordinator_Delete [OF this assms(2)] leaderInstance_SomeD show ?thesis by auto
qed

text \<open>
  \<open>Next\<close> is done exactly when both statuses are current and no pod of either role is outdated.
\<close>

theorem Next_Done_iff:
  "(\<exists>d. Next order data coordinators observed lag = Some d \<and> dAction d = Done) \<longleftrightarrow>
    \<not> rStale data \<and> \<not> rStale coordinators \<and> \<not> InProgress data \<and> \<not> InProgress coordinators"
proof -
  have "dAction d \<noteq> Done" if "nextDataInstance order data m l = Some d" for m l d
    using that by (auto simp: nextDataInstance_def Let_def dest: wait_rules split: option.splits if_splits list.splits)
  moreover have "dAction d \<noteq> Done" if "nextCoordinator order coordinators m = Some d" for m d
    using that by (auto simp: nextCoordinator_def Let_def dest: wait_rules split: option.splits if_splits list.splits)
  ultimately show ?thesis
    by (auto simp: Next_unfold InProgress_def zeroDecision_def dest: wait_rules split: option.splits if_splits)
qed

text \<open>
  The unspecified order in which Go visits a map does not matter: with at most one MAIN and one
  leader in the view, every visiting order gives the same decision.
\<close>

theorem Next_order_irrelevant:
  assumes "visits order (index_rollout observed)" and "visits order' (index_rollout observed)"
    and "\<And>i j. i \<in> set observed \<Longrightarrow> j \<in> set observed \<Longrightarrow> IsMain i \<Longrightarrow> IsMain j \<Longrightarrow> iName i = iName j"
    and "\<And>i j. i \<in> set observed \<Longrightarrow> j \<in> set observed \<Longrightarrow> IsLeader i \<Longrightarrow> IsLeader j \<Longrightarrow> iName i = iName j"
  shows "Next order data coordinators observed lag = Next order' data coordinators observed lag"
proof -
  let ?m = "index_rollout observed"
  have row: "(P (at ?m n) \<Longrightarrow> \<exists>i \<in> set observed. iName i = n \<and> P i)" if "\<not> P zeroInstance" for P n
    using that rollout_instances.build_Some [of observed n] by (auto simp: at_def split: option.splits)
  have main: "mainInstance order ?m = mainInstance order' ?m"
  proof (cases "\<exists>n. IsMain (at ?m n)")
    case True
    then obtain n where n: "IsMain (at ?m n)" by blast
    have "k = n" if "IsMain (at ?m k)" for k
      using row [of IsMain, OF _ that] row [of IsMain, OF _ n] assms(3) by auto
    with n mainInstance_unique assms(1,2) show ?thesis by metis
  qed (simp add: mainInstance_def find_None_iff [THEN iffD2])
  have leader: "leaderInstance order ?m = leaderInstance order' ?m"
  proof (cases "\<exists>n. IsLeader (at ?m n)")
    case True
    then obtain n where n: "IsLeader (at ?m n)" by blast
    have "k = n" if "IsLeader (at ?m k)" for k
      using row [of IsLeader, OF _ that] row [of IsLeader, OF _ n] assms(4) by auto
    with n leaderInstance_unique assms(1,2) show ?thesis by metis
  qed (simp add: leaderInstance_def find_None_iff [THEN iffD2])
  show ?thesis by (simp only: Next_def nextDataInstance_def nextCoordinator_def main leader Let_def)
qed

section \<open>Sample decisions\<close>

definition exPod :: "string \<Rightarrow> string \<Rightarrow> int32 \<Rightarrow> string \<Rightarrow> Pod" where
  "exPod name inst ordinal hash = \<lparr>pName = name, pUID = name, pInstance = inst, pOrdinal = ordinal,
     pRevisionHash = hash, pCurrent = False, pReady = True\<rparr>"

definition exRole :: "Pod list \<Rightarrow> Role" where
  "exRole pods = \<lparr>rReplicas = int (length pods), rUpdateRevision = ''new'', rStale = False, rPods = pods\<rparr>"

definition exInst :: "string \<Rightarrow> string \<Rightarrow> Instance" where
  "exInst n role = \<lparr>iName = n, iBoltServer = n, iCoordinatorServer = [], iManagementServer = [],
     iHealth = HealthUp, iRole = role\<rparr>"

definition exObserved :: "Instance list" where
  "exObserved = [exInst ''c1'' RoleLeader, exInst ''i0'' RoleMain, exInst ''i1'' RoleReplica]"

definition exLags :: "ReplicationLag list" where
  "exLags = map (\<lambda>n. \<lparr>rlInstance = n, rlDatabases = [\<lparr>dlDatabase = ''memgraph'', dlCommittedTxns = 3,
     dlTxnsBehindMain = 0\<rparr>]\<rparr>) [''i0'', ''i1'']"

definition exOrder :: "string list" where
  "exOrder = [''i1'', ''c1'', ''i0'']"

definition exDataRole :: "string \<Rightarrow> string \<Rightarrow> Role" where
  "exDataRole h0 h1 = exRole [exPod ''d0'' ''i0'' 0 h0, exPod ''d1'' ''i1'' 1 h1]"

definition exCoordinators :: Role where
  "exCoordinators = exRole [exPod ''k1'' ''c1'' 1 ''old'']"

lemma exNext:
  "map_option (\<lambda>d. (dAction d, dPod d)) (Next exOrder (exDataRole ''old'' ''old'') exCoordinators exObserved exLags)
     = Some (Delete, exPod ''d1'' ''i1'' 1 ''old'')"
  "map_option (\<lambda>d. (dAction d, dPod d)) (Next exOrder (exDataRole ''old'' ''new'') exCoordinators exObserved exLags)
     = Some (Delete, exPod ''d0'' ''i0'' 0 ''old'')"
  "map_option (\<lambda>d. (dAction d, dPod d)) (Next exOrder (exDataRole ''new'' ''new'') exCoordinators exObserved exLags)
     = Some (Delete, exPod ''k1'' ''c1'' 1 ''old'')"
  "mainInstance exOrder (index_rollout exObserved) = ''i0''"
  "leaderInstance exOrder (index_rollout exObserved) = ''c1''"
  by code_simp+

lemma exOutdated:
  "outdated (exDataRole ''old'' ''old'') = [exPod ''d0'' ''i0'' 0 ''old'', exPod ''d1'' ''i1'' 1 ''old'']"
  "outdated (exDataRole ''old'' ''new'') = [exPod ''d0'' ''i0'' 0 ''old'']"
  "outdated (exDataRole ''new'' ''new'') = []"
  by code_simp+

lemma exVisits: "visits exOrder (index_rollout exObserved)"
proof -
  have "dom (index_rollout exObserved) = set (map iName exObserved)"
    by (simp add: index_rollout_def dom_index_by)
  then show ?thesis by (auto simp: visits_def exOrder_def exObserved_def exInst_def)
qed

theorem Next_restart_gates_witness:
  "\<exists>d. Next exOrder (exDataRole ''old'' ''old'') exCoordinators exObserved exLags = Some d \<and> dAction d = Delete
     \<and> \<not> rStale (exDataRole ''old'' ''old'') \<and> (\<forall>p \<in> set (rPods (exDataRole ''old'' ''old'')). pReady p)"
proof -
  from exNext(1) obtain d where "Next exOrder (exDataRole ''old'' ''old'') exCoordinators exObserved exLags = Some d"
    "dAction d = Delete" by auto
  with Next_restart_gates [OF this] show ?thesis by blast
qed

theorem Next_MAIN_last_witness:
  "\<exists>q \<in> set (rPods (exDataRole ''old'' ''new'')). pInstance q \<noteq> ''i0'' \<and> IsUp (at (index_rollout exObserved) (pInstance q))"
proof -
  from exNext(2) obtain d where d: "Next exOrder (exDataRole ''old'' ''new'') exCoordinators exObserved exLags = Some d"
    "dAction d = Delete" "dPod d = exPod ''d0'' ''i0'' 0 ''old''" by auto
  have i: "pInstance (exPod ''d0'' ''i0'' 0 ''old'') = ''i0''" by (simp add: exPod_def)
  have "rReplicas (exDataRole ''old'' ''new'') = 2" by (simp add: exDataRole_def exRole_def)
  with Next_MAIN_last [OF d(1,2)] d(3) i exNext(4) exOutdated(2) show ?thesis by auto
qed

theorem Next_replica_gate_witness:
  "IsMain (at (index_rollout exObserved) ''i0'')"
proof -
  from exNext(1) obtain d where d: "Next exOrder (exDataRole ''old'' ''old'') exCoordinators exObserved exLags = Some d"
    "dAction d = Delete" "dPod d = exPod ''d1'' ''i1'' 1 ''old''" by auto
  have i: "pInstance (exPod ''d1'' ''i1'' 1 ''old'') = ''i1''" by (simp add: exPod_def)
  from Next_replica_gate [OF d(1,2)] d(3) i exNext(4) exOutdated(1) show ?thesis by auto
qed

theorem Next_leader_last_witness:
  "IsLeader (at (index_rollout exObserved) ''c1'')"
proof -
  from exNext(3) obtain d where d: "Next exOrder (exDataRole ''new'' ''new'') exCoordinators exObserved exLags = Some d"
    "dAction d = Delete" by auto
  from Next_leader_last [OF d exOutdated(3)] exNext(5) show ?thesis by simp
qed

theorem Next_order_irrelevant_witness:
  "Next exOrder (exDataRole ''old'' ''old'') exCoordinators exObserved exLags
     = Next (rev exOrder) (exDataRole ''old'' ''old'') exCoordinators exObserved exLags"
proof (rule Next_order_irrelevant [OF exVisits])
  show "visits (rev exOrder) (index_rollout exObserved)" using exVisits by (simp add: visits_def)
qed (auto simp: exObserved_def exInst_def IsMain_def IsLeader_def)

section \<open>A whole roll\<close>

text \<open>
  What the StatefulSet controller does to a deleted pod: the pod comes back under its name, ready, on
  the current revision. A roll is the sequence of restarts that \<open>Next\<close> asks for along a list of
  observations, each with its own MAIN and leader.
\<close>

definition recreate :: "Pod \<Rightarrow> Role \<Rightarrow> Role" where
  "recreate p role = role\<lparr>rPods := map (\<lambda>q. if pName q = pName p
     then q\<lparr>pRevisionHash := rUpdateRevision role, pReady := True\<rparr> else q) (rPods role)\<rparr>"

type_synonym observation = "string list \<times> Instance list \<times> ReplicationLag list"

fun roll :: "observation list \<Rightarrow> Role \<Rightarrow> Role \<Rightarrow> Pod list \<times> Role \<times> Role" where
  "roll [] data coordinators = ([], data, coordinators)"
| "roll ((order, observed, lag) # views) data coordinators =
     (case Next order data coordinators observed lag of
        Some d \<Rightarrow>
          if dAction d = Delete
          then (let (ps, result) = roll views (recreate (dPod d) data) (recreate (dPod d) coordinators)
                in (dPod d # ps, result))
          else roll views data coordinators
      | None \<Rightarrow> ([], data, coordinators))"

text \<open>Roles between two restarts, and an observation of a cluster that is whole.\<close>

definition steady :: "Role \<Rightarrow> Role \<Rightarrow> bool" where
  "steady data coordinators \<longleftrightarrow> \<not> rStale data \<and> \<not> rStale coordinators
     \<and> present data = None \<and> present coordinators = None
     \<and> distinct (map pName (rPods data @ rPods coordinators)) \<and> distinct (map pInstance (rPods data))"

definition whole :: "Role \<Rightarrow> Role \<Rightarrow> observation \<Rightarrow> bool" where
  "whole data coordinators view \<longleftrightarrow> (case view of (order, observed, lag) \<Rightarrow>
     (\<exists>n \<in> set (map pInstance (rPods data)). n \<noteq> [] \<and> mainInstance order (index_rollout observed) = n)
     \<and> leaderInstance order (index_rollout observed) \<noteq> []
     \<and> (\<forall>p \<in> set (rPods data). IsUp (at (index_rollout observed) (pInstance p))
          \<and> IsCaughtUp (lagAt (indexLag_rollout lag) (pInstance p)))
     \<and> (\<forall>p \<in> set (rPods coordinators). IsUp (at (index_rollout observed) (pInstance p))))"

lemma recreate_simps [simp]:
  "rReplicas (recreate p role) = rReplicas role" "rStale (recreate p role) = rStale role"
  "rUpdateRevision (recreate p role) = rUpdateRevision role"
  "map pName (rPods (recreate p role)) = map pName (rPods role)"
  "map pInstance (rPods (recreate p role)) = map pInstance (rPods role)"
  "length (rPods (recreate p role)) = length (rPods role)"
  by (auto simp: recreate_def)

lemma recreate_pods:
  "q \<in> set (rPods (recreate p role)) \<Longrightarrow> \<exists>q' \<in> set (rPods role). pInstance q = pInstance q' \<and> (pReady q' \<longrightarrow> pReady q)"
  by (auto simp: recreate_def)

lemma recreate_instances: "pInstance ` set (rPods (recreate p role)) = pInstance ` set (rPods role)"
  by (metis image_set recreate_simps(5))

lemma recreate_present: "present role = None \<Longrightarrow> present (recreate p role) = None"
  unfolding present_None by (auto dest!: recreate_pods)

lemma recreate_steady: "steady data coordinators \<Longrightarrow> steady (recreate p data) (recreate p coordinators)"
  unfolding steady_def map_append recreate_simps by (blast intro: recreate_present)

lemma recreate_whole: "whole data coordinators v \<Longrightarrow> whole (recreate p data) (recreate p coordinators) v"
  by (cases v) (auto simp: whole_def recreate_instances recreate_def)

lemma recreate_other: "pName p \<notin> pName ` set (rPods role) \<Longrightarrow> recreate p role = role"
proof -
  assume "pName p \<notin> pName ` set (rPods role)"
  then have "q \<in> set (rPods role) \<Longrightarrow> pName q \<noteq> pName p" for q by (metis image_eqI)
  then have "map (\<lambda>q. if pName q = pName p then q\<lparr>pRevisionHash := rUpdateRevision role, pReady := True\<rparr> else q)
      (rPods role) = rPods role" by (simp add: map_idI)
  then show ?thesis unfolding recreate_def by (simp only:) simp
qed

lemma filter_replaced:
  "(\<And>x. N x \<Longrightarrow> \<not> P (f x)) \<Longrightarrow>
   filter P (map (\<lambda>x. if N x then f x else x) xs) = filter (\<lambda>x. \<not> N x) (filter P xs)"
  by (induction xs) auto

lemma outdated_recreate:
  "outdated (recreate p role) = filter (\<lambda>q. pName q \<noteq> pName p) (outdated role)"
proof (cases "rUpdateRevision role = []")
  case False
  then show ?thesis
    by (simp add: outdated_def recreate_def filter_replaced)
qed (simp add: outdated_def)

lemma outdated_subset: "set (outdated role) \<subseteq> set (rPods role)"
  by (auto simp: outdated_def)

lemma take_one:
  assumes "distinct (map pName ps)" and "p \<in> set ps"
  shows "set ps = insert p (set (filter (\<lambda>q. pName q \<noteq> pName p) ps))"
    and "p \<notin> set (filter (\<lambda>q. pName q \<noteq> pName p) ps)"
    and "length ps = Suc (length (filter (\<lambda>q. pName q \<noteq> pName p) ps))"
proof -
  from assms(2) obtain xs ys where s: "ps = xs @ p # ys" by (auto dest: split_list)
  with assms(1) have "filter (\<lambda>q. pName q \<noteq> pName p) xs = xs" "filter (\<lambda>q. pName q \<noteq> pName p) ys = ys"
    by (auto simp: filter_id_conv) (metis image_eqI)+
  then have f: "filter (\<lambda>q. pName q \<noteq> pName p) ps = xs @ ys" by (simp add: s)
  show "set ps = insert p (set (filter (\<lambda>q. pName q \<noteq> pName p) ps))"
    and "length ps = Suc (length (filter (\<lambda>q. pName q \<noteq> pName p) ps))" unfolding f by (simp_all add: s)
  show "p \<notin> set (filter (\<lambda>q. pName q \<noteq> pName p) ps)" by simp
qed

lemma Next_delete_coordinator:
  assumes "Next order data coordinators observed lag = Some d" and "dAction d = Delete"
    and "dPod d \<notin> set (outdated data)"
  shows "outdated data = [] \<and> dPod d \<in> set (outdated coordinators)"
  using assms
  by (cases "outdated data")
    (auto simp: Next_unfold zeroDecision_def dest: wait_rules dest!: nextCoordinator_Delete nextDataInstance_Delete
      split: if_splits option.splits)

lemma steady_Next:
  assumes "steady data coordinators" and "whole data coordinators (order, observed, lag)"
    and "outdated data \<noteq> [] \<or> outdated coordinators \<noteq> []"
  shows "\<exists>d. Next order data coordinators observed lag = Some d \<and> dAction d = Delete"
proof -
  let ?m = "index_rollout observed" and ?l = "indexLag_rollout lag"
  have gates: "\<not> rStale data" "\<not> rStale coordinators" "present data = None" "present coordinators = None"
    using assms(1) by (auto simp: steady_def)
  have up: "\<forall>p \<in> set (rPods data). IsUp (at ?m (pInstance p)) \<and> IsCaughtUp (lagAt ?l (pInstance p))"
    "\<forall>p \<in> set (rPods coordinators). IsUp (at ?m (pInstance p))"
    using assms(2) by (auto simp: whole_def)
  show ?thesis
  proof (cases "outdated data = []")
    case True
    have "find (\<lambda>pod. \<not> IsUp (at ?m (pInstance pod))) (updated coordinators) = None"
      using up(2) by (auto simp: find_None_iff updated_def)
    moreover have "leaderInstance order ?m \<noteq> []" using assms(2) by (auto simp: whole_def)
    ultimately show ?thesis using True gates assms(3)
      by (auto simp: Next_unfold nextCoordinator_def split: option.splits list.splits)
  next
    case False
    obtain n where n: "n \<in> pInstance ` set (rPods data)" "n \<noteq> []" "mainInstance order ?m = n"
      using assms(2) by (auto simp: whole_def)
    have rep: "replicating data ?m ?l = None" using up(1) by (auto simp: replicating_None updated_def)
    have survivor: "rReplicas data = 1 \<or> (\<exists>q \<in> set (rPods data). pInstance q \<noteq> n)"
    proof (rule ccontr)
      assume c: "\<not> ?thesis"
      then have one: "pInstance ` set (rPods data) = {n}" using n(1) by auto
      have "distinct (map pInstance (rPods data))" using assms(1) by (simp add: steady_def)
      from distinct_card [OF this] one have len: "length (rPods data) = 1" by simp
      have "wrap32 (int (length (rPods data))) = rReplicas data" using gates(3) by (simp add: present_None)
      with c show False by (simp add: len is_int32_def int32_min_def int32_max_def)
    qed
    have upn: "IsUp (at ?m n)" using n(1) up(1) by auto
    have sur: "find (\<lambda>pod. pInstance pod \<noteq> n \<and> IsUp (at ?m (pInstance pod)) \<and> IsCaughtUp (lagAt ?l (pInstance pod)))
        (rPods data) \<noteq> None" if "rReplicas data \<noteq> 1"
      using survivor that up(1) by (auto simp: find_None_iff)
    show ?thesis using False gates n rep upn sur
      by (auto simp: Next_unfold nextDataInstance_def split: option.splits list.splits)
  qed
qed

text \<open>
  C4: a roll terminates. Along any sequence of whole observations, whichever instance is MAIN and
  whichever coordinator leads in each of them, with one observation per outdated pod, every outdated
  pod is restarted exactly once, all data pods before the first coordinator pod, and nothing is left.
\<close>

theorem roll_completes:
  assumes "steady data coordinators" and "\<forall>v \<in> set views. whole data coordinators v"
    and "length views = length (outdated data) + length (outdated coordinators)"
  shows "\<exists>ds cs data' coordinators'. roll views data coordinators = (ds @ cs, data', coordinators')
    \<and> distinct (ds @ cs) \<and> set ds = set (outdated data) \<and> set cs = set (outdated coordinators)
    \<and> \<not> InProgress data' \<and> \<not> InProgress coordinators'"
  using assms
proof (induction views arbitrary: data coordinators)
  case Nil
  then show ?case by (simp add: InProgress_def)
next
  case (Cons v views)
  obtain order observed lag where v: "v = (order, observed, lag)" by (cases v)
  have names: "distinct (map pName (rPods data @ rPods coordinators))" using Cons.prems(1) by (simp add: steady_def)
  have todo: "outdated data \<noteq> [] \<or> outdated coordinators \<noteq> []" using Cons.prems(3) by auto
  have "whole data coordinators (order, observed, lag)" using Cons.prems(2) v by simp
  from steady_Next [OF Cons.prems(1) this todo] obtain d where d:
    "Next order data coordinators observed lag = Some d" "dAction d = Delete" by blast
  let ?p = "dPod d" let ?data = "recreate ?p data" and ?coords = "recreate ?p coordinators"
  have whole: "\<forall>w \<in> set views. whole ?data ?coords w" using Cons.prems(2) recreate_whole by auto
  note steady = recreate_steady [OF Cons.prems(1), of ?p]
  have split: "roll (v # views) data coordinators =
      (let (ps, result) = roll views ?data ?coords in (?p # ps, result))" using v d by simp
  show ?case
  proof (cases "?p \<in> set (outdated data)")
    case True
    then have "?p \<in> set (rPods data)" using outdated_subset by blast
    then have "pName ?p \<notin> pName ` set (rPods coordinators)" using names by auto
    then have c: "?coords = coordinators" by (rule recreate_other)
    have "distinct (map pName (outdated data))" using names by (auto simp: outdated_def distinct_map_filter)
    from take_one [OF this True] have o: "set (outdated data) = insert ?p (set (outdated ?data))"
      "?p \<notin> set (outdated ?data)" "length (outdated data) = Suc (length (outdated ?data))"
      by (simp_all add: outdated_recreate)
    with Cons.IH [OF steady whole] Cons.prems(3) c obtain ds cs data' coordinators' where ih:
      "roll views ?data ?coords = (ds @ cs, data', coordinators')" "distinct (ds @ cs)"
      "set ds = set (outdated ?data)" "set cs = set (outdated coordinators)"
      "\<not> InProgress data'" "\<not> InProgress coordinators'" by auto
    have "?p \<notin> set cs" using ih(4) \<open>pName ?p \<notin> _\<close> outdated_subset by blast
    with ih o split have "roll (v # views) data coordinators = ((?p # ds) @ cs, data', coordinators')
        \<and> distinct ((?p # ds) @ cs) \<and> set (?p # ds) = set (outdated data)" by auto
    with ih(4-6) show ?thesis by blast
  next
    case False
    from Next_delete_coordinator [OF d False] have none: "outdated data = []" and p: "?p \<in> set (outdated coordinators)"
      by auto
    have "distinct (map pName (outdated coordinators))" using names by (auto simp: outdated_def distinct_map_filter)
    from take_one [OF this p] have o: "set (outdated coordinators) = insert ?p (set (outdated ?coords))"
      "?p \<notin> set (outdated ?coords)" "length (outdated coordinators) = Suc (length (outdated ?coords))"
      by (simp_all add: outdated_recreate)
    have none': "outdated ?data = []" using none by (simp add: outdated_recreate)
    with Cons.IH [OF steady whole] Cons.prems(3) none o obtain ds cs data' coordinators' where ih:
      "roll views ?data ?coords = (ds @ cs, data', coordinators')" "distinct (ds @ cs)"
      "set ds = {}" "set cs = set (outdated ?coords)"
      "\<not> InProgress data'" "\<not> InProgress coordinators'" by auto
    with o split none have "roll (v # views) data coordinators = ([] @ (?p # cs), data', coordinators')
        \<and> distinct ([] @ (?p # cs)) \<and> set [] = set (outdated data) \<and> set (?p # cs) = set (outdated coordinators)"
      by auto
    with ih(5,6) show ?thesis by blast
  qed
qed

theorem roll_completes_witness:
  "\<exists>ds cs data' coordinators'. roll (replicate 3 (exOrder, exObserved, exLags)) (exDataRole ''old'' ''old'') exCoordinators
      = (ds @ cs, data', coordinators')
    \<and> distinct (ds @ cs) \<and> set ds = set (outdated (exDataRole ''old'' ''old'')) \<and> set cs = set (outdated exCoordinators)
    \<and> \<not> InProgress data' \<and> \<not> InProgress coordinators'"
proof (rule roll_completes)
  show "steady (exDataRole ''old'' ''old'') exCoordinators" by code_simp
  have "whole (exDataRole ''old'' ''old'') exCoordinators (exOrder, exObserved, exLags)" by code_simp
  then show "\<forall>v \<in> set (replicate 3 (exOrder, exObserved, exLags)). whole (exDataRole ''old'' ''old'') exCoordinators v"
    by simp
  show "length (replicate 3 (exOrder, exObserved, exLags))
      = length (outdated (exDataRole ''old'' ''old'')) + length (outdated exCoordinators)" by code_simp
qed

end
