(* ===== verification/Volumes.thy ===== *)
theory Volumes
  imports Api_Types "HOL-Library.AList"
begin

text \<open>
  \<open>src/internal/volumes/volumes.go\<close>: the steps that carry a grown storage size to the claims of a
  StatefulSet. The state is the cluster's own: the claims, the claim templates of the live StatefulSet
  and the pods; \<open>Decide\<close> is a function of it. The names \<open>Role\<close>, \<open>Pod\<close> and \<open>Decision\<close> of the source
  carry the suffix \<open>_volumes\<close>, since \<open>Rollout\<close> has its own.

  \<open>resource.Quantity\<close> is not this repository's: its \<open>Cmp\<close> is the argument \<open>cmp\<close>, its documented
  behaviour (it compares the amounts two quantities stand for) the hypothesis \<open>lawfulCmp\<close>.
\<close>

section \<open>Quantities\<close>

definition lawfulCmp :: "(Quantity \<Rightarrow> Quantity \<Rightarrow> int) \<Rightarrow> bool" where
  "lawfulCmp cmp \<longleftrightarrow> (\<exists>amount :: Quantity \<Rightarrow> int. \<forall>q r. cmp q r = sgn (amount q - amount r))"

text \<open>A \<open>cmp\<close> that is lawful, for the examples: the length of the text.\<close>

definition lengthCmp :: "Quantity \<Rightarrow> Quantity \<Rightarrow> int" where
  "lengthCmp q r = sgn (int (length q) - int (length r))"

lemma lengthCmp_lawful: "lawfulCmp lengthCmp"
  unfolding lawfulCmp_def lengthCmp_def by (intro exI [where x = "\<lambda>q. int (length q)"]) simp

lemma lawfulCmp_refl: "lawfulCmp cmp \<Longrightarrow> cmp q q = 0"
  by (auto simp: lawfulCmp_def)

lemma lawfulCmp_trans_less:
  assumes "lawfulCmp cmp" and "cmp q r \<ge> 0" and "cmp r s \<ge> 0" shows "cmp q s \<ge> 0"
proof -
  obtain amount :: "Quantity \<Rightarrow> int" where "\<And>q r. cmp q r = sgn (amount q - amount r)"
    using assms(1) unfolding lawfulCmp_def by blast
  with assms(2,3) show ?thesis by (auto simp: sgn_if split: if_splits)
qed

section \<open>Claims and templates\<close>

text \<open>\<open>corev1.ResourceStorage\<close>; a key a resource list does not have reads as the zero quantity.\<close>

type_synonym resourceList = "(string \<times> Quantity) list"

definition ResourceStorage :: string where "ResourceStorage = ''storage''"

definition storageOf :: "resourceList \<Rightarrow> Quantity" where
  "storageOf requests = (case map_of requests ResourceStorage of Some q \<Rightarrow> q | None \<Rightarrow> ''0'')"

record claimTemplate =
  ctName :: string
  ctRequests :: resourceList

record pvcCondition =
  pcType :: string
  pcStatus :: string
  pcMessage :: string

record PersistentVolumeClaim =
  pvcName :: string
  pvcPhase :: string
  pvcRequests :: resourceList
  pvcCapacity :: resourceList
  pvcConditions :: "pvcCondition list"
  pvcAllocatedStatuses :: "(string \<times> string) list"

record Claim =
  cName :: string
  cTemplate :: string
  cOrdinal :: int32
  cBound :: bool
  cRequest :: Quantity
  cCapacity :: Quantity
  cResizePending :: bool
  cInfeasible :: string
  cResizeError :: string

record Pod_volumes =
  pvName :: string
  pvOrdinal :: int32

record Role_volumes =
  rvStatefulSet :: string
  rvDesired :: resourceList
  rvLive :: "resourceList option"
  rvClaims :: "Claim list"
  rvPods :: "Pod_volumes list"

record Patch =
  paClaim :: string
  paSize :: Quantity

record Decision_volumes =
  dvPatches :: "Patch list"
  dvRecreate :: bool
  dvGrowing :: "string list"
  dvErrors :: "string list"
  dvFailed :: "string list"

text \<open>Later templates of a name win, as in the loop.\<close>

definition TemplateSizes :: "claimTemplate list \<Rightarrow> resourceList" where
  "TemplateSizes templates = fold (\<lambda>t. AList.update (ctName t) (storageOf (ctRequests t))) templates []"

definition KeepLiveSizes :: "claimTemplate list \<Rightarrow> claimTemplate list option \<Rightarrow> claimTemplate list" where
  "KeepLiveSizes desired live =
     (case live of
        None \<Rightarrow> desired
      | Some templates \<Rightarrow> map (\<lambda>t. case map_of (TemplateSizes templates) (ctName t) of
            Some live_size \<Rightarrow> t\<lparr>ctRequests := AList.update ResourceStorage live_size (ctRequests t)\<rparr>
          | None \<Rightarrow> t) desired)"

section \<open>Reading a claim\<close>

text \<open>\<open>strings.Fields\<close> on ASCII text, joined with single spaces.\<close>

definition isSpace :: "char \<Rightarrow> bool" where
  "isSpace c \<longleftrightarrow> c \<in> set [CHR 0x20, CHR 0x09, CHR 0x0A, CHR 0x0B, CHR 0x0C, CHR 0x0D]"

fun fieldsFrom :: "string \<Rightarrow> string \<Rightarrow> string list" where
  "fieldsFrom word [] = (if word = [] then [] else [word])"
| "fieldsFrom word (c # cs) =
     (if isSpace c then (if word = [] then fieldsFrom [] cs else word # fieldsFrom [] cs)
      else fieldsFrom (word @ [c]) cs)"

definition collapse :: "string \<Rightarrow> string" where
  "collapse message = join '' '' (fieldsFrom [] message)"

text \<open>The condition types and allocated resource statuses of \<open>corev1\<close>.\<close>

definition ControllerResizeError :: string where "ControllerResizeError = ''ControllerResizeError''"
definition NodeResizeError :: string where "NodeResizeError = ''NodeResizeError''"
definition FileSystemResizePending :: string where "FileSystemResizePending = ''FileSystemResizePending''"

definition allocatedStatus :: "PersistentVolumeClaim \<Rightarrow> string" where
  "allocatedStatus pvc = (case map_of (pvcAllocatedStatuses pvc) ResourceStorage of Some s \<Rightarrow> s | None \<Rightarrow> [])"

definition infeasible :: "PersistentVolumeClaim \<Rightarrow> string" where
  "infeasible pvc =
     (let status = allocatedStatus pvc;
          explained = (\<lambda>errorCondition.
            case find (\<lambda>c. pcType c = errorCondition \<and> pcMessage c \<noteq> []) (pvcConditions pvc) of
              Some c \<Rightarrow> status @ '': '' @ collapse (pcMessage c)
            | None \<Rightarrow> status) in
      if status = ''ControllerResizeInfeasible'' then explained ControllerResizeError
      else if status = ''NodeResizeInfeasible'' then explained NodeResizeError
      else [])"

definition resizeError :: "PersistentVolumeClaim \<Rightarrow> string" where
  "resizeError pvc =
     (let status = allocatedStatus pvc;
          reported = (\<lambda>step.
            case find (\<lambda>c. pcType c = step \<and> pcStatus c = ConditionTrue \<and> pcMessage c \<noteq> []) (pvcConditions pvc) of
              Some c \<Rightarrow> collapse (pcMessage c)
            | None \<Rightarrow> []) in
      if status = ''ControllerResizeInProgress'' then reported ControllerResizeError
      else if status = ''NodeResizePending'' \<or> status = ''NodeResizeInProgress'' then reported NodeResizeError
      else [])"

text \<open>An ordinal in the one spelling the StatefulSet controller gives it.\<close>

definition canonicalOrdinal :: "string \<Rightarrow> int32 option" where
  "canonicalOrdinal suffix =
     (case parseInt32 suffix of
        None \<Rightarrow> None
      | Some ordinal \<Rightarrow> if ordinal < 0 \<or> itoa ordinal \<noteq> suffix then None else Some ordinal)"

definition claimOf :: "string \<Rightarrow> int32 \<Rightarrow> PersistentVolumeClaim \<Rightarrow> Claim" where
  "claimOf template ordinal pvc =
     \<lparr>cName = pvcName pvc, cTemplate = template, cOrdinal = ordinal, cBound = (pvcPhase pvc = ''Bound''),
      cRequest = storageOf (pvcRequests pvc), cCapacity = storageOf (pvcCapacity pvc),
      cResizePending = (list_ex (\<lambda>c. pcType c = FileSystemResizePending \<and> pcStatus c = ConditionTrue) (pvcConditions pvc)
        \<or> allocatedStatus pvc = ''NodeResizePending''),
      cInfeasible = infeasible pvc,
      cResizeError = (if infeasible pvc = [] then resizeError pvc else [])\<rparr>"

fun Observe :: "string \<Rightarrow> string list \<Rightarrow> PersistentVolumeClaim \<Rightarrow> Claim option" where
  "Observe statefulSet [] pvc = None"
| "Observe statefulSet (template # templates) pvc =
     (case cutPrefix (pvcName pvc) (template @ ''-'' @ statefulSet @ ''-'') of
        None \<Rightarrow> Observe statefulSet templates pvc
      | Some suffix \<Rightarrow> (case canonicalOrdinal suffix of
            None \<Rightarrow> Observe statefulSet templates pvc
          | Some ordinal \<Rightarrow> Some (claimOf template ordinal pvc)))"

section \<open>The decision\<close>

definition templatesGrew :: "(Quantity \<Rightarrow> Quantity \<Rightarrow> int) \<Rightarrow> resourceList \<Rightarrow> resourceList \<Rightarrow> bool" where
  "templatesGrew cmp desired live \<longleftrightarrow>
     list_ex (\<lambda>(name, want). case map_of live name of Some current \<Rightarrow> cmp current want < 0 | None \<Rightarrow> False) desired"

definition podAt :: "Pod_volumes list \<Rightarrow> int32 \<Rightarrow> Pod_volumes option" where
  "podAt pods = index_by pvOrdinal pods"

definition namedClaim :: "Pod_volumes list \<Rightarrow> Claim \<Rightarrow> string" where
  "namedClaim pods claim = (case podAt pods (cOrdinal claim) of
      Some pod \<Rightarrow> cName claim @ '' (pod '' @ pvName pod @ '')''
    | None \<Rightarrow> cName claim)"

text \<open>One claim of the loop: what it adds to the decision.\<close>

definition decideClaim ::
  "(Quantity \<Rightarrow> Quantity \<Rightarrow> int) \<Rightarrow> resourceList \<Rightarrow> Pod_volumes list \<Rightarrow> Claim \<Rightarrow> Decision_volumes \<Rightarrow> Decision_volumes" where
  "decideClaim cmp desired pods claim d =
     (case map_of desired (cTemplate claim) of
        None \<Rightarrow> d
      | Some want \<Rightarrow>
          if \<not> cBound claim then d
          else if cmp (cRequest claim) want < 0 then
            d\<lparr>dvPatches := dvPatches d @ [\<lparr>paClaim = cName claim, paSize = want\<rparr>],
              dvGrowing := dvGrowing d @ [namedClaim pods claim]\<rparr>
          else if cInfeasible claim \<noteq> [] then
            d\<lparr>dvFailed := dvFailed d @ [namedClaim pods claim @ '': '' @ cInfeasible claim]\<rparr>
          else if cmp (cCapacity claim) (cRequest claim) \<ge> 0 then d
          else if podAt pods (cOrdinal claim) \<noteq> None \<or> \<not> cResizePending claim then
            d\<lparr>dvGrowing := dvGrowing d @ [namedClaim pods claim],
              dvErrors := dvErrors d @ (if cResizeError claim \<noteq> [] then [cName claim @ '': '' @ cResizeError claim] else [])\<rparr>
          else d)"

definition noDecision :: Decision_volumes where
  "noDecision = \<lparr>dvPatches = [], dvRecreate = False, dvGrowing = [], dvErrors = [], dvFailed = []\<rparr>"

definition Decide :: "(Quantity \<Rightarrow> Quantity \<Rightarrow> int) \<Rightarrow> Role_volumes \<Rightarrow> Decision_volumes" where
  "Decide cmp role =
     (let d = fold (decideClaim cmp (rvDesired role) (rvPods role)) (sort_key cName (rvClaims role)) noDecision in
      d\<lparr>dvRecreate := (case rvLive role of
          None \<Rightarrow> False
        | Some live \<Rightarrow> dvPatches d = [] \<and> templatesGrew cmp (rvDesired role) live)\<rparr>)"

section \<open>What the loop computes\<close>

text \<open>The size a claim is to be patched to, and whether it is reported growing or failed.\<close>

definition patchOf :: "(Quantity \<Rightarrow> Quantity \<Rightarrow> int) \<Rightarrow> resourceList \<Rightarrow> Claim \<Rightarrow> Quantity option" where
  "patchOf cmp desired claim =
     (case map_of desired (cTemplate claim) of
        Some want \<Rightarrow> if cBound claim \<and> cmp (cRequest claim) want < 0 then Some want else None
      | None \<Rightarrow> None)"

definition managed :: "resourceList \<Rightarrow> Claim \<Rightarrow> bool" where
  "managed desired claim \<longleftrightarrow> cBound claim \<and> map_of desired (cTemplate claim) \<noteq> None"

definition unfinished :: "(Quantity \<Rightarrow> Quantity \<Rightarrow> int) \<Rightarrow> Pod_volumes list \<Rightarrow> Claim \<Rightarrow> bool" where
  "unfinished cmp pods claim \<longleftrightarrow> cInfeasible claim = [] \<and> cmp (cCapacity claim) (cRequest claim) < 0
     \<and> (podAt pods (cOrdinal claim) \<noteq> None \<or> \<not> cResizePending claim)"

lemma Decide_fold:
  "dvPatches (fold (decideClaim cmp desired pods) cs d)
     = dvPatches d @ List.map_filter (\<lambda>c. map_option (\<lambda>want. \<lparr>paClaim = cName c, paSize = want\<rparr>) (patchOf cmp desired c)) cs"
  "dvGrowing (fold (decideClaim cmp desired pods) cs d) = dvGrowing d @ map (namedClaim pods)
     (filter (\<lambda>c. patchOf cmp desired c \<noteq> None \<or> managed desired c \<and> unfinished cmp pods c) cs)"
  "dvFailed (fold (decideClaim cmp desired pods) cs d) = dvFailed d @ map (\<lambda>c. namedClaim pods c @ '': '' @ cInfeasible c)
     (filter (\<lambda>c. managed desired c \<and> patchOf cmp desired c = None \<and> cInfeasible c \<noteq> []) cs)"
  "dvErrors (fold (decideClaim cmp desired pods) cs d) = dvErrors d @ map (\<lambda>c. cName c @ '': '' @ cResizeError c)
     (filter (\<lambda>c. patchOf cmp desired c = None \<and> managed desired c \<and> unfinished cmp pods c \<and> cResizeError c \<noteq> []) cs)"
  "dvRecreate (fold (decideClaim cmp desired pods) cs d) = dvRecreate d"
  by (induction cs arbitrary: d)
    (auto simp: decideClaim_def patchOf_def managed_def unfinished_def List.map_filter_simps
      split: option.splits)

lemma Decide_simps:
  "dvPatches (Decide cmp role) = List.map_filter (\<lambda>c. map_option (\<lambda>want. \<lparr>paClaim = cName c, paSize = want\<rparr>)
      (patchOf cmp (rvDesired role) c))
     (sort_key cName (rvClaims role))"
  "dvRecreate (Decide cmp role) \<longleftrightarrow> (\<exists>live. rvLive role = Some live \<and> templatesGrew cmp (rvDesired role) live)
     \<and> (\<forall>c \<in> set (rvClaims role). patchOf cmp (rvDesired role) c = None)"
  by (auto simp: Decide_def Let_def Decide_fold noDecision_def List.map_filter_def filter_empty_conv split: option.splits)

text \<open>
  \<open>Decide\<close> asks for exactly the patches that are missing, never one that shrinks a claim or touches an
  unbound or foreign one, in name order; and it gives up the live StatefulSet only when no claim of the
  role is left to patch, so a refused resize leaves it as it is.
\<close>

theorem Decide_patches_exact:
  "(p \<in> set (dvPatches (Decide cmp role)) \<longleftrightarrow>
      (\<exists>c \<in> set (rvClaims role). cName c = paClaim p \<and> cBound c
         \<and> map_of (rvDesired role) (cTemplate c) = Some (paSize p) \<and> cmp (cRequest c) (paSize p) < 0))
   \<and> sorted (map paClaim (dvPatches (Decide cmp role)))
   \<and> (dvRecreate (Decide cmp role) \<longleftrightarrow> dvPatches (Decide cmp role) = []
        \<and> (\<exists>live. rvLive role = Some live \<and> templatesGrew cmp (rvDesired role) live))"
proof (intro conjI)
  let ?f = "\<lambda>c. map_option (\<lambda>want. \<lparr>paClaim = cName c, paSize = want\<rparr>) (patchOf cmp (rvDesired role) c)"
  have "set (dvPatches (Decide cmp role)) = {p. \<exists>c \<in> set (rvClaims role). ?f c = Some p}"
    by (force simp: Decide_simps List.map_filter_def)
  then show "p \<in> set (dvPatches (Decide cmp role)) \<longleftrightarrow>
      (\<exists>c \<in> set (rvClaims role). cName c = paClaim p \<and> cBound c
         \<and> map_of (rvDesired role) (cTemplate c) = Some (paSize p) \<and> cmp (cRequest c) (paSize p) < 0)"
    by (cases p) (auto simp: patchOf_def split: option.splits if_splits)
  have "map paClaim (List.map_filter ?f cs) = map cName (filter (\<lambda>c. patchOf cmp (rvDesired role) c \<noteq> None) cs)" for cs
    by (induction cs) (auto simp: List.map_filter_simps split: option.splits)
  then show "sorted (map paClaim (dvPatches (Decide cmp role)))"
    by (simp add: Decide_simps(1) sorted_filter)
  show "dvRecreate (Decide cmp role) \<longleftrightarrow> dvPatches (Decide cmp role) = []
        \<and> (\<exists>live. rvLive role = Some live \<and> templatesGrew cmp (rvDesired role) live)"
    by (auto simp: Decide_simps List.map_filter_def filter_empty_conv)
qed

section \<open>A resize comes to rest\<close>

text \<open>The API server's answer to the patches, the recreate, and the storage provider's growth.\<close>

definition applyPatches :: "Patch list \<Rightarrow> Claim \<Rightarrow> Claim" where
  "applyPatches patches c = (case find (\<lambda>p. paClaim p = cName c) patches of
      Some p \<Rightarrow> c\<lparr>cRequest := paSize p\<rparr> | None \<Rightarrow> c)"

definition patched :: "(Quantity \<Rightarrow> Quantity \<Rightarrow> int) \<Rightarrow> Role_volumes \<Rightarrow> Role_volumes" where
  "patched cmp role = role\<lparr>rvClaims := map (applyPatches (dvPatches (Decide cmp role))) (rvClaims role)\<rparr>"

definition recreated :: "Role_volumes \<Rightarrow> Role_volumes" where
  "recreated role = role\<lparr>rvLive := Some (rvDesired role)\<rparr>"

definition provided :: "Role_volumes \<Rightarrow> Role_volumes" where
  "provided role = role\<lparr>rvClaims := map (\<lambda>c. c\<lparr>cCapacity := cRequest c, cInfeasible := []\<rparr>) (rvClaims role)\<rparr>"

lemma patched_claims:
  assumes "distinct (map cName (rvClaims role))" and "c \<in> set (rvClaims role)"
  shows "applyPatches (dvPatches (Decide cmp role)) c =
    (case patchOf cmp (rvDesired role) c of Some want \<Rightarrow> c\<lparr>cRequest := want\<rparr> | None \<Rightarrow> c)"
proof -
  have d: "distinct (map cName (sort_key cName (rvClaims role)))" and m: "c \<in> set (sort_key cName (rvClaims role))"
    using assms by (auto simp: distinct_map)
  have "find (\<lambda>p. paClaim p = cName c) (List.map_filter (\<lambda>c. map_option (\<lambda>want. \<lparr>paClaim = cName c, paSize = want\<rparr>) (f c)) cs)
      = map_option (\<lambda>want. \<lparr>paClaim = cName c, paSize = want\<rparr>) (f c)"
    if "distinct (map cName cs)" "c \<in> set cs" for f cs
    using that
  proof (induction cs)
    case (Cons x cs)
    have miss: "find (\<lambda>p. paClaim p = cName c) (List.map_filter (\<lambda>c. map_option (\<lambda>want. \<lparr>paClaim = cName c, paSize = want\<rparr>) (f c)) cs) = None"
      if "cName c \<notin> cName ` set cs"
      using that by (induction cs) (auto simp: List.map_filter_simps split: option.splits)
    show ?case
    proof (cases "x = c")
      case True
      with Cons.prems miss show ?thesis by (auto simp: List.map_filter_simps split: option.splits)
    next
      case False
      with Cons.prems have "cName x \<noteq> cName c" by auto
      with False Cons show ?thesis by (auto simp: List.map_filter_simps split: option.splits)
    qed
  qed simp
  from this [OF d m] show ?thesis
    by (simp add: applyPatches_def Decide_simps(1) split: option.splits)
qed

lemma patchOf_frame [simp]:
  "patchOf cmp desired (c\<lparr>cCapacity := x, cInfeasible := y\<rparr>) = patchOf cmp desired c"
  by (simp add: patchOf_def split: option.split)

lemma patchOf_after:
  assumes "lawfulCmp cmp"
  shows "patchOf cmp desired (case patchOf cmp desired c of Some want \<Rightarrow> c\<lparr>cRequest := want\<rparr> | None \<Rightarrow> c) = None"
  using lawfulCmp_refl [OF assms] by (auto simp: patchOf_def split: option.splits if_splits)

lemma templatesGrew_refl: "lawfulCmp cmp \<Longrightarrow> distinct (map fst desired) \<Longrightarrow> \<not> templatesGrew cmp desired desired"
  using lawfulCmp_refl [of cmp] by (auto simp: templatesGrew_def list_ex_iff map_of_eq_Some_iff split: option.splits)

text \<open>
  C16: a resize terminates, in one round of patches, at most one recreate and the provider's growth: once
  the patches of a decision are in, no claim is left to patch; then the StatefulSet is recreated exactly
  when its templates are smaller than the desired ones, once; and when the provider has grown every
  volume to its request, the role asks for nothing and reports nothing.
\<close>

theorem resize_converges:
  assumes "lawfulCmp cmp" and "distinct (map cName (rvClaims role))" and "distinct (map fst (rvDesired role))"
  shows "dvPatches (Decide cmp (patched cmp role)) = []
    \<and> (dvRecreate (Decide cmp (patched cmp role)) \<longleftrightarrow>
         (\<exists>live. rvLive role = Some live \<and> templatesGrew cmp (rvDesired role) live))
    \<and> \<not> dvRecreate (Decide cmp (recreated (patched cmp role)))
    \<and> Decide cmp (provided (recreated (patched cmp role))) = noDecision"
proof -
  have none: "patchOf cmp (rvDesired role) c = None" if "c \<in> set (rvClaims (patched cmp role))" for c
    using that patched_claims [OF assms(2)] patchOf_after [OF assms(1)] by (auto simp: patched_def)
  have same: "rvDesired (patched cmp role) = rvDesired role" "rvLive (patched cmp role) = rvLive role"
      "rvPods (provided r) = rvPods r" for r
    by (simp_all add: patched_def provided_def)
  have p: "dvPatches (Decide cmp (patched cmp role)) = []"
    using none by (auto simp: Decide_simps(1) same List.map_filter_def filter_empty_conv)
  have fixed: "\<not> templatesGrew cmp (rvDesired role) (rvDesired role)"
    by (rule templatesGrew_refl [OF assms(1,3)])
  let ?r = "provided (recreated (patched cmp role))"
  have full: "patchOf cmp (rvDesired role) c = None \<and> cmp (cCapacity c) (cRequest c) = 0 \<and> cInfeasible c = []"
    if "c \<in> set (rvClaims ?r)" for c
    using that none lawfulCmp_refl [OF assms(1)]
    by (auto simp: provided_def recreated_def)
  have "decideClaim cmp (rvDesired role) (rvPods ?r) c d = d" if "c \<in> set (rvClaims ?r)" for c d
    using full [OF that] by (auto simp: decideClaim_def patchOf_def split: option.splits)
  then have "fold (decideClaim cmp (rvDesired role) (rvPods ?r)) (sort_key cName (rvClaims ?r)) d = d" for d
    by (intro fold_invariant [where Q = "\<lambda>c. c \<in> set (rvClaims ?r)" and P = "\<lambda>e. e = d"]) auto
  moreover have "rvDesired ?r = rvDesired role" "rvLive ?r = Some (rvDesired role)"
    by (simp_all add: provided_def recreated_def same)
  ultimately have "Decide cmp ?r = noDecision" using fixed by (simp add: Decide_def noDecision_def)
  then show ?thesis using p none fixed by (auto simp: Decide_simps(2) same recreated_def)
qed

definition exClaim :: "string \<Rightarrow> Quantity \<Rightarrow> Claim" where
  "exClaim name request = \<lparr>cName = name, cTemplate = ''lib'', cOrdinal = 0, cBound = True, cRequest = request,
     cCapacity = request, cResizePending = False, cInfeasible = [], cResizeError = []\<rparr>"

definition exVolumes :: Role_volumes where
  "exVolumes = \<lparr>rvStatefulSet = ''d'', rvDesired = [(''lib'', ''20Gi'')], rvLive = Some [(''lib'', ''5Gi'')],
     rvClaims = [exClaim ''lib-d-0'' ''5Gi'', exClaim ''lib-d-1'' ''20Gi''], rvPods = []\<rparr>"

theorem resize_converges_witness:
  "dvPatches (Decide lengthCmp exVolumes) \<noteq> [] \<and> dvRecreate (Decide lengthCmp (patched lengthCmp exVolumes))
   \<and> Decide lengthCmp (provided (recreated (patched lengthCmp exVolumes))) = noDecision"
proof (intro conjI)
  have grew: "templatesGrew lengthCmp (rvDesired exVolumes) [(''lib'', ''5Gi'')]"
    by (simp add: templatesGrew_def exVolumes_def lengthCmp_def)
  have d: "distinct (map cName (rvClaims exVolumes))" "distinct (map fst (rvDesired exVolumes))"
      "rvLive exVolumes = Some [(''lib'', ''5Gi'')]" by (simp_all add: exVolumes_def exClaim_def)
  note c = resize_converges [OF lengthCmp_lawful d(1,2)]
  show "dvRecreate (Decide lengthCmp (patched lengthCmp exVolumes))" using c grew d(3) by blast
  show "Decide lengthCmp (provided (recreated (patched lengthCmp exVolumes))) = noDecision" using c by blast
  show "dvPatches (Decide lengthCmp exVolumes) \<noteq> []"
    by (auto simp: Decide_simps(1) List.map_filter_def filter_empty_conv patchOf_def exVolumes_def exClaim_def lengthCmp_def)
qed

section \<open>Claims belong to one template\<close>

lemma itoa_no_dash: "0 \<le> i \<Longrightarrow> CHR ''-'' \<notin> set (itoa i)"
  using utoa_digits [of "nat i"] by (auto simp: itoa_def list_all_iff is_digit_def)

lemma canonicalOrdinal_iff: "canonicalOrdinal s = Some i \<longleftrightarrow> s = itoa i \<and> 0 \<le> i \<and> is_int32 i"
proof
  assume c: "canonicalOrdinal s = Some i"
  then have "parseInt32 s = Some i" "0 \<le> i" "itoa i = s"
    by (auto simp: canonicalOrdinal_def split: option.splits if_splits)
  moreover from this(1) have "is_int32 i"
    by (auto simp: parseInt32_def inRange32_def split: list.splits if_splits option.splits bind_splits)
  ultimately show "s = itoa i \<and> 0 \<le> i \<and> is_int32 i" by simp
qed (auto simp: canonicalOrdinal_def)

text \<open>The last dash splits a name: nothing behind it holds another.\<close>

lemma last_dash_split:
  assumes "a @ CHR ''-'' # x = b @ CHR ''-'' # y" and "CHR ''-'' \<notin> set x" and "CHR ''-'' \<notin> set y"
  shows "a = b \<and> x = y"
  using assms
proof (induction a arbitrary: b)
  case Nil
  then show ?case by (cases b) auto
next
  case (Cons c a)
  show ?case
  proof (cases b)
    case Nil
    with Cons.prems show ?thesis by auto
  next
    case (Cons d b')
    with Cons.prems Cons.IH [of b'] show ?thesis by auto
  qed
qed

definition claimName :: "string \<Rightarrow> string \<Rightarrow> int32 \<Rightarrow> string" where
  "claimName statefulSet template ordinal = template @ ''-'' @ statefulSet @ ''-'' @ itoa ordinal"

lemma claimName_inject:
  assumes "claimName s t i = claimName s t' j" and "0 \<le> i" and "0 \<le> j" shows "t = t' \<and> i = j"
proof -
  from assms(1) have "(t @ ''-'' @ s) @ CHR ''-'' # itoa i = (t' @ ''-'' @ s) @ CHR ''-'' # itoa j"
    by (simp add: claimName_def)
  from last_dash_split [OF this itoa_no_dash [OF assms(2)] itoa_no_dash [OF assms(3)]] show ?thesis by auto
qed

lemma Observe_Some:
  "Observe s templates pvc = Some claim \<Longrightarrow>
   \<exists>t \<in> set templates. \<exists>i. 0 \<le> i \<and> is_int32 i \<and> pvcName pvc = claimName s t i \<and> claim = claimOf t i pvc"
  by (induction templates) (auto simp: cutPrefix_Some canonicalOrdinal_iff claimName_def split: option.splits)

lemma Observe_named:
  assumes "t \<in> set templates" and "0 \<le> i" and "is_int32 i" and "pvcName pvc = claimName s t i"
  shows "Observe s templates pvc = Some (claimOf t i pvc)"
  using assms(1)
proof (induction templates)
  case (Cons u us)
  show ?case
  proof (cases "u = t")
    case True
    have "cutPrefix (pvcName pvc) (u @ ''-'' @ s @ ''-'') = Some (itoa i)"
      by (simp add: cutPrefix_Some assms(4) claimName_def True)
    with True assms(2,3) show ?thesis by (simp add: canonicalOrdinal_iff [THEN iffD2])
  next
    case False
    have "canonicalOrdinal suffix = None" if "cutPrefix (pvcName pvc) (u @ ''-'' @ s @ ''-'') = Some suffix" for suffix
    proof (rule ccontr)
      assume "canonicalOrdinal suffix \<noteq> None"
      then obtain j where "suffix = itoa j" "0 \<le> j" using canonicalOrdinal_iff by blast
      with that have "claimName s t i = claimName s u j" by (simp add: cutPrefix_Some assms(4) claimName_def)
      with claimName_inject assms(2) \<open>0 \<le> j\<close> False show False by blast
    qed
    with False Cons show ?thesis by (auto split: option.split)
  qed
qed simp

text \<open>
  A claim is recognised by its name, whatever the order of the templates: it is a claim of the
  StatefulSet exactly when its name is a template's, the StatefulSet's and an ordinal's, joined by
  dashes; template and ordinal are then read back exactly, even where one template's name extends
  another's or a name holds dashes and digits itself.
\<close>

theorem Observe_round_trip:
  "Observe statefulSet templates pvc = Some claim \<longleftrightarrow>
     (\<exists>t \<in> set templates. \<exists>i. 0 \<le> i \<and> is_int32 i \<and> pvcName pvc = claimName statefulSet t i
        \<and> claim = claimOf t i pvc \<and> cTemplate claim = t \<and> cOrdinal claim = i \<and> cName claim = pvcName pvc)"
  using Observe_Some [of statefulSet templates pvc claim] Observe_named [of _ templates _ pvc statefulSet]
  by (auto simp: claimOf_def)

theorem Observe_round_trip_witness:
  "Observe ''x-1'' [''a'', ''a-x''] \<lparr>pvcName = ''a-x-x-1-12'', pvcPhase = ''Bound'', pvcRequests = [], pvcCapacity = [],
     pvcConditions = [], pvcAllocatedStatuses = []\<rparr> \<noteq> None"
proof -
  let ?pvc = "\<lparr>pvcName = ''a-x-x-1-12'', pvcPhase = ''Bound'', pvcRequests = [], pvcCapacity = [],
     pvcConditions = [], pvcAllocatedStatuses = []\<rparr> :: PersistentVolumeClaim"
  have n: "pvcName ?pvc = claimName ''x-1'' ''a-x'' 12" by code_simp
  have "is_int32 12" by (simp add: is_int32_def int32_min_def int32_max_def)
  with n Observe_round_trip [of "''x-1''" "[''a'', ''a-x'']" ?pvc "claimOf ''a-x'' 12 ?pvc"] show ?thesis
    by (auto simp: claimOf_def)
qed

section \<open>Applying a StatefulSet never changes its claim templates\<close>

lemma map_of_update_fold:
  "map_of (fold (\<lambda>t. AList.update (k t) (v t)) ts al) = fold (\<lambda>t m. m(k t \<mapsto> v t)) ts (map_of al)"
  by (induction ts arbitrary: al) (simp_all add: update_conv')

lemma TemplateSizes_lookup:
  "map_of (TemplateSizes ts) n = map_option (\<lambda>t. storageOf (ctRequests t)) (index_by ctName ts n)"
proof -
  have "fold (\<lambda>t m. m(ctName t \<mapsto> storageOf (ctRequests t))) ts Map.empty n
      = map_option (\<lambda>t. storageOf (ctRequests t)) (index_by ctName ts n)"
    by (induction ts rule: rev_induct) auto
  then show ?thesis by (simp add: TemplateSizes_def map_of_update_fold)
qed

lemma TemplateSizes_distinct: "distinct (map fst (TemplateSizes ts))"
proof -
  have step: "distinct (map fst al) \<Longrightarrow> distinct (map fst (fold (\<lambda>t. AList.update (k t) (v t)) ts al))" for k v al
    by (induction ts arbitrary: al) (simp_all add: distinct_update)
  show ?thesis unfolding TemplateSizes_def by (rule step) simp
qed

lemma storageOf_update [simp]: "storageOf (AList.update ResourceStorage q m) = q"
  by (simp add: storageOf_def update_conv')

lemma KeepLiveSizes_index:
  "map_option ctRequests (index_by ctName (KeepLiveSizes desired (Some live)) n)
     = map_option (\<lambda>t. case map_of (TemplateSizes live) n of
           Some q \<Rightarrow> AList.update ResourceStorage q (ctRequests t) | None \<Rightarrow> ctRequests t) (index_by ctName desired n)"
  by (induction desired rule: rev_induct) (auto simp: KeepLiveSizes_def split: option.splits)

text \<open>
  An apply restates the live claim templates, whatever the spec declares: after \<open>KeepLiveSizes\<close> every
  template the live StatefulSet has carries the live size, one it does not have keeps the declared size,
  no template is added or dropped, and by \<open>Decide\<close>'s own test no template grew.
\<close>

theorem KeepLiveSizes_restates:
  assumes "lawfulCmp cmp"
  shows "map_of (TemplateSizes (KeepLiveSizes desired (Some live))) n =
      (if map_of (TemplateSizes desired) n = None then None
       else case map_of (TemplateSizes live) n of Some q \<Rightarrow> Some q | None \<Rightarrow> map_of (TemplateSizes desired) n)
    \<and> map ctName (KeepLiveSizes desired (Some live)) = map ctName desired
    \<and> \<not> templatesGrew cmp (TemplateSizes (KeepLiveSizes desired (Some live))) (TemplateSizes live)"
proof (intro conjI)
  have lookup: "map_of (TemplateSizes (KeepLiveSizes desired (Some live))) n =
      (if map_of (TemplateSizes desired) n = None then None
       else case map_of (TemplateSizes live) n of Some q \<Rightarrow> Some q | None \<Rightarrow> map_of (TemplateSizes desired) n)" for n
  proof -
    have "map_of (TemplateSizes (KeepLiveSizes desired (Some live))) n
        = map_option storageOf (map_option ctRequests (index_by ctName (KeepLiveSizes desired (Some live)) n))"
      by (simp add: TemplateSizes_lookup option.map_comp comp_def)
    also have "\<dots> = (if map_of (TemplateSizes desired) n = None then None
       else case map_of (TemplateSizes live) n of Some q \<Rightarrow> Some q | None \<Rightarrow> map_of (TemplateSizes desired) n)"
      unfolding KeepLiveSizes_index TemplateSizes_lookup [of desired] by (auto split: option.splits)
    finally show ?thesis .
  qed
  then show "map_of (TemplateSizes (KeepLiveSizes desired (Some live))) n =
      (if map_of (TemplateSizes desired) n = None then None
       else case map_of (TemplateSizes live) n of Some q \<Rightarrow> Some q | None \<Rightarrow> map_of (TemplateSizes desired) n)" .
  show "map ctName (KeepLiveSizes desired (Some live)) = map ctName desired"
    by (auto simp: KeepLiveSizes_def split: option.splits)
  have "\<not> cmp current want < 0"
    if "(name, want) \<in> set (TemplateSizes (KeepLiveSizes desired (Some live)))"
      and "map_of (TemplateSizes live) name = Some current" for name want current
  proof -
    from that(1) TemplateSizes_distinct
    have "map_of (TemplateSizes (KeepLiveSizes desired (Some live))) name = Some want" by simp
    with lookup [of name] that(2) have "want = current" by (auto split: if_splits)
    with lawfulCmp_refl [OF assms] show ?thesis by simp
  qed
  then show "\<not> templatesGrew cmp (TemplateSizes (KeepLiveSizes desired (Some live))) (TemplateSizes live)"
    by (auto simp: templatesGrew_def list_ex_iff split: option.splits)
qed

theorem KeepLiveSizes_restates_witness:
  "\<not> templatesGrew lengthCmp (TemplateSizes (KeepLiveSizes [\<lparr>ctName = ''lib'', ctRequests = [(ResourceStorage, ''20Gi'')]\<rparr>]
     (Some [\<lparr>ctName = ''lib'', ctRequests = [(ResourceStorage, ''5Gi'')]\<rparr>])))
     (TemplateSizes [\<lparr>ctName = ''lib'', ctRequests = [(ResourceStorage, ''5Gi'')]\<rparr>])"
  using KeepLiveSizes_restates [OF lengthCmp_lawful] by blast

end
