(* ===== verification/Replica_Counts.thy ===== *)
theory Replica_Counts
  imports Topology_Builder Expectations Rollout Volumes
begin

text \<open>
  The replica arithmetic of a reconcile pass, \<open>src/internal/controller/memgraphdbcluster_controller.go\<close>:
  the one read of each StatefulSet and the count to apply (\<open>replicaCounts\<close>, \<open>runningOrdinals\<close>,
  \<open>podOrdinal\<close>), the pods as the rolling restart sees them (\<open>observeRolloutRole\<close>), the readiness gate
  (\<open>workloadsReady\<close>) and the shrink that ends a retirement (\<open>shedRetiredPods\<close>).

  The API server's cache is the record \<open>reader\<close>, an argument of what reads it: one answer per object
  and per list for the length of a pass. A pass threads the outstanding expectations of \<open>Expectations\<close>.
\<close>

section \<open>What a pass reads\<close>

record StatefulSet =
  ssName :: string
  ssUID :: string
  ssDeleting :: bool
  ssTemplates :: "claimTemplate list"
  ssGeneration :: int64
  ssReplicas :: "int32 option"
  ssStatusReplicas :: int32
  ssReadyReplicas :: int32
  ssUpdateRevision :: string
  ssObservedGeneration :: int64
  ssAnnotations :: stringMap

record k8sPod =
  kpName :: string
  kpUID :: string
  kpDeleting :: bool
  kpLabels :: stringMap
  kpAnnotations :: stringMap
  kpConditions :: "(string \<times> string) list"

datatype 'a getResult = Found 'a | NotFound | Failed goerror

record reader =
  rGet :: "NamespacedName \<Rightarrow> StatefulSet getResult"
  rList :: "string \<Rightarrow> stringMap \<Rightarrow> goerror + k8sPod list"

definition getStatefulSet :: "reader \<Rightarrow> string \<Rightarrow> string \<Rightarrow> goerror + StatefulSet option" where
  "getStatefulSet rd namespace name =
     (case rGet rd (namespace, name) of
        Found sts \<Rightarrow> Inr (Some sts)
      | NotFound \<Rightarrow> Inr None
      | Failed e \<Rightarrow> Inl (''getting StatefulSet '' @ name @ '': '' @ e))"

section \<open>The ordinals a role runs\<close>

definition podOrdinal :: "string \<Rightarrow> string \<Rightarrow> int32 option" where
  "podOrdinal statefulSet pod = Option.bind (cutPrefix pod (statefulSet @ ''-'')) canonicalOrdinal"

lemma podOrdinal_iff: "podOrdinal s pod = Some i \<longleftrightarrow> pod = PodName s i \<and> 0 \<le> i \<and> is_int32 i"
  by (auto simp: podOrdinal_def bind_eq_Some_conv cutPrefix_Some canonicalOrdinal_iff PodName_def)

interpretation pod_names: name_codec "\<lambda>i. 0 \<le> i \<and> is_int32 i" "PodName s" "podOrdinal s"
  by unfold_locales (simp add: podOrdinal_iff)

definition runningOrdinals :: "reader \<Rightarrow> string \<Rightarrow> string \<Rightarrow> stringMap \<Rightarrow> goerror + int32" where
  "runningOrdinals rd namespace statefulSet selector =
     (case rList rd namespace selector of
        Inl e \<Rightarrow> Inl (''listing pods of StatefulSet '' @ statefulSet @ '': '' @ e)
      | Inr pods \<Rightarrow> Inr (fold (\<lambda>pod count. case podOrdinal statefulSet (kpName pod) of
            Some ordinal \<Rightarrow> max count (wrap32 (ordinal + 1)) | None \<Rightarrow> count) pods 0))"

text \<open>The count read off pods is one past the highest ordinal, or zero.\<close>

abbreviation countOrdinals :: "(k8sPod \<Rightarrow> int32 option) \<Rightarrow> k8sPod list \<Rightarrow> int32 \<Rightarrow> int32" where
  "countOrdinals f \<equiv> fold (\<lambda>pod count. case f pod of Some i \<Rightarrow> max count (wrap32 (i + 1)) | None \<Rightarrow> count)"

lemma countOrdinals_ge: "c \<le> countOrdinals f pods c"
  by (induction pods arbitrary: c) (auto intro: order_trans [OF max.cobounded1] split: option.split)

lemma countOrdinals_counts: "pod \<in> set pods \<Longrightarrow> f pod = Some i \<Longrightarrow> wrap32 (i + 1) \<le> countOrdinals f pods c"
proof (induction pods arbitrary: c)
  case (Cons p pods)
  show ?case
  proof (cases "p = pod")
    case True
    with Cons.prems countOrdinals_ge [of "max c (wrap32 (i + 1))" f pods] show ?thesis by simp
  next
    case False
    with Cons show ?thesis by (simp split: option.split)
  qed
qed simp

lemma countOrdinals_reached:
  "countOrdinals f pods c = c \<or> (\<exists>pod \<in> set pods. \<exists>i. f pod = Some i \<and> countOrdinals f pods c = wrap32 (i + 1))"
proof (induction pods arbitrary: c)
  case (Cons p pods)
  show ?case
  proof (cases "f p")
    case None with Cons.IH [of c] show ?thesis by auto
  next
    case (Some i)
    with Cons.IH [of "max c (wrap32 (i + 1))"] show ?thesis by (auto simp: max_def split: if_splits)
  qed
qed simp

section \<open>The count to apply\<close>

record roleReplicas =
  rrName :: string
  rrDeclared :: int32
  rrApplied :: int32
  rrStatefulSet :: "StatefulSet option"

record replicaCounts =
  rcCoordinators :: roleReplicas
  rcData :: roleReplicas
  rcUnseenShrinks :: "string list"

definition cachedVersion :: "StatefulSet option \<Rightarrow> (string \<times> int64) option" where
  "cachedVersion = map_option (\<lambda>sts. (ssUID sts, ssGeneration sts))"

text \<open>The count the operator's own previous apply left.\<close>

definition currentCount :: "reader \<Rightarrow> string \<Rightarrow> string \<Rightarrow> stringMap \<Rightarrow> StatefulSet option \<Rightarrow> goerror + int32" where
  "currentCount rd namespace name selector sts =
     (case sts of
        Some found \<Rightarrow> (case ssReplicas found of Some n \<Rightarrow> Inr n | None \<Rightarrow> Inr 0)
      | None \<Rightarrow> runningOrdinals rd namespace name selector)"

text \<open>One round of the loop: the role's arithmetic, and whether its last shrink is still unseen.\<close>

definition resolveRole ::
  "reader \<Rightarrow> string \<Rightarrow> string \<Rightarrow> int32 \<Rightarrow> stringMap \<Rightarrow> StatefulSets \<Rightarrow>
   (goerror + roleReplicas \<times> bool) \<times> StatefulSets" where
  "resolveRole rd namespace name declared selector shrinks =
     (case getStatefulSet rd namespace name of
        Inl e \<Rightarrow> (Inl e, shrinks)
      | Inr sts \<Rightarrow>
          let (seen, shrinks') = Satisfied (namespace, name) (cachedVersion sts) shrinks in
          (case currentCount rd namespace name selector sts of
             Inl e \<Rightarrow> (Inl e, shrinks')
           | Inr current \<Rightarrow>
               (Inr (\<lparr>rrName = name, rrDeclared = declared, rrApplied = max declared current, rrStatefulSet = sts\<rparr>,
                     \<not> seen), shrinks')))"

definition replicaCountsOf ::
  "reader \<Rightarrow> MemgraphDBCluster \<Rightarrow> StatefulSets \<Rightarrow> (goerror + replicaCounts) \<times> StatefulSets" where
  "replicaCountsOf rd cluster shrinks =
     (case resolveRole rd (mcNamespace cluster) (CoordinatorName cluster) (DeclaredCoordinators cluster)
             (CoordinatorPodSelector cluster) shrinks of
        (Inl e, shrinks') \<Rightarrow> (Inl e, shrinks')
      | (Inr (coordinators, unseen), shrinks') \<Rightarrow>
          (case resolveRole rd (mcNamespace cluster) (DataName cluster) (DeclaredDataInstances cluster)
                  (DataPodSelector cluster) shrinks' of
             (Inl e, shrinks'') \<Rightarrow> (Inl e, shrinks'')
           | (Inr (data, unseen'), shrinks'') \<Rightarrow>
               (Inr \<lparr>rcCoordinators = coordinators, rcData = data,
                     rcUnseenShrinks = (if unseen then [rrName coordinators] else [])
                       @ (if unseen' then [rrName data] else [])\<rparr>, shrinks'')))"

lemma resolveRole_Inr:
  assumes "resolveRole rd namespace name declared selector shrinks = (Inr (role, unseen), shrinks')"
  obtains sts seen current where "getStatefulSet rd namespace name = Inr sts"
    and "Satisfied (namespace, name) (cachedVersion sts) shrinks = (seen, shrinks')"
    and "currentCount rd namespace name selector sts = Inr current" and "unseen = (\<not> seen)"
    and "role = \<lparr>rrName = name, rrDeclared = declared, rrApplied = max declared current, rrStatefulSet = sts\<rparr>"
  using assms by (auto simp: resolveRole_def split: sum.splits prod.splits)

text \<open>
  C14: the count a pass applies never takes a pod away. It is at least the declared count, at least the
  count the StatefulSet runs, and when there is no StatefulSet at all it covers the ordinal of every pod
  the last one left, whatever gaps there are below; and it is no more than one of these.
\<close>

theorem resolveRole_never_shrinks:
  assumes "resolveRole rd namespace name declared selector shrinks = (Inr (role, unseen), shrinks')"
    and "rList rd namespace selector = Inr pods"
  shows "declared \<le> rrApplied role
    \<and> (\<forall>sts n. rGet rd (namespace, name) = Found sts \<and> ssReplicas sts = Some n \<longrightarrow>
         n \<le> rrApplied role \<and> rrApplied role \<in> {declared, n})
    \<and> (rGet rd (namespace, name) = NotFound \<longrightarrow>
         (\<forall>i pod. pod \<in> set pods \<and> kpName pod = PodName name i \<and> 0 \<le> i \<and> i < int32_max \<longrightarrow> i < rrApplied role)
         \<and> (rrApplied role \<in> {declared, 0}
            \<or> (\<exists>pod \<in> set pods. \<exists>i. podOrdinal name (kpName pod) = Some i \<and> rrApplied role = wrap32 (i + 1))))"
proof -
  from resolveRole_Inr [OF assms(1)] obtain sts seen current where r:
    "getStatefulSet rd namespace name = Inr sts"
    "currentCount rd namespace name selector sts = Inr current"
    "role = \<lparr>rrName = name, rrDeclared = declared, rrApplied = max declared current, rrStatefulSet = sts\<rparr>" .
  let ?f = "\<lambda>pod. podOrdinal name (kpName pod)"
  have gone: "sts = None" "current = countOrdinals ?f pods 0" if "rGet rd (namespace, name) = NotFound"
  proof -
    from r(1) that show n: "sts = None" by (simp add: getStatefulSet_def)
    from r(2) assms(2) show "current = countOrdinals ?f pods 0" by (simp add: n currentCount_def runningOrdinals_def)
  qed
  have covered: "i < max declared current"
    if nf: "rGet rd (namespace, name) = NotFound" and pod: "pod \<in> set pods" "kpName pod = PodName name i"
      and i: "0 \<le> i" "i < int32_max" for i pod
  proof -
    from i have "is_int32 i" and w: "wrap32 (i + 1) = i + 1"
      by (auto simp: is_int32_def int32_min_def int32_max_def wrap32_id)
    with i pod(2) have "?f pod = Some i" by (simp add: pod_names.decode_encode)
    from countOrdinals_counts [of pod pods ?f i 0, OF pod(1) this] w gone(2) [OF nf] show ?thesis by simp
  qed
  have one: "max declared current \<in> {declared, 0} \<or>
      (\<exists>pod \<in> set pods. \<exists>i. ?f pod = Some i \<and> max declared current = wrap32 (i + 1))"
    if "rGet rd (namespace, name) = NotFound"
    using countOrdinals_reached [of ?f pods 0] gone(2) [OF that] by (auto simp: max_def)
  have found: "n = current" if "rGet rd (namespace, name) = Found s" "ssReplicas s = Some n" for s n
    using r(1,2) that by (auto simp: getStatefulSet_def currentCount_def)
  show ?thesis using covered one found by (simp add: r(3)) (auto simp: max_def)
qed

definition exStatefulSet :: "int64 \<Rightarrow> int32 \<Rightarrow> StatefulSet" where
  "exStatefulSet generation n = \<lparr>ssName = ''d'', ssUID = ''u'', ssDeleting = False, ssTemplates = [], ssGeneration = generation, ssReplicas = Some n,
     ssStatusReplicas = n, ssReadyReplicas = n, ssUpdateRevision = ''r1'', ssObservedGeneration = generation,
     ssAnnotations = []\<rparr>"

definition exReader :: "StatefulSet getResult \<Rightarrow> k8sPod list \<Rightarrow> reader" where
  "exReader found pods = \<lparr>rGet = (\<lambda>_. found), rList = (\<lambda>_ _. Inr pods)\<rparr>"

definition exK8sPod :: "string \<Rightarrow> k8sPod" where
  "exK8sPod name = \<lparr>kpName = name, kpUID = name, kpDeleting = False, kpLabels = [], kpAnnotations = [],
     kpConditions = [(''Ready'', ''True'')]\<rparr>"

theorem resolveRole_never_shrinks_witness:
  "rrApplied (fst (projr (fst (resolveRole (exReader NotFound [exK8sPod ''d-3'', exK8sPod ''d-1'']) ''ns'' ''d'' 2 [] Map.empty)))) > 3"
proof -
  let ?rd = "exReader NotFound [exK8sPod ''d-3'', exK8sPod ''d-1'']"
  obtain role unseen s' where r: "resolveRole ?rd ''ns'' ''d'' 2 [] Map.empty = (Inr (role, unseen), s')"
    by (auto simp: resolveRole_def getStatefulSet_def exReader_def currentCount_def runningOrdinals_def Satisfied_def)
  have l: "rList ?rd ''ns'' [] = Inr [exK8sPod ''d-3'', exK8sPod ''d-1'']" and nf: "rGet ?rd (''ns'', ''d'') = NotFound"
    by (simp_all add: exReader_def)
  have pod: "kpName (exK8sPod ''d-3'') = PodName ''d'' 3"
    by code_simp
  from resolveRole_never_shrinks [OF r l] nf
  have "\<forall>i pod. pod \<in> set [exK8sPod ''d-3'', exK8sPod ''d-1''] \<and> kpName pod = PodName ''d'' i
      \<and> 0 \<le> i \<and> i < int32_max \<longrightarrow> i < rrApplied role" by (elim conjE) blast
  from this [rule_format, of "exK8sPod ''d-3''" 3] pod have "3 < rrApplied role" by (simp add: int32_max_def)
  then show ?thesis by (simp add: r)
qed

section \<open>A shrink is never undone\<close>

text \<open>The passes after a shrink, each with the cache as it then is.\<close>

fun resolvePasses ::
  "reader list \<Rightarrow> string \<Rightarrow> string \<Rightarrow> int32 \<Rightarrow> stringMap \<Rightarrow> StatefulSets \<Rightarrow> (goerror + roleReplicas \<times> bool) list" where
  "resolvePasses [] namespace name declared selector shrinks = []"
| "resolvePasses (rd # rds) namespace name declared selector shrinks =
     (let (result, shrinks') = resolveRole rd namespace name declared selector shrinks in
      result # resolvePasses rds namespace name declared selector shrinks')"

definition shows_version :: "string \<Rightarrow> string \<Rightarrow> string \<Rightarrow> int64 \<Rightarrow> int32 \<Rightarrow> reader \<Rightarrow> bool" where
  "shows_version namespace name uid generation declared rd \<longleftrightarrow>
     (\<exists>sts. rGet rd (namespace, name) = Found sts \<and> ssUID sts = uid
        \<and> (ssGeneration sts \<ge> generation \<longrightarrow> ssReplicas sts = Some declared))"

definition cachedGeneration :: "string \<Rightarrow> string \<Rightarrow> reader \<Rightarrow> int64" where
  "cachedGeneration namespace name rd =
     (case rGet rd (namespace, name) of Found sts \<Rightarrow> ssGeneration sts | _ \<Rightarrow> 0)"

definition keepsShrink :: "int32 \<Rightarrow> goerror + roleReplicas \<times> bool \<Rightarrow> bool" where
  "keepsShrink declared result \<longleftrightarrow>
     (case result of Inl e \<Rightarrow> False | Inr (role, unseen) \<Rightarrow> unseen \<or> rrApplied role = declared)"

lemma resolveRole_Found:
  assumes "rGet rd (namespace, name) = Found sts"
  shows "resolveRole rd namespace name declared selector shrinks =
    (Inr (\<lparr>rrName = name, rrDeclared = declared,
           rrApplied = max declared (case ssReplicas sts of Some n \<Rightarrow> n | None \<Rightarrow> 0), rrStatefulSet = Some sts\<rparr>,
          \<not> fst (Satisfied (namespace, name) (cachedVersion (Some sts)) shrinks)),
     snd (Satisfied (namespace, name) (cachedVersion (Some sts)) shrinks))"
  using assms
  by (auto simp: resolveRole_def getStatefulSet_def currentCount_def Let_def split: prod.splits option.splits)

lemma resolvePasses_idle:
  assumes "\<forall>rd \<in> set rds. shows_version namespace name uid generation declared rd
      \<and> generation \<le> cachedGeneration namespace name rd" and "shrinks (namespace, name) = None"
  shows "\<forall>result \<in> set (resolvePasses rds namespace name declared selector shrinks). keepsShrink declared result"
  using assms
proof (induction rds)
  case (Cons rd rds)
  from Cons.prems(1) obtain sts where sts: "rGet rd (namespace, name) = Found sts" "ssReplicas sts = Some declared"
    by (auto simp: shows_version_def cachedGeneration_def)
  from Cons show ?case
    using sts statefulsets.stays_idle [of shrinks "(namespace, name)", OF Cons.prems(2)] by (auto simp: resolveRole_Found keepsShrink_def)
qed simp

lemma resolvePasses_awaiting:
  assumes "\<forall>rd \<in> set rds. shows_version namespace name uid generation declared rd"
    and "sorted (map (cachedGeneration namespace name) rds)"
    and "shrinks (namespace, name) = Some \<lparr>wUID = uid, wGeneration = generation\<rparr>"
  shows "\<forall>result \<in> set (resolvePasses rds namespace name declared selector shrinks). keepsShrink declared result"
  using assms
proof (induction rds)
  case (Cons rd rds)
  from Cons.prems(1) obtain sts where sts: "rGet rd (namespace, name) = Found sts" "ssUID sts = uid"
      "ssGeneration sts \<ge> generation \<longrightarrow> ssReplicas sts = Some declared"
    by (auto simp: shows_version_def)
  let ?seen = "Satisfied (namespace, name) (cachedVersion (Some sts)) shrinks"
  show ?case
  proof (cases "ssGeneration sts < generation")
    case True
    with sts(2) have "staleCopy uid generation (cachedVersion (Some sts))"
      by (simp add: staleCopy_def cachedVersion_def)
    from statefulsets.refuses [of shrinks "(namespace, name)", OF Cons.prems(3) this] Cons sts(1) show ?thesis
      by (auto simp: resolveRole_Found keepsShrink_def)
  next
    case False
    with sts(2) have "\<not> staleCopy uid generation (cachedVersion (Some sts))"
      by (simp add: staleCopy_def cachedVersion_def)
    from statefulsets.trusts [of shrinks "(namespace, name)", OF Cons.prems(3) this] have seen: "fst ?seen" "snd ?seen (namespace, name) = None"
      by simp_all
    from False Cons.prems(2) sts(1) have "\<forall>rd' \<in> set rds. generation \<le> cachedGeneration namespace name rd'"
      by (fastforce simp: cachedGeneration_def)
    with Cons.prems(1)
    have "\<forall>result \<in> set (resolvePasses rds namespace name declared selector (snd ?seen)). keepsShrink declared result"
      by (intro resolvePasses_idle [where uid = uid and generation = generation] seen(2)) auto
    with False sts seen show ?thesis by (simp add: resolveRole_Found keepsShrink_def)
  qed
qed simp

text \<open>
  C13: the pods a shrink took away do not come back. In all passes after the shrink was written, each
  either says that its cache does not show the shrink yet, and is then abandoned, or applies the declared
  count; given only that the cache does not go back in time and shows the declared count from the
  shrink's generation on.
\<close>

theorem shrink_not_undone:
  assumes "\<forall>rd \<in> set rds. shows_version namespace name uid generation declared rd"
    and "sorted (map (cachedGeneration namespace name) rds)"
  shows "\<forall>result \<in> set (resolvePasses rds namespace name declared selector
      (Expect (namespace, name) uid generation shrinks)). keepsShrink declared result"
  using resolvePasses_awaiting [OF assms] statefulsets.expects by blast

theorem shrink_not_undone_witness:
  "list_all (keepsShrink 2) (resolvePasses [exReader (Found (exStatefulSet 4 5)) [], exReader (Found (exStatefulSet 5 2)) []]
      ''ns'' ''d'' 2 [] (Expect (''ns'', ''d'') ''u'' 5 Map.empty))"
  unfolding list_all_iff
  by (rule shrink_not_undone) (simp_all add: shows_version_def cachedGeneration_def exReader_def exStatefulSet_def)

section \<open>The pods as the rolling restart sees them\<close>

text \<open>\<open>appsv1.StatefulSetRevisionLabel\<close>, and the two annotations of \<open>src/internal/resources/flags.go\<close>.\<close>

definition revisionLabel :: string where "revisionLabel = ''controller-revision-hash''"
definition FlagsAnnotation :: string where "FlagsAnnotation = ''memgraph.com/flags''"
definition TemplateHashAnnotation :: string where "TemplateHashAnnotation = ''memgraph.com/template-hash''"

definition podReady :: "k8sPod \<Rightarrow> bool" where
  "podReady pod = (case find (\<lambda>(type, _). type = ''Ready'') (kpConditions pod) of
      Some (_, status) \<Rightarrow> status = ConditionTrue | None \<Rightarrow> False)"

record observedRole =
  orRole :: Role
  orFlags :: string
  orPodFlags :: "string \<Rightarrow> string option"
  orTemplate :: string
  orPodTemplates :: "string \<Rightarrow> string option"

definition observePod :: "(int32 \<Rightarrow> string) \<Rightarrow> int32 \<Rightarrow> k8sPod \<Rightarrow> Pod" where
  "observePod instanceName ordinal pod =
     \<lparr>pName = kpName pod, pUID = kpUID pod, pInstance = instanceName ordinal, pOrdinal = ordinal,
      pRevisionHash = get (kpLabels pod) revisionLabel, pCurrent = False,
      pReady = (\<not> kpDeleting pod \<and> podReady pod)\<rparr>"

text \<open>The ordinals from zero to the applied count whose pod is in the list, in order.\<close>

definition podsByOrdinal :: "string \<Rightarrow> int32 \<Rightarrow> k8sPod list \<Rightarrow> (int32 \<times> k8sPod) list" where
  "podsByOrdinal name applied pods =
     List.map_filter (\<lambda>ordinal. map_option (Pair ordinal) (index_by kpName pods (PodName name ordinal)))
       [0..applied - 1]"

definition podAnnotations :: "string \<Rightarrow> (int32 \<times> k8sPod) list \<Rightarrow> string \<Rightarrow> string option" where
  "podAnnotations annotation found name =
     map_option (\<lambda>(_, pod). get (kpAnnotations pod) annotation) (index_by (kpName \<circ> snd) found name)"

definition observeRolloutRole ::
  "reader \<Rightarrow> string \<Rightarrow> roleReplicas \<Rightarrow> stringMap \<Rightarrow> (int32 \<Rightarrow> string) \<Rightarrow> int64 \<Rightarrow> goerror + observedRole" where
  "observeRolloutRole rd namespace role selector instanceName appliedGeneration =
     (case rrStatefulSet role of
        None \<Rightarrow> Inr \<lparr>orRole = \<lparr>rReplicas = rrApplied role, rUpdateRevision = [], rStale = False, rPods = []\<rparr>,
            orFlags = [], orPodFlags = Map.empty, orTemplate = [], orPodTemplates = Map.empty\<rparr>
      | Some sts \<Rightarrow>
         (case rList rd namespace selector of
            Inl e \<Rightarrow> Inl (''listing pods of StatefulSet '' @ rrName role @ '': '' @ e)
          | Inr pods \<Rightarrow>
              let found = podsByOrdinal (rrName role) (rrApplied role) pods in
              Inr \<lparr>orRole = \<lparr>rReplicas = rrApplied role, rUpdateRevision = ssUpdateRevision sts,
                     rStale = (ssGeneration sts < appliedGeneration \<or> ssObservedGeneration sts \<noteq> ssGeneration sts),
                     rPods = map (\<lambda>(ordinal, pod). observePod instanceName ordinal pod) found\<rparr>,
                   orFlags = get (ssAnnotations sts) FlagsAnnotation,
                   orPodFlags = podAnnotations FlagsAnnotation found,
                   orTemplate = get (ssAnnotations sts) TemplateHashAnnotation,
                   orPodTemplates = podAnnotations TemplateHashAnnotation found\<rparr>))"

record rolloutRoles =
  rlCoordinators :: Role
  rlData :: Role
  rlCoordinatorFlags :: string
  rlDataFlags :: string
  rlPodFlags :: "string \<Rightarrow> string option"
  rlCoordinatorTemplate :: string
  rlDataTemplate :: string
  rlPodTemplates :: "string \<Rightarrow> string option"

text \<open>The applied objects are the generation the API server answered for each StatefulSet, zero for none.\<close>

definition observeRollout ::
  "reader \<Rightarrow> MemgraphDBCluster \<Rightarrow> replicaCounts \<Rightarrow> (string \<Rightarrow> int64) \<Rightarrow> goerror + rolloutRoles" where
  "observeRollout rd cluster replicas applied =
     (case observeRolloutRole rd (mcNamespace cluster) (rcCoordinators replicas) (CoordinatorPodSelector cluster)
             CoordinatorInstanceName (applied (rrName (rcCoordinators replicas))) of
        Inl e \<Rightarrow> Inl e
      | Inr coordinators \<Rightarrow>
         (case observeRolloutRole rd (mcNamespace cluster) (rcData replicas) (DataPodSelector cluster)
                 DataInstanceName (applied (rrName (rcData replicas))) of
            Inl e \<Rightarrow> Inl e
          | Inr data \<Rightarrow> Inr \<lparr>rlCoordinators = orRole coordinators, rlData = orRole data,
               rlCoordinatorFlags = orFlags coordinators, rlDataFlags = orFlags data,
               rlPodFlags = orPodFlags coordinators ++ orPodFlags data,
               rlCoordinatorTemplate = orTemplate coordinators, rlDataTemplate = orTemplate data,
               rlPodTemplates = orPodTemplates coordinators ++ orPodTemplates data\<rparr>))"

section \<open>The readiness gate\<close>

definition roleReady :: "roleReplicas \<Rightarrow> Role \<Rightarrow> bool" where
  "roleReady replicas role =
     (case rrStatefulSet replicas of
        None \<Rightarrow> False
      | Some sts \<Rightarrow>
          let required = (if InProgress role \<and> ssStatusReplicas sts = rrApplied replicas
                          then wrap32 (rrApplied replicas - 1) else rrApplied replicas)
          in \<not> ssReadyReplicas sts < required)"

definition workloadsReady :: "replicaCounts \<Rightarrow> rolloutRoles \<Rightarrow> bool" where
  "workloadsReady replicas roles \<longleftrightarrow>
     roleReady (rcCoordinators replicas) (rlCoordinators roles) \<and> roleReady (rcData replicas) (rlData roles)"

section \<open>The shrink that ends a retirement\<close>

text \<open>
  The apply of a StatefulSet at a count is an argument: what the API server answers is an error or the
  object's UID and generation. A role's step writes nothing when it retires nothing.
\<close>

type_synonym applySet = "string \<Rightarrow> int32 \<Rightarrow> goerror + string \<times> int64"

definition shedRole ::
  "applySet \<Rightarrow> string \<Rightarrow> nat \<Rightarrow> roleReplicas \<Rightarrow> StatefulSets \<Rightarrow> goerror option \<times> StatefulSets" where
  "shedRole applySet namespace retiring role shrinks =
     (if retiring = 0 then (None, shrinks)
      else case applySet (rrName role) (rrDeclared role) of
        Inl e \<Rightarrow> (Some e, shrinks)
      | Inr (uid, generation) \<Rightarrow> (None, Expect (namespace, rrName role) uid generation shrinks))"

definition shedRetiredPods ::
  "applySet \<Rightarrow> MemgraphDBCluster \<Rightarrow> Topology \<Rightarrow> replicaCounts \<Rightarrow> StatefulSets \<Rightarrow> goerror option \<times> StatefulSets" where
  "shedRetiredPods applySet cluster topology replicas shrinks =
     (case shedRole applySet (mcNamespace cluster) (length (tRetiringCoordinators topology))
             (rcCoordinators replicas) shrinks of
        (Some e, shrinks') \<Rightarrow> (Some e, shrinks')
      | (None, shrinks') \<Rightarrow>
          shedRole applySet (mcNamespace cluster) (length (tRetiringDataInstances topology)) (rcData replicas) shrinks')"

section \<open>What a pass observes\<close>

lemma podsByOrdinal_fst:
  "map fst (podsByOrdinal name applied pods) = filter (\<lambda>i. PodName name i \<in> kpName ` set pods) [0..applied - 1]"
proof -
  have "map fst (List.map_filter (\<lambda>ordinal. map_option (Pair ordinal) (f ordinal)) xs)
      = filter (\<lambda>i. f i \<noteq> None) xs" for f :: "int32 \<Rightarrow> 'b option" and xs
    by (induction xs) (auto simp: List.map_filter_simps split: option.splits)
  note this [of "\<lambda>i. index_by kpName pods (PodName name i)" "[0..applied - 1]"]
  then show ?thesis unfolding podsByOrdinal_def index_by_None not_not .
qed

lemma podsByOrdinal_mem:
  assumes "(i, pod) \<in> set (podsByOrdinal name applied pods)"
  shows "pod \<in> set pods \<and> kpName pod = PodName name i \<and> 0 \<le> i \<and> i < applied"
proof -
  from assms have "index_by kpName pods (PodName name i) = Some pod" "0 \<le> i" "i < applied"
    by (auto simp: podsByOrdinal_def List.map_filter_def)
  with index_by_SomeD [OF this(1)] show ?thesis by simp
qed

lemma observeRolloutRole_pods:
  assumes "observeRolloutRole rd namespace role selector instanceName g = Inr view"
    and "rrStatefulSet role = Some sts" and "rList rd namespace selector = Inr pods"
  shows "rPods (orRole view) =
      map (\<lambda>(ordinal, pod). observePod instanceName ordinal pod) (podsByOrdinal (rrName role) (rrApplied role) pods)"
    and "rReplicas (orRole view) = rrApplied role"
  using assms by (auto simp: observeRolloutRole_def Let_def)

lemma observed_names:
  "map pName (map (\<lambda>(ordinal, pod). observePod instanceName ordinal pod) (podsByOrdinal name applied pods))
     = map (PodName name) (map fst (podsByOrdinal name applied pods))"
  "map pInstance (map (\<lambda>(ordinal, pod). observePod instanceName ordinal pod) (podsByOrdinal name applied pods))
     = map instanceName (map fst (podsByOrdinal name applied pods))"
  using podsByOrdinal_mem [of _ _ name applied pods] by (auto simp: observePod_def)

text \<open>
  What the rolling restart sees of a role is its pods and nothing else: every pod in the list whose
  name is that of an ordinal below the applied count, once, in ordinal order, under the instance name of
  that ordinal and ready only if it is not being deleted; pods of any other name are never counted.
\<close>

theorem observeRolloutRole_exact:
  assumes "observeRolloutRole rd namespace role selector instanceName g = Inr view"
    and "rrStatefulSet role = Some sts" and "rList rd namespace selector = Inr pods"
  shows "map pOrdinal (rPods (orRole view))
      = filter (\<lambda>i. PodName (rrName role) i \<in> kpName ` set pods) [0..rrApplied role - 1]
    \<and> (\<forall>p \<in> set (rPods (orRole view)). pName p = PodName (rrName role) (pOrdinal p)
         \<and> pInstance p = instanceName (pOrdinal p)
         \<and> (\<exists>pod \<in> set pods. kpName pod = pName p \<and> kpUID pod = pUID p
              \<and> (pReady p \<longleftrightarrow> \<not> kpDeleting pod \<and> podReady pod)))
    \<and> (rStale (orRole view) \<longleftrightarrow> ssGeneration sts < g \<or> ssObservedGeneration sts \<noteq> ssGeneration sts)"
proof (intro conjI ballI)
  note pods = observeRolloutRole_pods(1) [OF assms]
  have "map pOrdinal (rPods (orRole view)) = map fst (podsByOrdinal (rrName role) (rrApplied role) pods)"
    by (auto simp: pods observePod_def)
  then show "map pOrdinal (rPods (orRole view))
      = filter (\<lambda>i. PodName (rrName role) i \<in> kpName ` set pods) [0..rrApplied role - 1]"
    by (simp add: podsByOrdinal_fst)
  show "rStale (orRole view) \<longleftrightarrow> ssGeneration sts < g \<or> ssObservedGeneration sts \<noteq> ssGeneration sts"
    using assms by (auto simp: observeRolloutRole_def Let_def)
  fix p assume "p \<in> set (rPods (orRole view))"
  then obtain i pod where m: "(i, pod) \<in> set (podsByOrdinal (rrName role) (rrApplied role) pods)"
      "p = observePod instanceName i pod" by (auto simp: pods)
  with podsByOrdinal_mem [OF m(1)] show "pName p = PodName (rrName role) (pOrdinal p)"
      "pInstance p = instanceName (pOrdinal p)"
      "\<exists>pod \<in> set pods. kpName pod = pName p \<and> kpUID pod = pUID p \<and> (pReady p \<longleftrightarrow> \<not> kpDeleting pod \<and> podReady pod)"
    by (auto simp: observePod_def)
qed

definition exReplicas :: "string \<Rightarrow> int64 \<Rightarrow> int32 \<Rightarrow> roleReplicas" where
  "exReplicas name generation n = \<lparr>rrName = name, rrDeclared = n, rrApplied = n,
     rrStatefulSet = Some (exStatefulSet generation n)\<rparr>"

theorem observeRolloutRole_exact_witness:
  "\<exists>view. observeRolloutRole (exReader NotFound [exK8sPod ''d-1'', exK8sPod ''x'']) ''ns'' (exReplicas ''d'' 3 2) []
        DataInstanceName 3 = Inr view
     \<and> (\<forall>p \<in> set (rPods (orRole view)). pName p = PodName ''d'' (pOrdinal p))"
proof -
  let ?rd = "exReader NotFound [exK8sPod ''d-1'', exK8sPod ''x'']"
  have l: "rList ?rd ''ns'' [] = Inr [exK8sPod ''d-1'', exK8sPod ''x'']" by (simp add: exReader_def)
  have s: "rrStatefulSet (exReplicas ''d'' 3 2) = Some (exStatefulSet 3 2)" and n: "rrName (exReplicas ''d'' 3 2) = ''d''"
    by (simp_all add: exReplicas_def)
  obtain view where v: "observeRolloutRole ?rd ''ns'' (exReplicas ''d'' 3 2) [] DataInstanceName 3 = Inr view"
    by (auto simp: observeRolloutRole_def s l Let_def)
  from observeRolloutRole_exact [OF v s l] have "\<forall>p \<in> set (rPods (orRole view)). pName p = PodName ''d'' (pOrdinal p)"
    unfolding n by blast
  with v show ?thesis by blast
qed

lemma role_names_differ: "PodName (CoordinatorName cluster) i \<noteq> PodName (DataName cluster) j"
  by (simp add: PodName_def CoordinatorName_def DataName_def coordinatorComponent_def dataComponent_def)

lemma observed_distinct:
  assumes "observeRolloutRole rd namespace role selector instanceName g = Inr view"
    and "\<And>i j. 0 \<le> i \<Longrightarrow> i < rrApplied role \<Longrightarrow> 0 \<le> j \<Longrightarrow> j < rrApplied role \<Longrightarrow>
      instanceName i = instanceName j \<Longrightarrow> i = j" and "rrApplied role \<le> int32_max"
  shows "distinct (map pName (rPods (orRole view))) \<and> distinct (map pInstance (rPods (orRole view)))
    \<and> set (map pName (rPods (orRole view))) \<subseteq> range (PodName (rrName role))"
proof (cases "rrStatefulSet role")
  case None
  with assms(1) show ?thesis by (auto simp: observeRolloutRole_def)
next
  case (Some sts)
  with assms(1) obtain pods where l: "rList rd namespace selector = Inr pods"
    by (auto simp: observeRolloutRole_def split: sum.splits)
  let ?is = "map fst (podsByOrdinal (rrName role) (rrApplied role) pods)"
  have is_range: "set ?is \<subseteq> {0..<rrApplied role}" and d: "distinct ?is"
    unfolding podsByOrdinal_fst by auto
  have "inj_on (PodName (rrName role)) (set ?is)"
    by (rule inj_onI) (simp add: PodName_def)
  moreover have "inj_on instanceName (set ?is)"
    using is_range assms(2) by (intro inj_onI) (meson atLeastLessThan_iff subsetD)
  ultimately have "distinct (map (PodName (rrName role)) ?is) \<and> distinct (map instanceName ?is)"
    using d distinct_map by metis
  then show ?thesis
    unfolding observeRolloutRole_pods(1) [OF assms(1) Some l] observed_names by auto
qed

text \<open>
  The hypotheses of the rolling restart are what the controller observes: whenever the pods of both
  roles are all there and ready and both statuses are current, the two roles that \<open>observeRollout\<close> reads
  off any list of pods are in the state from which \<open>roll_completes\<close> shows that the roll ends.
\<close>

theorem observeRollout_steady:
  assumes "observeRollout rd cluster replicas applied = Inr roles"
    and "rrName (rcCoordinators replicas) = CoordinatorName cluster" and "rrName (rcData replicas) = DataName cluster"
    and "rrApplied (rcCoordinators replicas) \<le> int32_max" and "rrApplied (rcData replicas) \<le> int32_max"
    and "\<not> rStale (rlData roles)" and "\<not> rStale (rlCoordinators roles)"
    and "present (rlData roles) = None" and "present (rlCoordinators roles) = None"
  shows "steady (rlData roles) (rlCoordinators roles)"
proof -
  from assms(1) obtain coordinators data where o:
    "observeRolloutRole rd (mcNamespace cluster) (rcCoordinators replicas) (CoordinatorPodSelector cluster)
       CoordinatorInstanceName (applied (rrName (rcCoordinators replicas))) = Inr coordinators"
    "observeRolloutRole rd (mcNamespace cluster) (rcData replicas) (DataPodSelector cluster)
       DataInstanceName (applied (rrName (rcData replicas))) = Inr data"
    "rlCoordinators roles = orRole coordinators" "rlData roles = orRole data"
    by (auto simp: observeRollout_def split: sum.splits)
  have "is_int32 i" if "0 \<le> i" "i < n" "n \<le> int32_max" for i n
    using that by (simp add: is_int32_def int32_min_def int32_max_def)
  then have inj: "CoordinatorInstanceName i = CoordinatorInstanceName j \<Longrightarrow> i = j"
      "DataInstanceName i = DataInstanceName j \<Longrightarrow> i = j"
    if "0 \<le> i" "i < n" "0 \<le> j" "j < n" "n \<le> int32_max" for i j n
    using that coordinator_instances.encode_inject [of i j] data_instances.encode_inject [of i j] by blast+
  have "distinct (map pName (rPods (rlCoordinators roles)))
      \<and> set (map pName (rPods (rlCoordinators roles))) \<subseteq> range (PodName (CoordinatorName cluster))"
    using observed_distinct [OF o(1) _ assms(4)] inj(1) assms(2,4) o(3) by metis
  moreover have "distinct (map pName (rPods (rlData roles))) \<and> distinct (map pInstance (rPods (rlData roles)))
      \<and> set (map pName (rPods (rlData roles))) \<subseteq> range (PodName (DataName cluster))"
    using observed_distinct [OF o(2) _ assms(5)] inj(2) assms(3,5) o(4) by metis
  moreover have "range (PodName (CoordinatorName cluster)) \<inter> range (PodName (DataName cluster)) = {}"
    using role_names_differ by blast
  ultimately have "distinct (map pName (rPods (rlData roles) @ rPods (rlCoordinators roles)))"
    unfolding map_append distinct_append by blast
  then show ?thesis using assms(6-9) \<open>distinct (map pName (rPods (rlData roles))) \<and> _\<close> by (simp add: steady_def)
qed

definition exPass :: "goerror + rolloutRoles" where
  "exPass = observeRollout (exReader NotFound [exK8sPod (PodName (DataName exCluster) 0),
       exK8sPod (PodName (CoordinatorName exCluster) 0)]) exCluster
     \<lparr>rcCoordinators = exReplicas (CoordinatorName exCluster) 3 1, rcData = exReplicas (DataName exCluster) 3 1,
      rcUnseenShrinks = []\<rparr> (\<lambda>_. 3)"

theorem observeRollout_steady_witness:
  "\<exists>roles. exPass = Inr roles \<and> steady (rlData roles) (rlCoordinators roles)"
proof -
  have "(case exPass of Inl e \<Rightarrow> False | Inr roles \<Rightarrow> \<not> rStale (rlData roles) \<and> \<not> rStale (rlCoordinators roles)
      \<and> present (rlData roles) = None \<and> present (rlCoordinators roles) = None)" by code_simp
  then obtain roles where r: "exPass = Inr roles" "\<not> rStale (rlData roles)" "\<not> rStale (rlCoordinators roles)"
      "present (rlData roles) = None" "present (rlCoordinators roles) = None"
    by (simp split: sum.splits)
  have "steady (rlData roles) (rlCoordinators roles)"
    by (rule observeRollout_steady [OF r(1) [unfolded exPass_def] _ _ _ _ r(2-5)])
      (simp_all add: exReplicas_def int32_max_def)
  with r(1) show ?thesis by blast
qed

section \<open>How far the one-pod rule reaches\<close>

text \<open>
  The pod a restart took down, recreated and not ready yet, and an edit of a role's template that none of
  its pods carries so far.
\<close>

definition takenDown :: "Pod \<Rightarrow> Pod \<Rightarrow> Role \<Rightarrow> Role" where
  "takenDown pod new role = role\<lparr>rPods := map (\<lambda>q. if pName q = pName pod then new\<lparr>pReady := False\<rparr> else q) (rPods role)\<rparr>"

definition editedTo :: "string \<Rightarrow> Role \<Rightarrow> Role \<Rightarrow> bool" where
  "editedTo revision role role' \<longleftrightarrow> role' = role\<lparr>rUpdateRevision := revision\<rparr> \<and> revision \<noteq> []
     \<and> (\<forall>p \<in> set (rPods role). pRevisionHash p \<noteq> [] \<and> pRevisionHash p \<noteq> revision \<and> \<not> pCurrent p)"

text \<open>Every pod of the data role ready, and all but one of the coordinators, in the counts of the StatefulSets.\<close>

definition oneCoordinatorDown :: "replicaCounts \<Rightarrow> bool" where
  "oneCoordinatorDown replicas \<longleftrightarrow> (\<exists>c d. rrStatefulSet (rcCoordinators replicas) = Some c \<and> rrStatefulSet (rcData replicas) = Some d
     \<and> ssStatusReplicas c = rrApplied (rcCoordinators replicas) \<and> ssReadyReplicas c = rrApplied (rcCoordinators replicas) - 1
     \<and> ssReadyReplicas d = rrApplied (rcData replicas)
     \<and> 0 \<le> rrApplied (rcCoordinators replicas) \<and> rrApplied (rcCoordinators replicas) \<le> int32_max
     \<and> 0 \<le> rrApplied (rcData replicas) \<and> rrApplied (rcData replicas) \<le> int32_max)"

lemma editedTo_outdated:
  assumes "editedTo revision data data'"
  shows "rPods data' = rPods data" "outdated data' = rPods data" "updated data' = []" "rStale data' = rStale data"
    "rReplicas data' = rReplicas data"
  using assms by (auto simp: editedTo_def outdated_def updated_def filter_id_conv filter_empty_conv)

text \<open>On pods that are all outdated and ready, a MAIN is all a data restart waits for.\<close>

lemma nextDataInstance_all_outdated:
  assumes "present data = None" "outdated data = rPods data" "updated data = []" "rPods data \<noteq> []"
    and "distinct (map pInstance (rPods data))" "mainInstance order m \<noteq> []"
  shows "\<exists>d. nextDataInstance order data m lags = Some d \<and> dAction d = Delete \<and> dPod d \<in> set (rPods data)"
proof (cases "highestOrdinalExcept (rPods data) (mainInstance order m)")
  case (Some p)
  have "replicating data m lags = None" by (simp add: replicating_None assms(3))
  with Some assms(1,2,6) highestOrdinalExcept_SomeD [OF Some] show ?thesis by (simp add: nextDataInstance_def Let_def)
next
  case None
  then have only: "\<forall>p \<in> set (rPods data). pInstance p = mainInstance order m" by (simp add: highestOrdinalExcept_None)
  obtain p ps where pods: "rPods data = p # ps" using assms(4) by (cases "rPods data") auto
  have "ps = []"
  proof (cases ps)
    case (Cons q qs)
    with only assms(5) show ?thesis by (simp add: pods)
  qed
  with assms(1) pods have "rReplicas data = 1" by (simp add: present_None wrap32_def)
  with None assms(1,2,6) show ?thesis by (simp add: nextDataInstance_def Let_def pods)
qed

text \<open>
  C15: The rule that at most one pod of the cluster is down at a time, across both roles, is kept by a
  coordinator restart but not by a data restart. Take any coordinator restart that \<open>Next\<close> decides while
  another coordinator is still outdated, and let the pod it took down be recreated but not ready, so the
  StatefulSet reports one ready coordinator too few. If the data template is edited at that moment, the
  readiness gate lets the next pass through, and whatever the pass then sees of the cluster, as long as it
  sees a MAIN, \<open>Next\<close> restarts a ready data pod: two pods are down.
\<close>

theorem data_restart_with_coordinator_down:
  assumes "Next order data coordinators observed lag = Some d" "dAction d = Delete" "dPod d \<notin> set (outdated data)"
    and "q \<in> set (outdated coordinators)" "pName q \<noteq> pName (dPod d)"
    and "rlCoordinators roles = takenDown (dPod d) new coordinators" "editedTo revision data (rlData roles)"
    and "rPods data \<noteq> []" "distinct (map pInstance (rPods data))" "oneCoordinatorDown replicas"
    and "mainInstance order' (index_rollout observed') \<noteq> []"
  shows "(\<exists>down \<in> set (rPods (rlCoordinators roles)). \<not> pReady down)
    \<and> workloadsReady replicas roles
    \<and> (\<exists>d'. Next order' (rlData roles) (rlCoordinators roles) observed' lag' = Some d' \<and> dAction d' = Delete
         \<and> dPod d' \<in> set (rPods (rlData roles)) \<and> pReady (dPod d'))"
proof -
  from Next_delete_coordinator [OF assms(1-3)] have coordinator: "dPod d \<in> set (outdated coordinators)" by simp
  note gates = Next_restart_gates [OF assms(1,2)]
  note data = editedTo_outdated [OF assms(7)]
  have "dPod d \<in> set (rPods coordinators)" "q \<in> set (rPods coordinators)"
    using coordinator assms(4) by (auto simp: outdated_def split: if_splits)
  then have pods: "new\<lparr>pReady := False\<rparr> \<in> set (rPods (takenDown (dPod d) new coordinators))"
    "q \<in> set (rPods (takenDown (dPod d) new coordinators))" using assms(5) by (auto simp: takenDown_def image_iff)
  have "q \<in> set (outdated (takenDown (dPod d) new coordinators))"
    using assms(4) pods(2) by (auto simp: outdated_def takenDown_def split: if_splits)
  then have rolling: "InProgress (rlCoordinators roles)" by (auto simp: InProgress_def assms(6))
  have editing: "InProgress (rlData roles)" using assms(8) by (simp add: InProgress_def data)
  have ready: "workloadsReady replicas roles"
    using assms(10) rolling editing
    by (auto simp: oneCoordinatorDown_def workloadsReady_def roleReady_def Let_def wrap32_id is_int32_def int32_min_def int32_max_def)
  have here: "present (rlData roles) = None" using gates by (simp add: present_None data)
  from nextDataInstance_all_outdated [OF here _ data(3) _ _ assms(11)] assms(8,9) obtain d' where
    "nextDataInstance order' (rlData roles) (index_rollout observed') (indexLag_rollout lag') = Some d'" "dAction d' = Delete"
    "dPod d' \<in> set (rPods (rlData roles))" by (auto simp: data)
  moreover have "\<not> rStale (rlCoordinators roles)" using gates by (simp add: assms(6) takenDown_def)
  ultimately have "\<exists>d'. Next order' (rlData roles) (rlCoordinators roles) observed' lag' = Some d' \<and> dAction d' = Delete
         \<and> dPod d' \<in> set (rPods (rlData roles)) \<and> pReady (dPod d')"
    using gates assms(8) by (auto simp: Next_unfold data)
  with pods(1) ready show ?thesis by (auto simp: assms(6) intro: bexI [of _ "new\<lparr>pReady := False\<rparr>"])
qed

text \<open>
  The witness: three coordinators to restart and two data pods, whose template is edited again once the
  pod of the highest coordinator is down.
\<close>

definition exToRoll :: Role where
  "exToRoll = exRole [exPod ''k0'' ''c1'' 0 ''old'', exPod ''k1'' ''c2'' 1 ''old'', exPod ''k2'' ''c3'' 2 ''old'']"

definition exRolling :: rolloutRoles where
  "exRolling = \<lparr>rlCoordinators = takenDown (exPod ''k2'' ''c3'' 2 ''old'') (exPod ''k2'' ''c3'' 2 ''new'') exToRoll,
     rlData = (exDataRole ''new'' ''new'')\<lparr>rUpdateRevision := ''newer''\<rparr>,
     rlCoordinatorFlags = [], rlDataFlags = [], rlPodFlags = Map.empty,
     rlCoordinatorTemplate = [], rlDataTemplate = [], rlPodTemplates = Map.empty\<rparr>"

definition exRollingCounts :: replicaCounts where
  "exRollingCounts = \<lparr>rcCoordinators = (exReplicas ''k'' 4 3)
       \<lparr>rrStatefulSet := Some ((exStatefulSet 4 3)\<lparr>ssReadyReplicas := 2\<rparr>)\<rparr>,
     rcData = exReplicas ''d'' 4 2, rcUnseenShrinks = []\<rparr>"

theorem data_restart_with_coordinator_down_witness:
  "\<exists>d d'. Next exOrder (exDataRole ''new'' ''new'') exToRoll exObserved exLags = Some d \<and> dAction d = Delete
     \<and> dPod d \<in> set (rPods exToRoll) \<and> workloadsReady exRollingCounts exRolling
     \<and> Next exOrder (rlData exRolling) (rlCoordinators exRolling) exObserved exLags = Some d' \<and> dAction d' = Delete
     \<and> dPod d' \<in> set (rPods (rlData exRolling))"
proof -
  have "map_option (\<lambda>d. (dAction d, dPod d)) (Next exOrder (exDataRole ''new'' ''new'') exToRoll exObserved exLags)
      = Some (Delete, exPod ''k2'' ''c3'' 2 ''old'')" by code_simp
  then obtain d where d: "Next exOrder (exDataRole ''new'' ''new'') exToRoll exObserved exLags = Some d" "dAction d = Delete"
    "dPod d = exPod ''k2'' ''c3'' 2 ''old''" by auto
  have out: "outdated (exDataRole ''new'' ''new'') = []" "outdated exToRoll = rPods exToRoll" by code_simp+
  then have coordinator: "dPod d \<notin> set (outdated (exDataRole ''new'' ''new''))" by simp
  have other: "exPod ''k0'' ''c1'' 0 ''old'' \<in> set (outdated exToRoll)" unfolding out(2) by (simp add: exToRoll_def exRole_def)
  have names: "pName (exPod ''k0'' ''c1'' 0 ''old'') \<noteq> pName (dPod d)" by (simp add: d(3) exPod_def)
  have roles: "rlCoordinators exRolling = takenDown (dPod d) (exPod ''k2'' ''c3'' 2 ''new'') exToRoll"
    by (simp add: exRolling_def d(3))
  have edited: "editedTo ''newer'' (exDataRole ''new'' ''new'') (rlData exRolling)"
    by (simp add: editedTo_def exRolling_def exDataRole_def exRole_def exPod_def)
  have pods: "rPods (exDataRole ''new'' ''new'') \<noteq> []" "distinct (map pInstance (rPods (exDataRole ''new'' ''new'')))"
    by (simp_all add: exDataRole_def exRole_def exPod_def)
  have counts: "oneCoordinatorDown exRollingCounts"
    by (simp add: oneCoordinatorDown_def exRollingCounts_def exReplicas_def exStatefulSet_def int32_max_def)
  have main: "mainInstance exOrder (index_rollout exObserved) \<noteq> []" by code_simp
  from data_restart_with_coordinator_down [OF d(1,2) coordinator other names roles edited pods counts main, of exLags]
  have "workloadsReady exRollingCounts exRolling"
    "\<exists>d'. Next exOrder (rlData exRolling) (rlCoordinators exRolling) exObserved exLags = Some d' \<and> dAction d' = Delete
         \<and> dPod d' \<in> set (rPods (rlData exRolling))" by blast+
  moreover have "dPod d \<in> set (rPods exToRoll)" by (simp add: d(3) exToRoll_def exRole_def)
  ultimately show ?thesis using d(1,2) by blast
qed

end
