(* ===== verification/External.thy ===== *)
theory External
  imports Replica_Counts
begin

text \<open>
  Exposing a cluster: \<open>src/internal/resources/external.go\<close>, \<open>gateway.go\<close> and \<open>service.go\<close>, which build
  the Services, the Gateway and its TCPRoutes and read addresses back off them, and the controller's
  \<open>observeExternalAccess\<close>, \<open>observeGatewayAccess\<close> and \<open>pruneKind\<close>.

  An object is a record of the fields the builders set; its kind and API version are its type. A map of
  annotations that is nil is the empty list. What the API server reports of a live object, its
  annotations and addresses, is read through the argument of the functions that look at it.
\<close>

section \<open>Objects\<close>

definition ExternalAccessLabel :: string where "ExternalAccessLabel = ''memgraph.com/external-access''"
definition ExternalAccessValue :: string where "ExternalAccessValue = ''true''"
definition externalSuffix :: string where "externalSuffix = ''-external''"
definition boltPortName :: string where "boltPortName = ''bolt''"
definition managementPortName :: string where "managementPortName = ''management''"
definition coordinatorPortName :: string where "coordinatorPortName = ''coordinator''"
definition replicationPortName :: string where "replicationPortName = ''replication''"
definition metricsPortName :: string where "metricsPortName = ''metrics''"
definition gatewayComponent :: string where "gatewayComponent = ''gateway''"
definition coordinatorsListener :: string where "coordinatorsListener = ''coordinators-bolt''"

definition dataListener :: "int32 \<Rightarrow> string" where
  "dataListener ordinal = ''data-'' @ itoa ordinal @ ''-bolt''"

text \<open>\<open>appsv1.StatefulSetPodNameLabel\<close>, which the StatefulSet controller stamps on a pod.\<close>

definition podNameLabel :: string where "podNameLabel = ''statefulset.kubernetes.io/pod-name''"

record Service_ =
  svName :: string
  svNamespace :: string
  svLabels :: stringMap
  svAnnotations :: stringMap
  svType :: string
  svClusterIP :: string
  svSelector :: stringMap
  svPublishNotReady :: bool
  svPorts :: "(string \<times> int32) list"

record Listener =
  ltName :: string
  ltPort :: int32

record Gateway_ =
  gwName :: string
  gwNamespace :: string
  gwLabels :: stringMap
  gwAnnotations :: stringMap
  gwClassName :: string
  gwListeners :: "Listener list"

record TCPRoute =
  trName :: string
  trNamespace :: string
  trLabels :: stringMap
  trAnnotations :: stringMap
  trParent :: string
  trSection :: string
  trBackend :: string
  trPort :: int32

section \<open>Headless Services\<close>

definition headlessService ::
  "MemgraphDBCluster \<Rightarrow> string \<Rightarrow> string \<Rightarrow> stringMap \<Rightarrow> (string \<times> int32) list \<Rightarrow> Service_" where
  "headlessService cluster component name customLabels ports =
     \<lparr>svName = name, svNamespace = mcNamespace cluster, svLabels = labels cluster component customLabels,
      svAnnotations = [], svType = [], svClusterIP = ''None'', svSelector = selectorLabels cluster component,
      svPublishNotReady = True, svPorts = ports\<rparr>"

definition CoordinatorHeadlessService :: "MemgraphDBCluster \<Rightarrow> Service_" where
  "CoordinatorHeadlessService cluster =
     headlessService cluster coordinatorComponent (CoordinatorName cluster)
       (nroServiceLabels (nCoordinatorRole (normalize (mcSpec cluster))))
       [(boltPortName, BoltPort), (managementPortName, ManagementPort), (coordinatorPortName, CoordinatorPort),
        (metricsPortName, MetricsPort)]"

definition DataHeadlessService :: "MemgraphDBCluster \<Rightarrow> Service_" where
  "DataHeadlessService cluster =
     headlessService cluster dataComponent (DataName cluster)
       (nroServiceLabels (nDataRole (normalize (mcSpec cluster))))
       [(boltPortName, BoltPort), (managementPortName, ManagementPort), (replicationPortName, ReplicationPort),
        (metricsPortName, MetricsPort)]"

section \<open>External Services\<close>

definition ExternalServicesSelector :: "MemgraphDBCluster \<Rightarrow> stringMap" where
  "ExternalServicesSelector cluster =
     [(instanceLabel, mcName cluster), (ExternalAccessLabel, ExternalAccessValue)]"

definition CoordinatorExternalServiceName :: "MemgraphDBCluster \<Rightarrow> string" where
  "CoordinatorExternalServiceName cluster = CoordinatorName cluster @ externalSuffix"

definition DataExternalServiceName :: "MemgraphDBCluster \<Rightarrow> int32 \<Rightarrow> string" where
  "DataExternalServiceName cluster ordinal = DataName cluster @ ''-'' @ itoa ordinal @ externalSuffix"

definition serviceAnnotations :: "normalizedSpec \<Rightarrow> stringMap \<Rightarrow> stringMap" where
  "serviceAnnotations spec annotations =
     (if nexTyp (nExternal spec) = ExternalAccessGateway then [] else annotations)"

definition externalLabels :: "MemgraphDBCluster \<Rightarrow> string \<Rightarrow> stringMap \<Rightarrow> stringMap" where
  "externalLabels cluster component custom =
     mapsCopy (labels cluster component custom) [(ExternalAccessLabel, ExternalAccessValue)]"

text \<open>\<open>strings.ReplaceAll\<close> for a pattern that is not empty.\<close>

lemma cutPrefix_length: "cutPrefix s p = Some r \<Longrightarrow> length s = length p + length r"
  by (auto simp: cutPrefix_Some)

function replaceAll :: "string \<Rightarrow> string \<Rightarrow> string \<Rightarrow> string" where
  "replaceAll s pat new =
     (if pat = [] then s
      else case cutPrefix s pat of
          Some rest \<Rightarrow> new @ replaceAll rest pat new
        | None \<Rightarrow> (case s of [] \<Rightarrow> [] | c # cs \<Rightarrow> c # replaceAll cs pat new))"
  by pat_completeness auto
termination by (relation "measure (\<lambda>(s, _, _). length s)") (auto dest!: cutPrefix_length)

declare replaceAll.simps [simp del]

definition perInstanceAnnotations :: "stringMap \<Rightarrow> int32 \<Rightarrow> stringMap" where
  "perInstanceAnnotations annotations ordinal =
     map (\<lambda>(key, text). (key, replaceAll text OrdinalPlaceholder (itoa ordinal))) annotations"

definition externalService ::
  "MemgraphDBCluster \<Rightarrow> string \<Rightarrow> string \<Rightarrow> stringMap \<Rightarrow> normalizedSpec \<Rightarrow> normalizedRole \<Rightarrow>
   normalizedExternalRole \<Rightarrow> stringMap \<Rightarrow> Service_" where
  "externalService cluster component name selector spec role external annotations =
     (let custom = mapsCopy (mapsCopy [] (nroServiceLabels role)) (nerLabels external) in
      \<lparr>svName = name, svNamespace = mcNamespace cluster, svLabels = externalLabels cluster component custom,
       svAnnotations = annotations,
       svType = (if nexTyp (nExternal spec) = ExternalAccessGateway then ''ClusterIP'' else ''LoadBalancer''),
       svClusterIP = [], svSelector = selector, svPublishNotReady = False, svPorts = [(boltPortName, BoltPort)]\<rparr>)"

definition CoordinatorExternalService :: "MemgraphDBCluster \<Rightarrow> Service_" where
  "CoordinatorExternalService cluster =
     (let spec = normalize (mcSpec cluster) in
      externalService cluster coordinatorComponent (CoordinatorExternalServiceName cluster)
        (selectorLabels cluster coordinatorComponent) spec (nCoordinatorRole spec) (nexCoordinators (nExternal spec))
        (serviceAnnotations spec (nerAnnotations (nexCoordinators (nExternal spec)))))"

definition DataExternalService :: "MemgraphDBCluster \<Rightarrow> int32 \<Rightarrow> Service_" where
  "DataExternalService cluster ordinal =
     (let spec = normalize (mcSpec cluster) in
      externalService cluster dataComponent (DataExternalServiceName cluster ordinal)
        (mapsCopy (selectorLabels cluster dataComponent) [(podNameLabel, PodName (DataName cluster) ordinal)])
        spec (nDataRole spec) (nexData (nExternal spec))
        (serviceAnnotations spec (perInstanceAnnotations (nerAnnotations (nexData (nExternal spec))) ordinal)))"

text \<open>A negative replica count makes the capacity of the slice negative, which panics below minus one.\<close>

definition ExternalServices :: "MemgraphDBCluster \<Rightarrow> int32 \<Rightarrow> Service_ list option" where
  "ExternalServices cluster dataReplicas =
     (if spExternalAccess (mcSpec cluster) = None then Some []
      else if wrap32 (1 + dataReplicas) < 0 then None
      else Some (CoordinatorExternalService cluster # map (DataExternalService cluster) [0..dataReplicas - 1]))"

section \<open>The Gateway\<close>

definition GatewayName :: "MemgraphDBCluster \<Rightarrow> string" where
  "GatewayName cluster = mcName cluster @ ''-'' @ gatewayComponent"

definition CoordinatorTCPRouteName :: "MemgraphDBCluster \<Rightarrow> string" where
  "CoordinatorTCPRouteName cluster = CoordinatorName cluster @ ''-bolt''"

definition DataTCPRouteName :: "MemgraphDBCluster \<Rightarrow> int32 \<Rightarrow> string" where
  "DataTCPRouteName cluster ordinal = DataName cluster @ ''-'' @ itoa ordinal @ ''-bolt''"

definition UsesGateway :: "MemgraphDBCluster \<Rightarrow> bool" where
  "UsesGateway cluster \<longleftrightarrow> spExternalAccess (mcSpec cluster) \<noteq> None
     \<and> nexTyp (nExternal (normalize (mcSpec cluster))) = ExternalAccessGateway"

lemma UsesGateway_iff:
  "UsesGateway cluster \<longleftrightarrow> (case spExternalAccess (mcSpec cluster) of
     Some access \<Rightarrow> eaType access = ExternalAccessGateway | None \<Rightarrow> False)"
  by (auto simp: UsesGateway_def normalize_def normalizeExternal_def orDefault_def ExternalAccessGateway_def
      ExternalAccessLoadBalancer_def split: option.splits)

lemma DeclaredDataInstances_iff:
  "DeclaredDataInstances cluster = intOrDefault (spDataInstances (mcSpec cluster)) DefaultDataInstanceCount"
  by (simp add: DeclaredDataInstances_def normalize_def)

definition DataGatewayPort :: "MemgraphDBCluster \<Rightarrow> int32 \<Rightarrow> int32" where
  "DataGatewayPort cluster ordinal =
     wrap32 (ngwDataPortBase (nexGateway (nExternal (normalize (mcSpec cluster)))) + ordinal)"

definition emptyToNil :: "stringMap \<Rightarrow> stringMap" where
  "emptyToNil annotations = (if length annotations = 0 then [] else annotations)"

definition Gateway :: "MemgraphDBCluster \<Rightarrow> int32 \<Rightarrow> Gateway_ option" where
  "Gateway cluster dataReplicas =
     (let gw = nexGateway (nExternal (normalize (mcSpec cluster))) in
      if wrap32 (1 + dataReplicas) < 0 then None
      else Some \<lparr>gwName = GatewayName cluster, gwNamespace = mcNamespace cluster,
        gwLabels = externalLabels cluster gatewayComponent (ngwLabels gw),
        gwAnnotations = emptyToNil (ngwAnnotations gw), gwClassName = ngwClassName gw,
        gwListeners = \<lparr>ltName = coordinatorsListener, ltPort = BoltPort\<rparr>
          # map (\<lambda>ordinal. \<lparr>ltName = dataListener ordinal, ltPort = wrap32 (ngwDataPortBase gw + ordinal)\<rparr>)
              [0..dataReplicas - 1]\<rparr>)"

definition tcpRoute ::
  "MemgraphDBCluster \<Rightarrow> string \<Rightarrow> string \<Rightarrow> string \<Rightarrow> string \<Rightarrow> normalizedExternalRole \<Rightarrow> stringMap \<Rightarrow> TCPRoute" where
  "tcpRoute cluster component name listener backend external annotations =
     \<lparr>trName = name, trNamespace = mcNamespace cluster,
      trLabels = externalLabels cluster component (nerLabels external), trAnnotations = annotations,
      trParent = GatewayName cluster, trSection = listener, trBackend = backend, trPort = BoltPort\<rparr>"

definition CoordinatorTCPRoute :: "MemgraphDBCluster \<Rightarrow> TCPRoute" where
  "CoordinatorTCPRoute cluster =
     (let external = nexCoordinators (nExternal (normalize (mcSpec cluster))) in
      tcpRoute cluster coordinatorComponent (CoordinatorTCPRouteName cluster) coordinatorsListener
        (CoordinatorExternalServiceName cluster) external (nerAnnotations external))"

definition DataTCPRoute :: "MemgraphDBCluster \<Rightarrow> int32 \<Rightarrow> TCPRoute" where
  "DataTCPRoute cluster ordinal =
     (let external = nexData (nExternal (normalize (mcSpec cluster))) in
      tcpRoute cluster dataComponent (DataTCPRouteName cluster ordinal) (dataListener ordinal)
        (DataExternalServiceName cluster ordinal) external (perInstanceAnnotations (nerAnnotations external) ordinal))"

definition TCPRoutes :: "MemgraphDBCluster \<Rightarrow> int32 \<Rightarrow> TCPRoute list option" where
  "TCPRoutes cluster dataReplicas =
     (if wrap32 (1 + dataReplicas) < 0 then None
      else Some (CoordinatorTCPRoute cluster # map (DataTCPRoute cluster) [0..dataReplicas - 1]))"

section \<open>Addresses read back\<close>

text \<open>\<open>strings.TrimSpace\<close> on ASCII text.\<close>

definition trimSpace :: "string \<Rightarrow> string" where
  "trimSpace s = rev (dropWhile isSpace (rev (dropWhile isSpace s)))"

definition externalDNSHost :: "stringMap \<Rightarrow> string" where
  "externalDNSHost annotations =
     (let hostnames = get annotations ExternalDNSHostnameAnnotation in
      trimSpace (case cut hostnames '','' of Some (hostname, _) \<Rightarrow> hostname | None \<Rightarrow> hostnames))"

record LoadBalancerIngress =
  inHostname :: string
  inIP :: string

definition loadBalancerHost :: "LoadBalancerIngress list \<Rightarrow> string" where
  "loadBalancerHost ingress =
     (case find (\<lambda>e. inHostname e \<noteq> []) ingress of
        Some e \<Rightarrow> inHostname e
      | None \<Rightarrow> (case find (\<lambda>e. inIP e \<noteq> []) ingress of Some e \<Rightarrow> inIP e | None \<Rightarrow> []))"

record liveService =
  lvAnnotations :: stringMap
  lvIngress :: "LoadBalancerIngress list"

definition ExternalBoltAddress :: "liveService \<Rightarrow> string" where
  "ExternalBoltAddress service =
     (let dns = externalDNSHost (lvAnnotations service);
          host = (if dns = [] then loadBalancerHost (lvIngress service) else dns) in
      if host = [] then [] else hostPort host BoltPort)"

text \<open>An address of a Gateway's status: its type, when it has one, and its value.\<close>

type_synonym GatewayStatusAddress = "string option \<times> string"

definition gatewayHost :: "GatewayStatusAddress list \<Rightarrow> string" where
  "gatewayHost addresses =
     (case find (\<lambda>(type, host). type = Some ''Hostname'' \<and> host \<noteq> []) addresses of
        Some (_, host) \<Rightarrow> host
      | None \<Rightarrow> (case find (\<lambda>(type, host). (type = None \<or> type = Some ''IPAddress'') \<and> host \<noteq> []) addresses of
            Some (_, host) \<Rightarrow> host
          | None \<Rightarrow> []))"

record liveGateway =
  lgAnnotations :: stringMap
  lgAddresses :: "GatewayStatusAddress list"

text \<open>The route's annotations, when there is a route, and the Gateway, when there is one.\<close>

definition GatewayBoltAddress :: "liveGateway option \<Rightarrow> stringMap option \<Rightarrow> int32 \<Rightarrow> string" where
  "GatewayBoltAddress gateway route port =
     (let routeHost = (case route of Some annotations \<Rightarrow> externalDNSHost annotations | None \<Rightarrow> []);
          dnsHost = (if routeHost = [] then (case gateway of Some gw \<Rightarrow> externalDNSHost (lgAnnotations gw) | None \<Rightarrow> [])
            else routeHost);
          host = (if dnsHost = [] then (case gateway of Some gw \<Rightarrow> gatewayHost (lgAddresses gw) | None \<Rightarrow> [])
            else dnsHost) in
      if host = [] then [] else hostPort host port)"

end
