(* ===== verification/Volume_Growth.thy ===== *)
theory Volume_Growth
  imports Replica_Counts
begin

text \<open>
  \<open>reconcileVolumes\<close>, \<open>observeClaims\<close> and \<open>growClaim\<close> of the controller: one step of the resize that
  \<open>Volumes\<close> decides, issued to the API server. What a pass issues is the list of its actions; what the
  server answers to a patch or a delete is the argument \<open>server\<close>. A nil dereference is \<open>None\<close>.
\<close>

datatype answer = Accepted | GoneOrConflict | Rejected goerror | OtherError goerror

record volumeServer =
  vsListClaims :: "string \<Rightarrow> stringMap \<Rightarrow> goerror + PersistentVolumeClaim list"
  vsPatch :: "string \<Rightarrow> Quantity \<Rightarrow> answer"
  vsDelete :: "string \<Rightarrow> answer"

datatype action = PatchClaim string Quantity | DeleteOrphaning string

record claimedRole =
  crReplicas :: roleReplicas
  crDesiredName :: string
  crDesiredTemplates :: "claimTemplate list"
  crSelector :: stringMap

record volumeOutcome =
  voGrowing :: "string list"
  voErrors :: "string list"
  voRefused :: "string list"
  voFailed :: "string list"

definition noOutcome :: volumeOutcome where
  "noOutcome = \<lparr>voGrowing = [], voErrors = [], voRefused = [], voFailed = []\<rparr>"

definition done_volumes :: "volumeOutcome \<Rightarrow> bool" where
  "done_volumes o' \<longleftrightarrow> voGrowing o' = [] \<and> voRefused o' = [] \<and> voFailed o' = []"

definition observeClaims ::
  "reader \<Rightarrow> volumeServer \<Rightarrow> string \<Rightarrow> claimedRole \<Rightarrow> goerror + Role_volumes" where
  "observeClaims rd server namespace role =
     (let desired = TemplateSizes (crDesiredTemplates role);
          templates = sort (map fst desired) in
      case vsListClaims server namespace (crSelector role) of
        Inl e \<Rightarrow> Inl (''listing PersistentVolumeClaims of StatefulSet '' @ crDesiredName role @ '': '' @ e)
      | Inr pvcs \<Rightarrow>
         (case rList rd namespace (crSelector role) of
            Inl e \<Rightarrow> Inl (''listing pods of StatefulSet '' @ crDesiredName role @ '': '' @ e)
          | Inr pods \<Rightarrow> Inr \<lparr>rvStatefulSet = crDesiredName role, rvDesired = desired,
              rvLive = map_option (\<lambda>sts. TemplateSizes (ssTemplates sts)) (rrStatefulSet (crReplicas role)),
              rvClaims = List.map_filter (Observe (crDesiredName role) templates) pvcs,
              rvPods = List.map_filter (\<lambda>pod. map_option (\<lambda>ordinal. \<lparr>pvName = kpName pod, pvOrdinal = ordinal\<rparr>)
                (podOrdinal (crDesiredName role) (kpName pod))) pods\<rparr>))"

text \<open>The error of a patch, with whether the server refused it rather than failed.\<close>

definition growClaim :: "volumeServer \<Rightarrow> string \<Rightarrow> Quantity \<Rightarrow> (bool \<times> goerror) option" where
  "growClaim server claim newSize =
     (let wrapped = (\<lambda>e. ''patching PersistentVolumeClaim '' @ claim @ '': '' @ e) in
      case vsPatch server claim newSize of
        Accepted \<Rightarrow> None
      | GoneOrConflict \<Rightarrow> None
      | Rejected e \<Rightarrow> Some (True, wrapped e)
      | OtherError e \<Rightarrow> Some (False, wrapped e))"

fun growClaims ::
  "volumeServer \<Rightarrow> Patch list \<Rightarrow> volumeOutcome \<Rightarrow> volumeOutcome \<times> goerror option \<times> action list" where
  "growClaims server [] outcome = (outcome, None, [])"
| "growClaims server (p # ps) outcome =
     (case growClaim server (paClaim p) (paSize p) of
        Some (False, e) \<Rightarrow> (outcome, Some e, [PatchClaim (paClaim p) (paSize p)])
      | Some (True, e) \<Rightarrow>
          (let (outcome', err, acts) =
             growClaims server ps (outcome\<lparr>voRefused := voRefused outcome @ [paClaim p @ '': '' @ e]\<rparr>) in
           (outcome', err, PatchClaim (paClaim p) (paSize p) # acts))
      | None \<Rightarrow>
          (let (outcome', err, acts) = growClaims server ps outcome in
           (outcome', err, PatchClaim (paClaim p) (paSize p) # acts)))"

text \<open>The outcome, the message of a recreate under way, the error and the actions.\<close>

type_synonym volumeResult = "volumeOutcome \<times> string \<times> goerror option \<times> action list"

definition deletingMessage :: "string \<Rightarrow> string" where
  "deletingMessage name = ''Waiting for StatefulSet '' @ name @
     '' to be deleted before recreating it; its pods and claims are kept''"

definition recreatingMessage :: "string \<Rightarrow> string" where
  "recreatingMessage name = ''Recreating StatefulSet '' @ name @
     '' with the grown claim sizes; its pods and claims are kept''"

definition recreateSet :: "volumeServer \<Rightarrow> StatefulSet \<Rightarrow> volumeOutcome \<Rightarrow> volumeResult" where
  "recreateSet server live outcome =
     (case vsDelete server (ssName live) of
        Accepted \<Rightarrow> (outcome, recreatingMessage (ssName live), None, [DeleteOrphaning (ssName live)])
      | GoneOrConflict \<Rightarrow> (outcome, recreatingMessage (ssName live), None, [DeleteOrphaning (ssName live)])
      | Rejected e \<Rightarrow> (outcome, [], Some (''deleting StatefulSet '' @ ssName live @ '' to recreate it: '' @ e),
          [DeleteOrphaning (ssName live)])
      | OtherError e \<Rightarrow> (outcome, [], Some (''deleting StatefulSet '' @ ssName live @ '' to recreate it: '' @ e),
          [DeleteOrphaning (ssName live)]))"

fun reconcileVolumes ::
  "(Quantity \<Rightarrow> Quantity \<Rightarrow> int) \<Rightarrow> reader \<Rightarrow> volumeServer \<Rightarrow> string \<Rightarrow> claimedRole list \<Rightarrow> volumeOutcome
     \<Rightarrow> volumeResult option" where
  "reconcileVolumes cmp rd server namespace [] outcome = Some (outcome, [], None, [])"
| "reconcileVolumes cmp rd server namespace (role # roles) outcome =
     (let live = rrStatefulSet (crReplicas role) in
      if (\<exists>sts \<in> set_option live. ssDeleting sts) then Some (outcome, deletingMessage (ssName (the live)), None, [])
      else case observeClaims rd server namespace role of
        Inl e \<Rightarrow> Some (outcome, [], Some e, [])
      | Inr observed \<Rightarrow>
          let decision = Decide cmp observed in
          (case growClaims server (dvPatches decision) outcome of
             (outcome', Some e, acts) \<Rightarrow> Some (outcome', [], Some e, acts)
           | (outcome', None, acts) \<Rightarrow>
               let outcome'' = outcome'\<lparr>voGrowing := voGrowing outcome' @ dvGrowing decision,
                     voErrors := voErrors outcome' @ dvErrors decision,
                     voFailed := voFailed outcome' @ dvFailed decision\<rparr> in
               if dvRecreate decision then
                 map_option (\<lambda>sts. case recreateSet server sts outcome'' of
                   (out, message, err, rest) \<Rightarrow> (out, message, err, acts @ rest)) live
               else map_option (\<lambda>(out, message, err, rest). (out, message, err, acts @ rest))
                 (reconcileVolumes cmp rd server namespace roles outcome'')))"

section \<open>What a pass issues\<close>

lemma growClaims_acts:
  "growClaims server ps outcome = (outcome', err, acts) \<Longrightarrow>
     (\<exists>qs rs. ps = qs @ rs \<and> acts = map (\<lambda>p. PatchClaim (paClaim p) (paSize p)) qs \<and> (err = None \<longrightarrow> rs = []))"
proof (induction ps arbitrary: outcome outcome' err acts)
  case (Cons p ps)
  show ?case
  proof (cases "\<exists>e. growClaim server (paClaim p) (paSize p) = Some (False, e)")
    case True
    with Cons.prems show ?thesis by (auto intro: exI [of _ "[p]"])
  next
    case False
    then obtain o1 acts1 where g: "growClaims server ps o1 = (outcome', err, acts1)"
        "acts = PatchClaim (paClaim p) (paSize p) # acts1"
      using Cons.prems by (auto split: option.splits prod.splits bool.splits)
    from Cons.IH [OF g(1)] obtain qs rs where "ps = qs @ rs"
      "acts1 = map (\<lambda>p. PatchClaim (paClaim p) (paSize p)) qs" "err = None \<longrightarrow> rs = []" by blast
    with g(2) show ?thesis by (intro exI [of _ "p # qs"] exI [of _ rs]) simp
  qed
qed simp

lemma growClaims_no_delete: "growClaims server ps outcome = (outcome', err, acts) \<Longrightarrow> DeleteOrphaning n \<notin> set acts"
  by (auto dest: growClaims_acts)

lemma observeClaims_live:
  "observeClaims rd server namespace role = Inr observed \<Longrightarrow>
   rvLive observed = map_option (\<lambda>sts. TemplateSizes (ssTemplates sts)) (rrStatefulSet (crReplicas role))"
  by (auto simp: observeClaims_def Let_def split: sum.splits)

lemma Decide_recreate_live: "dvRecreate (Decide cmp role) \<Longrightarrow> rvLive role \<noteq> None \<and> dvPatches (Decide cmp role) = []"
  by (auto simp: Decide_def Let_def split: option.splits)

text \<open>
  A pass of the resize never dereferences a StatefulSet that does not exist: it always ends with an
  outcome, whatever the API server answers.
\<close>

theorem reconcileVolumes_total: "reconcileVolumes cmp rd server namespace roles outcome \<noteq> None"
proof (induction roles arbitrary: outcome)
  case (Cons role roles)
  have "rrStatefulSet (crReplicas role) \<noteq> None"
    if "observeClaims rd server namespace role = Inr observed" "dvRecreate (Decide cmp observed)" for observed
    using observeClaims_live [OF that(1)] Decide_recreate_live [OF that(2)] by auto
  then show ?case using Cons.IH by (auto simp: Let_def split: sum.split prod.split option.split simp del: not_None_eq)
qed simp

text \<open>A StatefulSet that a pass may give up: of one of the roles, live, grown and with every claim patched.\<close>

definition recreatable ::
  "(Quantity \<Rightarrow> Quantity \<Rightarrow> int) \<Rightarrow> reader \<Rightarrow> volumeServer \<Rightarrow> string \<Rightarrow> claimedRole \<Rightarrow> string \<Rightarrow> bool" where
  "recreatable cmp rd server namespace role name \<longleftrightarrow>
     (\<exists>sts observed. rrStatefulSet (crReplicas role) = Some sts \<and> ssName sts = name \<and> \<not> ssDeleting sts
        \<and> observeClaims rd server namespace role = Inr observed \<and> dvPatches (Decide cmp observed) = []
        \<and> dvRecreate (Decide cmp observed))"

lemma reconcileVolumes_delete:
  assumes "reconcileVolumes cmp rd server namespace roles outcome = Some (out, message, err, acts)"
    and "DeleteOrphaning name \<in> set acts"
  shows "(\<exists>before. acts = before @ [DeleteOrphaning name] \<and> (\<forall>n. DeleteOrphaning n \<notin> set before))
    \<and> (\<exists>role \<in> set roles. recreatable cmp rd server namespace role name)
    \<and> (message = recreatingMessage name \<or> err \<noteq> None)"
  using assms
proof (induction roles arbitrary: outcome acts)
  case (Cons role roles)
  let ?live = "rrStatefulSet (crReplicas role)"
  from Cons.prems have live: "\<not> (\<exists>sts \<in> set_option ?live. ssDeleting sts)"
    by (auto simp: Let_def split: if_splits)
  with Cons.prems obtain observed where o: "observeClaims rd server namespace role = Inr observed"
    by (auto simp: Let_def split: sum.splits if_splits)
  let ?d = "Decide cmp observed"
  obtain o1 err1 acts1 where g: "growClaims server (dvPatches ?d) outcome = (o1, err1, acts1)"
    by (metis prod_cases3)
  note nodel = growClaims_no_delete [OF g]
  from Cons.prems live o g nodel have err1: "err1 = None"
    by (cases err1) (auto simp: Let_def)
  let ?o = "o1\<lparr>voGrowing := voGrowing o1 @ dvGrowing ?d, voErrors := voErrors o1 @ dvErrors ?d,
    voFailed := voFailed o1 @ dvFailed ?d\<rparr>"
  show ?case
  proof (cases "dvRecreate ?d")
    case True
    with Decide_recreate_live observeClaims_live [OF o] obtain sts where sts: "?live = Some sts" "dvPatches ?d = []"
      by (metis map_option_is_None option.exhaust_sel)
    with g have "acts1 = []" by simp
    with Cons.prems live o g err1 True sts
    have "recreateSet server sts ?o = (out, message, err, acts)" by (auto simp: Let_def split: prod.splits)
    then have "acts = [DeleteOrphaning (ssName sts)]" "message = recreatingMessage (ssName sts) \<or> err \<noteq> None"
      by (auto simp: recreateSet_def split: answer.splits)
    moreover have "recreatable cmp rd server namespace role (ssName sts)"
      using sts live o True by (auto simp: recreatable_def)
    ultimately show ?thesis using Cons.prems(2) by auto
  next
    case False
    with Cons.prems(1) live o g err1 obtain acts2 where r:
      "reconcileVolumes cmp rd server namespace roles ?o = Some (out, message, err, acts2)" "acts = acts1 @ acts2"
      by (auto simp: Let_def)
    with Cons.prems(2) nodel have "DeleteOrphaning name \<in> set acts2" by auto
    from Cons.IH [OF r(1) this] obtain before where b: "acts2 = before @ [DeleteOrphaning name]"
        "\<forall>n. DeleteOrphaning n \<notin> set before" "\<exists>role \<in> set roles. recreatable cmp rd server namespace role name"
        "message = recreatingMessage name \<or> err \<noteq> None" by blast
    have "acts = (acts1 @ before) @ [DeleteOrphaning name]" "\<forall>n. DeleteOrphaning n \<notin> set (acts1 @ before)"
      using b(1,2) r(2) growClaims_no_delete [OF g] by auto
    with b(3,4) show ?thesis by auto
  qed
qed simp

text \<open>
  C17: claims first. A pass deletes at most one StatefulSet, as its very last action; it is one that is
  live and not being deleted already, whose templates have to grow and of whose claims none is left to
  patch; and such a pass says that it recreates that StatefulSet, or fails, so the caller never goes on
  to act on a cluster without it.
\<close>

theorem reconcileVolumes_claims_first:
  assumes "reconcileVolumes cmp rd server namespace roles noOutcome = Some (out, message, err, acts)"
    and "acts = before @ DeleteOrphaning name # after"
  shows "after = [] \<and> (\<forall>n. DeleteOrphaning n \<notin> set before)
    \<and> (\<exists>role \<in> set roles. recreatable cmp rd server namespace role name)
    \<and> (message = recreatingMessage name \<or> err \<noteq> None)"
proof -
  have "DeleteOrphaning name \<in> set acts" using assms(2) by simp
  from reconcileVolumes_delete [OF assms(1) this] obtain bef where d:
    "acts = bef @ [DeleteOrphaning name]" "\<forall>n. DeleteOrphaning n \<notin> set bef"
    "\<exists>role \<in> set roles. recreatable cmp rd server namespace role name"
    "message = recreatingMessage name \<or> err \<noteq> None" by blast
  have "after = []"
  proof (rule ccontr)
    assume "after \<noteq> []"
    then have "butlast acts = before @ DeleteOrphaning name # butlast after" using assms(2) by (simp add: butlast_append)
    with d(1,2) show False by auto
  qed
  with d assms(2) show ?thesis by auto
qed

definition exVolumeServer :: volumeServer where
  "exVolumeServer = \<lparr>vsListClaims = (\<lambda>_ _. Inr []), vsPatch = (\<lambda>_ _. Accepted), vsDelete = (\<lambda>_. Accepted)\<rparr>"

definition exGrownRole :: claimedRole where
  "exGrownRole = \<lparr>crReplicas = (exReplicas ''d'' 4 2)\<lparr>rrStatefulSet := Some ((exStatefulSet 4 2)
       \<lparr>ssTemplates := [\<lparr>ctName = ''lib'', ctRequests = [(ResourceStorage, ''5Gi'')]\<rparr>]\<rparr>)\<rparr>,
     crDesiredName = ''d'', crDesiredTemplates = [\<lparr>ctName = ''lib'', ctRequests = [(ResourceStorage, ''20Gi'')]\<rparr>],
     crSelector = []\<rparr>"

theorem reconcileVolumes_claims_first_witness:
  "recreatable lengthCmp (exReader NotFound []) exVolumeServer ''ns'' exGrownRole ''d''"
proof -
  have "map_option (\<lambda>(_, _, _, acts). acts)
      (reconcileVolumes lengthCmp (exReader NotFound []) exVolumeServer ''ns'' [exGrownRole] noOutcome)
      = Some [DeleteOrphaning ''d'']"
    by code_simp
  then obtain out message err where
    "reconcileVolumes lengthCmp (exReader NotFound []) exVolumeServer ''ns'' [exGrownRole] noOutcome
      = Some (out, message, err, [DeleteOrphaning ''d''])" by auto
  from reconcileVolumes_claims_first [OF this, of "[]" "''d''" "[]"] show ?thesis by auto
qed

end
