(* ===== verification/External_Access.thy ===== *)
theory External_Access
  imports External Volume_Growth
begin

text \<open>
  What the controller does with the external objects,
  \<open>src/internal/controller/memgraphdbcluster_controller.go\<close>: which ones it applies
  (\<open>desiredExternal\<close>), which ones it deletes (\<open>pruneExternal\<close>, \<open>pruneKind\<close>), and the addresses it
  reads back for the members (\<open>observeExternalAccess\<close>, \<open>observeGatewayAccess\<close>).

  A read of a live object is one answer per name, an argument of the functions that read. A delete
  answers as the API server does: accepted, gone or recreated, or an error.
\<close>

section \<open>Desired objects\<close>

datatype extObject = ServiceObject Service_ | GatewayObject Gateway_ | TCPRouteObject TCPRoute

fun objectKind :: "extObject \<Rightarrow> string" where
  "objectKind (ServiceObject _) = ''Service''"
| "objectKind (GatewayObject _) = ''Gateway''"
| "objectKind (TCPRouteObject _) = ''TCPRoute''"

fun objectName :: "extObject \<Rightarrow> string" where
  "objectName (ServiceObject s) = svName s"
| "objectName (GatewayObject g) = gwName g"
| "objectName (TCPRouteObject r) = trName r"

definition desiredExternal :: "bool \<Rightarrow> MemgraphDBCluster \<Rightarrow> int32 \<Rightarrow> extObject list option" where
  "desiredExternal gatewayAPI cluster dataReplicas =
     Option.bind (ExternalServices cluster dataReplicas) (\<lambda>services.
     if UsesGateway cluster \<and> gatewayAPI
     then Option.bind (Gateway cluster dataReplicas) (\<lambda>gateway.
          Option.bind (TCPRoutes cluster dataReplicas) (\<lambda>routes.
          Some (map ServiceObject services @ [GatewayObject gateway] @ map TCPRouteObject routes)))
     else Some (map ServiceObject services))"

section \<open>Pruning\<close>

record liveObject =
  loName :: string
  loUID :: string
  loController :: "string option"

record pruneServer =
  psList :: "string \<Rightarrow> string \<Rightarrow> stringMap \<Rightarrow> goerror + liveObject list"
  psDelete :: "string \<Rightarrow> string \<Rightarrow> string \<Rightarrow> answer"

text \<open>A delete that was sent: kind, name, and the UID it is conditioned on.\<close>

type_synonym deletion = "string \<times> string \<times> string"

definition keptNames :: "extObject list \<Rightarrow> string set" where
  "keptNames desired = set (map (\<lambda>obj. objectKind obj @ ''/'' @ objectName obj) desired)"

fun pruneItems ::
  "pruneServer \<Rightarrow> string \<Rightarrow> string \<Rightarrow> string set \<Rightarrow> liveObject list \<Rightarrow> goerror option \<times> deletion list" where
  "pruneItems srv clusterUID kind keep [] = (None, [])"
| "pruneItems srv clusterUID kind keep (obj # items) =
     (if kind @ ''/'' @ loName obj \<in> keep \<or> loController obj \<noteq> Some clusterUID
      then pruneItems srv clusterUID kind keep items
      else
        let sent = (kind, loName obj, loUID obj);
            proceed = (let (e, ds) = pruneItems srv clusterUID kind keep items in (e, sent # ds)) in
        case psDelete srv kind (loName obj) (loUID obj) of
          Accepted \<Rightarrow> proceed
        | GoneOrConflict \<Rightarrow> proceed
        | Rejected e \<Rightarrow> (Some (''deleting '' @ kind @ '' '' @ loName obj @ '': '' @ e), [sent])
        | OtherError e \<Rightarrow> (Some (''deleting '' @ kind @ '' '' @ loName obj @ '': '' @ e), [sent]))"

definition pruneKind ::
  "pruneServer \<Rightarrow> MemgraphDBCluster \<Rightarrow> string \<Rightarrow> string \<Rightarrow> stringMap \<Rightarrow> string set \<Rightarrow>
   goerror option \<times> deletion list" where
  "pruneKind srv cluster clusterUID kind selector keep =
     (case psList srv kind (mcNamespace cluster) selector of
        Inl e \<Rightarrow> (Some (''listing objects to prune: '' @ e), [])
      | Inr items \<Rightarrow> pruneItems srv clusterUID kind keep items)"

fun pruneKinds ::
  "pruneServer \<Rightarrow> MemgraphDBCluster \<Rightarrow> string \<Rightarrow> string list \<Rightarrow> stringMap \<Rightarrow> string set \<Rightarrow>
   goerror option \<times> deletion list" where
  "pruneKinds srv cluster clusterUID [] selector keep = (None, [])"
| "pruneKinds srv cluster clusterUID (kind # kinds) selector keep =
     (case pruneKind srv cluster clusterUID kind selector keep of
        (Some e, ds) \<Rightarrow> (Some e, ds)
      | (None, ds) \<Rightarrow> (let (e, ds') = pruneKinds srv cluster clusterUID kinds selector keep in (e, ds @ ds')))"

definition pruneExternal ::
  "bool \<Rightarrow> pruneServer \<Rightarrow> MemgraphDBCluster \<Rightarrow> string \<Rightarrow> extObject list \<Rightarrow> goerror option \<times> deletion list" where
  "pruneExternal gatewayAPI srv cluster clusterUID desired =
     pruneKinds srv cluster clusterUID
       (''Service'' # (if gatewayAPI then [''Gateway'', ''TCPRoute''] else []))
       (ExternalServicesSelector cluster) (keptNames desired)"

section \<open>Exposure\<close>

record externalAccess =
  xaAddresses :: ExternalAddresses
  xaPending :: "string list"
  xaFailure :: string
  xaStatus :: "ExternalAccessStatus option"

definition noExternalAccess :: externalAccess where
  "noExternalAccess = \<lparr>xaAddresses = \<lparr>exCoordinatorsAddr = [], exDataAddr = Map.empty\<rparr>, xaPending = [],
     xaFailure = [], xaStatus = None\<rparr>"

definition newExternalAccess :: externalAccess where
  "newExternalAccess = \<lparr>xaAddresses = \<lparr>exCoordinatorsAddr = [], exDataAddr = Map.empty\<rparr>, xaPending = [],
     xaFailure = [], xaStatus = Some \<lparr>easCoordinators = [], easData = []\<rparr>\<rparr>"

definition waitOn :: "string \<Rightarrow> externalAccess \<Rightarrow> externalAccess" where
  "waitOn name e = (if name \<in> set (xaPending e) then e else e\<lparr>xaPending := xaPending e @ [name]\<rparr>)"

definition announceCoordinators :: "string \<Rightarrow> string \<Rightarrow> externalAccess \<Rightarrow> externalAccess" where
  "announceCoordinators address waitingOn e =
     (let e = (if address = [] then waitOn waitingOn e else e) in
      e\<lparr>xaAddresses := (xaAddresses e)\<lparr>exCoordinatorsAddr := address\<rparr>,
        xaStatus := map_option (\<lambda>s. s\<lparr>easCoordinators := address\<rparr>) (xaStatus e)\<rparr>)"

definition announceData :: "int32 \<Rightarrow> string \<Rightarrow> string \<Rightarrow> externalAccess \<Rightarrow> externalAccess" where
  "announceData ordinal address waitingOn e =
     (let e = (if address = [] then waitOn waitingOn e
          else e\<lparr>xaAddresses := (xaAddresses e)\<lparr>exDataAddr := (exDataAddr (xaAddresses e))(ordinal \<mapsto> address)\<rparr>\<rparr>) in
      e\<lparr>xaStatus := map_option (\<lambda>s. s\<lparr>easData := easData s
          @ [\<lparr>xaName = DataInstanceName ordinal, xaAddress = address\<rparr>]\<rparr>) (xaStatus e)\<rparr>)"

text \<open>
  The loop over the declared data instances: \<open>address\<close> reads the address of one, or fails the pass;
  \<open>object\<close> names what it waits on.
\<close>

fun announceAll ::
  "(int32 \<Rightarrow> goerror + string) \<Rightarrow> (int32 \<Rightarrow> string) \<Rightarrow> int32 list \<Rightarrow> externalAccess \<Rightarrow> goerror + externalAccess" where
  "announceAll address object [] e = Inr e"
| "announceAll address object (ordinal # rest) e =
     (case address ordinal of
        Inl err \<Rightarrow> Inl err
      | Inr addr \<Rightarrow> announceAll address object rest (announceData ordinal addr (object ordinal) e))"

record exposureReader =
  xrService :: "string \<Rightarrow> liveService getResult"
  xrGateway :: "string \<Rightarrow> liveGateway getResult"
  xrRoute :: "string \<Rightarrow> stringMap getResult"

definition serviceAddress :: "exposureReader \<Rightarrow> string \<Rightarrow> goerror + string" where
  "serviceAddress rd name =
     (case xrService rd name of
        NotFound \<Rightarrow> Inr []
      | Failed e \<Rightarrow> Inl (''getting external Service '' @ name @ '': '' @ e)
      | Found service \<Rightarrow> Inr (ExternalBoltAddress service))"

definition routeAddress :: "exposureReader \<Rightarrow> liveGateway option \<Rightarrow> string \<Rightarrow> int32 \<Rightarrow> goerror + string" where
  "routeAddress rd gateway routeName port =
     (case gateway of None \<Rightarrow> Inr []
      | Some gw \<Rightarrow> (case xrRoute rd routeName of
            NotFound \<Rightarrow> Inr (GatewayBoltAddress (Some gw) None port)
          | Failed e \<Rightarrow> Inl (''getting TCPRoute '' @ routeName @ '': '' @ e)
          | Found annotations \<Rightarrow> Inr (GatewayBoltAddress (Some gw) (Some annotations) port)))"

definition minGatewayAPIRelease :: string where "minGatewayAPIRelease = ''Gateway API v1.6''"
definition minEnvoyGatewayRelease :: string where "minEnvoyGatewayRelease = ''v1.9''"

text \<open>\<open>missing\<close> is what discovery found lacking, \<open>version\<close> the Gateway API's group and version.\<close>

definition gatewayFailure :: "string \<Rightarrow> string \<Rightarrow> string" where
  "gatewayFailure missing version =
     ''The Gateway API version the operator needs is not served by this cluster ('' @ missing @ ''): it builds ''
       @ version @ '' Gateways and TCPRoutes, which '' @ minGatewayAPIRelease
       @ '' or newer serves and which a Gateway controller such as Envoy Gateway '' @ minEnvoyGatewayRelease
       @ '' or newer installs. Install it, then restart the operator''"

definition observeGatewayAccess ::
  "bool \<Rightarrow> string \<Rightarrow> string \<Rightarrow> exposureReader \<Rightarrow> MemgraphDBCluster \<Rightarrow> goerror + externalAccess" where
  "observeGatewayAccess gatewayAPI missing version rd cluster =
     (let name = GatewayName cluster;
          declared = [0..DeclaredDataInstances cluster - 1] in
      if \<not> gatewayAPI then
        announceAll (\<lambda>_. Inr []) (\<lambda>_. name) declared
          (announceCoordinators [] name (newExternalAccess\<lparr>xaFailure := gatewayFailure missing version\<rparr>))
      else
        let observe = (\<lambda>gateway.
              case routeAddress rd gateway (CoordinatorTCPRouteName cluster) BoltPort of
                Inl e \<Rightarrow> Inl e
              | Inr addr \<Rightarrow> announceAll
                  (\<lambda>ordinal. routeAddress rd gateway (DataTCPRouteName cluster ordinal) (DataGatewayPort cluster ordinal))
                  (\<lambda>_. name) declared (announceCoordinators addr name newExternalAccess)) in
        case xrGateway rd name of
          Failed e \<Rightarrow> Inl (''getting Gateway '' @ name @ '': '' @ e)
        | NotFound \<Rightarrow> observe None
        | Found gw \<Rightarrow> observe (Some gw))"

definition observeExternalAccess ::
  "bool \<Rightarrow> string \<Rightarrow> string \<Rightarrow> exposureReader \<Rightarrow> MemgraphDBCluster \<Rightarrow> goerror + externalAccess" where
  "observeExternalAccess gatewayAPI missing version rd cluster =
     (if spExternalAccess (mcSpec cluster) = None then Inr noExternalAccess
      else if UsesGateway cluster then observeGatewayAccess gatewayAPI missing version rd cluster
      else case serviceAddress rd (CoordinatorExternalServiceName cluster) of
          Inl e \<Rightarrow> Inl e
        | Inr addr \<Rightarrow> announceAll
            (\<lambda>ordinal. serviceAddress rd (DataExternalServiceName cluster ordinal))
            (DataExternalServiceName cluster) [0..DeclaredDataInstances cluster - 1]
            (announceCoordinators addr (CoordinatorExternalServiceName cluster) newExternalAccess))"

section \<open>What is announced\<close>

text \<open>
  The state of the exposure after the coordinators and the data instances of \<open>visited\<close> were announced.
\<close>

definition exposed :: "int32 list \<Rightarrow> string \<Rightarrow> externalAccess \<Rightarrow> bool" where
  "exposed visited failure e \<longleftrightarrow>
     xaStatus e = Some \<lparr>easCoordinators = exCoordinatorsAddr (xaAddresses e),
       easData = map (\<lambda>i. \<lparr>xaName = DataInstanceName i, xaAddress = dataAddress (xaAddresses e) i\<rparr>) visited\<rparr>
     \<and> dom (exDataAddr (xaAddresses e)) \<subseteq> set visited
     \<and> distinct (xaPending e)
     \<and> (xaPending e = [] \<longleftrightarrow> exCoordinatorsAddr (xaAddresses e) \<noteq> []
          \<and> [] \<notin> dataAddress (xaAddresses e) ` set visited)
     \<and> xaFailure e = failure"

lemma exposed_coordinators:
  "exposed [] failure (announceCoordinators addr object (newExternalAccess\<lparr>xaFailure := failure\<rparr>))"
  by (auto simp: exposed_def announceCoordinators_def newExternalAccess_def waitOn_def Let_def)

lemma exposed_data:
  assumes "exposed visited failure e" "i \<notin> set visited"
  shows "exposed (visited @ [i]) failure (announceData i addr object e)"
proof -
  have absent: "exDataAddr (xaAddresses e) i = None" using assms by (auto simp: exposed_def)
  have others: "map (\<lambda>j. \<lparr>xaName = DataInstanceName j,
      xaAddress = (case (if j = i then Some addr else exDataAddr (xaAddresses e) j) of Some a \<Rightarrow> a | None \<Rightarrow> [])\<rparr>) visited
    = map (\<lambda>j. \<lparr>xaName = DataInstanceName j, xaAddress = dataAddress (xaAddresses e) j\<rparr>) visited"
    using assms(2) by (auto simp: dataAddress_def)
  show ?thesis
  proof (cases "addr = []")
    case True
    with assms(1) absent show ?thesis
      by (auto simp: exposed_def announceData_def waitOn_def dataAddress_def Let_def)
  next
    case False
    with assms absent others show ?thesis
      by (auto simp: exposed_def announceData_def dataAddress_def Let_def)
  qed
qed

lemma exposed_all:
  "announceAll address object rest e = Inr e' \<Longrightarrow> exposed visited failure e \<Longrightarrow> distinct (visited @ rest)
   \<Longrightarrow> exposed (visited @ rest) failure e'"
proof (induction rest arbitrary: e visited)
  case (Cons i rest)
  then obtain addr where "announceAll address object rest (announceData i addr (object i) e) = Inr e'"
    by (auto split: sum.splits)
  from Cons.IH [OF this exposed_data [OF Cons.prems(2)], of] Cons.prems(3) show ?case by simp
qed simp

lemma newExternalAccess_failure: "newExternalAccess\<lparr>xaFailure := []\<rparr> = newExternalAccess"
  by (simp add: newExternalAccess_def)

lemma announced_exposed:
  assumes "announceAll address object [0..n - 1] (announceCoordinators addr name newExternalAccess) = Inr e"
  shows "exposed [0..n - 1] [] e"
  using exposed_all [OF assms, of "[]" "[]"] exposed_coordinators [of "[]" addr name]
  by (simp add: newExternalAccess_failure)

lemma observeGatewayAccess_exposed:
  assumes "observeGatewayAccess gatewayAPI missing version rd cluster = Inr e"
  shows "exposed [0..DeclaredDataInstances cluster - 1]
           (if gatewayAPI then [] else gatewayFailure missing version) e"
proof (cases gatewayAPI)
  case True
  with assms show ?thesis
    by (auto simp: observeGatewayAccess_def Let_def split: getResult.splits sum.splits intro: announced_exposed)
next
  case False
  with assms exposed_all [where visited = "[]" and failure = "gatewayFailure missing version", OF _ exposed_coordinators]
  show ?thesis by (auto simp: observeGatewayAccess_def Let_def)
qed

text \<open>
  What a pass that reads the external objects without an error records of an exposed cluster: the
  status lists the coordinators' address and, in order, every declared data instance with the address
  registration announces it at, and nothing else has one; each object waited on is named once; no object
  is waited on exactly when every member has an address; and a failure is reported exactly when the
  cluster asks for a Gateway on a cluster that does not serve the Gateway API.
\<close>

theorem observeExternalAccess_exact:
  assumes "observeExternalAccess gatewayAPI missing version rd cluster = Inr e"
    and "spExternalAccess (mcSpec cluster) \<noteq> None"
  shows "xaStatus e = Some \<lparr>easCoordinators = exCoordinatorsAddr (xaAddresses e),
       easData = map (\<lambda>i. \<lparr>xaName = DataInstanceName i, xaAddress = dataAddress (xaAddresses e) i\<rparr>)
         [0..DeclaredDataInstances cluster - 1]\<rparr>
     \<and> dom (exDataAddr (xaAddresses e)) \<subseteq> {0..<DeclaredDataInstances cluster}
     \<and> distinct (xaPending e)
     \<and> (xaPending e = [] \<longleftrightarrow> exCoordinatorsAddr (xaAddresses e) \<noteq> []
          \<and> (\<forall>i. 0 \<le> i \<and> i < DeclaredDataInstances cluster \<longrightarrow> dataAddress (xaAddresses e) i \<noteq> []))
     \<and> (xaFailure e \<noteq> [] \<longleftrightarrow> UsesGateway cluster \<and> \<not> gatewayAPI)"
proof -
  have failure: "gatewayFailure missing version \<noteq> []" by (simp add: gatewayFailure_def)
  have "exposed [0..DeclaredDataInstances cluster - 1]
      (if UsesGateway cluster \<and> \<not> gatewayAPI then gatewayFailure missing version else []) e"
    using assms observeGatewayAccess_exposed [of gatewayAPI missing version rd cluster e]
    by (auto simp: observeExternalAccess_def split: if_splits sum.splits intro: announced_exposed)
  then have e: "exposed [0..DeclaredDataInstances cluster - 1] (xaFailure e) e"
      "xaFailure e = (if UsesGateway cluster \<and> \<not> gatewayAPI then gatewayFailure missing version else [])"
    by (simp_all add: exposed_def)
  have declared: "set [0..DeclaredDataInstances cluster - 1] = {0..<DeclaredDataInstances cluster}" by auto
  moreover have "[] \<notin> dataAddress (xaAddresses e) ` set [0..DeclaredDataInstances cluster - 1]
      \<longleftrightarrow> (\<forall>i. 0 \<le> i \<and> i < DeclaredDataInstances cluster \<longrightarrow> dataAddress (xaAddresses e) i \<noteq> [])"
    unfolding declared by (auto simp: image_iff) (metis atLeastLessThan_iff)
  ultimately show ?thesis using e failure unfolding exposed_def by simp
qed

definition exExposed :: "string \<Rightarrow> int32 option \<Rightarrow> int32 option \<Rightarrow> MemgraphDBCluster" where
  "exExposed typ base declared = exCluster\<lparr>mcSpec := emptySpec\<lparr>spDataInstances := declared,
     spExternalAccess := Some \<lparr>eaType = typ,
       eaCoordinators = \<lparr>earLabels = [], earAnnotations = []\<rparr>,
       eaData = \<lparr>earLabels = [], earAnnotations = []\<rparr>,
       eaGateway = \<lparr>eagGatewayClassName = ''eg'', eagDataPortBase = base, eagLabels = [], eagAnnotations = []\<rparr>\<rparr>\<rparr>\<rparr>"

definition exExposureReader :: exposureReader where
  "exExposureReader = \<lparr>xrService = (\<lambda>name. if name = ''db-data-1-external'' then NotFound
       else Found \<lparr>lvAnnotations = [], lvIngress = [\<lparr>inHostname = [], inIP = ''10.0.0.7''\<rparr>]\<rparr>),
     xrGateway = (\<lambda>_. NotFound), xrRoute = (\<lambda>_. NotFound)\<rparr>"

theorem observeExternalAccess_exact_witness:
  "(case observeExternalAccess True [] [] exExposureReader (exExposed [] None (Some 2)) of
      Inl _ \<Rightarrow> False
    | Inr e \<Rightarrow> distinct (xaPending e) \<and> xaPending e = [''db-data-1-external'']
        \<and> map_option easData (xaStatus e) = Some [\<lparr>xaName = ''instance_0'', xaAddress = ''10.0.0.7:7687''\<rparr>,
             \<lparr>xaName = ''instance_1'', xaAddress = []\<rparr>])"
proof -
  have access: "UsesGateway (exExposed [] None (Some 2)) = False" "DeclaredDataInstances (exExposed [] None (Some 2)) = 2"
    by (simp_all add: UsesGateway_iff DeclaredDataInstances_iff exExposed_def emptySpec_def exCluster_def
        intOrDefault_def ExternalAccessGateway_def)
  have exposed_spec: "spExternalAccess (mcSpec (exExposed [] None (Some 2))) \<noteq> None" by (simp add: exExposed_def)
  have names: "CoordinatorExternalServiceName (exExposed [] None (Some 2)) = ''db-coordinator-external''"
    "DataExternalServiceName (exExposed [] None (Some 2)) 0 = ''db-data-0-external''"
    "DataExternalServiceName (exExposed [] None (Some 2)) 1 = ''db-data-1-external''"
    "DataInstanceName 0 = ''instance_0''" "DataInstanceName 1 = ''instance_1''"
    by code_simp+
  have two: "[0..1] = [0, 1 :: int]" by code_simp
  have digits: "digit 7 = CHR ''7''" "digit 6 = CHR ''6''" "digit 8 = CHR ''8''" by code_simp+
  have bolt: "hostPort host BoltPort = host @ '':7687''" for host
    by (simp add: hostPort_def BoltPort_def itoa_def utoa.simps digits)
  have run: "(case observeExternalAccess True [] [] exExposureReader (exExposed [] None (Some 2)) of
      Inl _ \<Rightarrow> False
    | Inr e \<Rightarrow> xaPending e = [''db-data-1-external'']
        \<and> map_option easData (xaStatus e) = Some [\<lparr>xaName = ''instance_0'', xaAddress = ''10.0.0.7:7687''\<rparr>,
             \<lparr>xaName = ''instance_1'', xaAddress = []\<rparr>])"
    by (simp add: observeExternalAccess_def access two serviceAddress_def exExposureReader_def names
        ExternalBoltAddress_def externalDNSHost_def get_def trimSpace_def loadBalancerHost_def cut.simps
        bolt announceCoordinators_def announceData_def waitOn_def newExternalAccess_def exposed_spec)
  then obtain e where e: "observeExternalAccess True [] [] exExposureReader (exExposed [] None (Some 2)) = Inr e"
    by (simp split: sum.splits)
  have "spExternalAccess (mcSpec (exExposed [] None (Some 2))) \<noteq> None" by (simp add: exExposed_def)
  from observeExternalAccess_exact [OF e this] e run show ?thesis by simp
qed

section \<open>What is pruned\<close>

definition prunable :: "string \<Rightarrow> string \<Rightarrow> string set \<Rightarrow> liveObject \<Rightarrow> bool" where
  "prunable clusterUID kind keep obj \<longleftrightarrow> loController obj = Some clusterUID \<and> kind @ ''/'' @ loName obj \<notin> keep"

abbreviation deletionOf :: "string \<Rightarrow> liveObject \<Rightarrow> deletion" where
  "deletionOf kind obj \<equiv> (kind, loName obj, loUID obj)"

lemma pruneItems_exact:
  "(case pruneItems srv uid kind keep items of (e, ds) \<Rightarrow>
      (\<exists>n. ds = map (deletionOf kind) (take n (filter (prunable uid kind keep) items)))
      \<and> (e = None \<longrightarrow> ds = map (deletionOf kind) (filter (prunable uid kind keep) items)))"
proof (induction items)
  case (Cons obj items)
  obtain e ds where rest: "pruneItems srv uid kind keep items = (e, ds)" by fastforce
  with Cons.IH obtain n where n: "ds = map (deletionOf kind) (take n (filter (prunable uid kind keep) items))"
    and all: "e = None \<longrightarrow> ds = map (deletionOf kind) (filter (prunable uid kind keep) items)" by auto
  show ?case
  proof (cases "prunable uid kind keep obj")
    case False
    then have "pruneItems srv uid kind keep (obj # items) = (e, ds)" using rest by (auto simp: prunable_def)
    with n all False show ?thesis by (auto intro: exI [of _ n])
  next
    case True
    have later: "\<exists>m. deletionOf kind obj # ds
        = map (deletionOf kind) (take m (obj # filter (prunable uid kind keep) items))"
      unfolding n by (rule exI [of _ "Suc n"]) simp
    have one: "\<exists>m. [deletionOf kind obj]
        = map (deletionOf kind) (take m (obj # filter (prunable uid kind keep) items))"
      by (rule exI [of _ 1]) simp
    then have step: "pruneItems srv uid kind keep (obj # items) =
        (case psDelete srv kind (loName obj) (loUID obj) of
           Accepted \<Rightarrow> (e, deletionOf kind obj # ds)
         | GoneOrConflict \<Rightarrow> (e, deletionOf kind obj # ds)
         | Rejected err \<Rightarrow> (Some (''deleting '' @ kind @ '' '' @ loName obj @ '': '' @ err), [deletionOf kind obj])
         | OtherError err \<Rightarrow> (Some (''deleting '' @ kind @ '' '' @ loName obj @ '': '' @ err), [deletionOf kind obj]))"
      using rest True by (simp add: prunable_def Let_def)
    have "filter (prunable uid kind keep) (obj # items) = obj # filter (prunable uid kind keep) items"
      using True by simp
    then show ?thesis unfolding step using all later one
      by (cases "psDelete srv kind (loName obj) (loUID obj)") simp_all
  qed
qed simp

lemma pruneKinds_exact:
  assumes "pruneKinds srv cluster uid kinds selector keep = (e, ds)"
  shows "(\<forall>(kind, name, u) \<in> set ds. kind \<in> set kinds
            \<and> (\<exists>items. psList srv kind (mcNamespace cluster) selector = Inr items
                 \<and> (\<exists>obj \<in> set items. deletionOf kind obj = (kind, name, u) \<and> prunable uid kind keep obj)))
         \<and> (e = None \<longrightarrow> (\<forall>kind \<in> set kinds. \<exists>items. psList srv kind (mcNamespace cluster) selector = Inr items
              \<and> (\<forall>obj \<in> set items. prunable uid kind keep obj \<longrightarrow> deletionOf kind obj \<in> set ds)))"
  using assms
proof (induction kinds arbitrary: e ds)
  case (Cons kind kinds)
  obtain e1 ds1 where first: "pruneKind srv cluster uid kind selector keep = (e1, ds1)" by fastforce
  obtain e2 ds2 where rest: "pruneKinds srv cluster uid kinds selector keep = (e2, ds2)" by fastforce
  show ?case
  proof (cases "psList srv kind (mcNamespace cluster) selector")
    case (Inl err)
    with Cons.prems show ?thesis by (auto simp: pruneKind_def)
  next
    case (Inr items)
    with first have run: "pruneItems srv uid kind keep items = (e1, ds1)" by (simp add: pruneKind_def)
    from pruneItems_exact [where srv = srv and uid = uid and kind = kind and keep = keep and items = items] run obtain n where
      part: "ds1 = map (deletionOf kind) (take n (filter (prunable uid kind keep) items))"
      and all: "e1 = None \<Longrightarrow> ds1 = map (deletionOf kind) (filter (prunable uid kind keep) items)" by auto
    have sent: "\<exists>obj \<in> set items. d = deletionOf kind obj \<and> prunable uid kind keep obj" if "d \<in> set ds1" for d
      using that part set_take_subset [of n "filter (prunable uid kind keep) items"] by auto
    show ?thesis
    proof (cases e1)
      case None
      with Cons.prems first rest have e: "e = e2" "ds = ds1 @ ds2" by simp_all
      from Cons.IH [OF rest] sent Inr all [OF None] show ?thesis unfolding e by fastforce
    next
      case (Some err)
      with Cons.prems first have e: "e = Some err" "ds = ds1" by simp_all
      from sent Inr show ?thesis unfolding e by fastforce
    qed
  qed
qed simp

text \<open>
  The external objects a spec asks for, by kind and name, at the count of data pods that is applied: none
  without the block, Services in both modes, the Gateway and its routes in Gateway mode only.
\<close>

definition wantedExternal :: "bool \<Rightarrow> MemgraphDBCluster \<Rightarrow> int32 \<Rightarrow> string \<Rightarrow> string \<Rightarrow> bool" where
  "wantedExternal gatewayAPI cluster applied kind name \<longleftrightarrow> spExternalAccess (mcSpec cluster) \<noteq> None
     \<and> (kind = ''Service'' \<and> name \<in> insert (CoordinatorExternalServiceName cluster) (DataExternalServiceName cluster ` {0..<applied})
        \<or> gatewayAPI \<and> UsesGateway cluster
          \<and> (kind = ''Gateway'' \<and> name = GatewayName cluster
             \<or> kind = ''TCPRoute'' \<and> name \<in> insert (CoordinatorTCPRouteName cluster) (DataTCPRouteName cluster ` {0..<applied})))"

lemma keptNames_iff:
  assumes "desiredExternal gatewayAPI cluster n = Some desired" "kind \<in> {''Service'', ''Gateway'', ''TCPRoute''}"
  shows "kind @ ''/'' @ name \<in> keptNames desired \<longleftrightarrow> wantedExternal gatewayAPI cluster n kind name"
proof -
  have kinds: "objectKind obj \<in> {''Service'', ''Gateway'', ''TCPRoute''}" for obj by (cases obj) simp_all
  have "k @ ''/'' @ x = l @ ''/'' @ y \<longleftrightarrow> k = l \<and> x = y"
    if "k \<in> {''Service'', ''Gateway'', ''TCPRoute''}" "l \<in> {''Service'', ''Gateway'', ''TCPRoute''}" for k l x y
    using that by auto
  from this [OF assms(2) kinds] have mem: "kind @ ''/'' @ name \<in> keptNames desired \<longleftrightarrow>
      (\<exists>obj \<in> set desired. kind = objectKind obj \<and> name = objectName obj)" by (auto simp: keptNames_def image_iff)
  have range: "set [0..n - 1] = {0..<n}" by auto
  have names: "svName (CoordinatorExternalService cluster) = CoordinatorExternalServiceName cluster"
    "svName (DataExternalService cluster i) = DataExternalServiceName cluster i"
    "trName (CoordinatorTCPRoute cluster) = CoordinatorTCPRouteName cluster" "trName (DataTCPRoute cluster i) = DataTCPRouteName cluster i" for i
    by (simp_all add: CoordinatorExternalService_def DataExternalService_def externalService_def CoordinatorTCPRoute_def
        DataTCPRoute_def tcpRoute_def Let_def)
  have "\<exists>gw. gwName gw = GatewayName cluster \<and> desired = map ServiceObject (if spExternalAccess (mcSpec cluster) = None then []
        else CoordinatorExternalService cluster # map (DataExternalService cluster) [0..n - 1])
      @ (if UsesGateway cluster \<and> gatewayAPI then [GatewayObject gw]
         @ map TCPRouteObject (CoordinatorTCPRoute cluster # map (DataTCPRoute cluster) [0..n - 1]) else [])"
    using assms(1) by (auto simp: desiredExternal_def ExternalServices_def Gateway_def TCPRoutes_def Let_def bind_eq_Some_conv
        UsesGateway_def split: if_splits intro: exI [of _ "undefined\<lparr>gwName := GatewayName cluster\<rparr>"])
  then obtain gw where gw: "gwName gw = GatewayName cluster" "desired = map ServiceObject (if spExternalAccess (mcSpec cluster) = None then []
        else CoordinatorExternalService cluster # map (DataExternalService cluster) [0..n - 1])
      @ (if UsesGateway cluster \<and> gatewayAPI then [GatewayObject gw]
         @ map TCPRouteObject (CoordinatorTCPRoute cluster # map (DataTCPRoute cluster) [0..n - 1]) else [])" by blast
  have services: "(\<exists>obj \<in> set (map ServiceObject (if spExternalAccess (mcSpec cluster) = None then []
        else CoordinatorExternalService cluster # map (DataExternalService cluster) [0..n - 1])). kind = objectKind obj \<and> name = objectName obj)
      \<longleftrightarrow> spExternalAccess (mcSpec cluster) \<noteq> None \<and> kind = ''Service''
        \<and> name \<in> insert (CoordinatorExternalServiceName cluster) (DataExternalServiceName cluster ` {0..<n})"
    by (cases "spExternalAccess (mcSpec cluster)") (auto simp: names range simp del: set_upto)
  have routes: "(\<exists>obj \<in> set (if UsesGateway cluster \<and> gatewayAPI then [GatewayObject gw]
         @ map TCPRouteObject (CoordinatorTCPRoute cluster # map (DataTCPRoute cluster) [0..n - 1]) else []). kind = objectKind obj \<and> name = objectName obj)
      \<longleftrightarrow> gatewayAPI \<and> UsesGateway cluster \<and> (kind = ''Gateway'' \<and> name = GatewayName cluster
             \<or> kind = ''TCPRoute'' \<and> name \<in> insert (CoordinatorTCPRouteName cluster) (DataTCPRouteName cluster ` {0..<n}))"
    by (cases "UsesGateway cluster \<and> gatewayAPI") (auto simp: names gw(1) range simp del: set_upto)
  have "UsesGateway cluster \<Longrightarrow> spExternalAccess (mcSpec cluster) \<noteq> None" by (simp add: UsesGateway_def)
  then show ?thesis unfolding wantedExternal_def mem unfolding gw(2) set_append bex_Un services routes by blast
qed

lemma DataExternalServiceName_inj:
  "DataExternalServiceName cluster i = DataExternalServiceName cluster j \<longleftrightarrow> i = j"
  by (simp add: DataExternalServiceName_def)

lemma DataExternalServiceName_not_coordinator:
  "DataExternalServiceName cluster i \<noteq> CoordinatorExternalServiceName cluster"
  by (simp add: DataExternalServiceName_def CoordinatorExternalServiceName_def DataName_def CoordinatorName_def
      coordinatorComponent_def dataComponent_def externalSuffix_def)

lemma DataTCPRouteName_inj: "DataTCPRouteName cluster i = DataTCPRouteName cluster j \<longleftrightarrow> i = j"
  by (simp add: DataTCPRouteName_def)

lemma DataTCPRouteName_not_coordinator: "DataTCPRouteName cluster i \<noteq> CoordinatorTCPRouteName cluster"
  by (simp add: DataTCPRouteName_def CoordinatorTCPRouteName_def DataName_def CoordinatorName_def
      coordinatorComponent_def dataComponent_def)

lemma pruneExternal_exact:
  assumes "desiredExternal gatewayAPI cluster applied = Some desired"
    and "pruneExternal gatewayAPI srv cluster uid desired = (err, ds)"
  shows "(kind, name, u) \<in> set ds \<Longrightarrow> \<not> wantedExternal gatewayAPI cluster applied kind name
      \<and> (\<exists>items. psList srv kind (mcNamespace cluster) (ExternalServicesSelector cluster) = Inr items
           \<and> (\<exists>obj \<in> set items. deletionOf kind obj = (kind, name, u) \<and> loController obj = Some uid))"
    and "err = None \<Longrightarrow> kind = ''Service'' \<or> gatewayAPI \<and> kind \<in> {''Gateway'', ''TCPRoute''} \<Longrightarrow>
      \<exists>items. psList srv kind (mcNamespace cluster) (ExternalServicesSelector cluster) = Inr items
        \<and> (\<forall>obj \<in> set items. loController obj = Some uid \<longrightarrow>
             (deletionOf kind obj \<in> set ds \<longleftrightarrow> \<not> wantedExternal gatewayAPI cluster applied kind (loName obj)))"
proof -
  note run = pruneKinds_exact [OF assms(2) [unfolded pruneExternal_def]]
  note kept = keptNames_iff [OF assms(1)]
  have sound: "\<not> wantedExternal gatewayAPI cluster applied kind name
      \<and> (\<exists>items. psList srv kind (mcNamespace cluster) (ExternalServicesSelector cluster) = Inr items
           \<and> (\<exists>obj \<in> set items. deletionOf kind obj = (kind, name, u) \<and> loController obj = Some uid))"
    if "(kind, name, u) \<in> set ds" for kind name u
  proof -
    from conjunct1 [OF run] that obtain items obj where
      kind: "kind \<in> set (''Service'' # (if gatewayAPI then [''Gateway'', ''TCPRoute''] else []))" and
      obj: "psList srv kind (mcNamespace cluster) (ExternalServicesSelector cluster) = Inr items" "obj \<in> set items"
      "deletionOf kind obj = (kind, name, u)" "prunable uid kind (keptNames desired) obj" by fast
    from kind have "kind \<in> {''Service'', ''Gateway'', ''TCPRoute''}" by (auto split: if_splits)
    from kept [OF this] obj show ?thesis by (auto simp: prunable_def)
  qed
  then show "(kind, name, u) \<in> set ds \<Longrightarrow> \<not> wantedExternal gatewayAPI cluster applied kind name
      \<and> (\<exists>items. psList srv kind (mcNamespace cluster) (ExternalServicesSelector cluster) = Inr items
           \<and> (\<exists>obj \<in> set items. deletionOf kind obj = (kind, name, u) \<and> loController obj = Some uid))" .
  assume e: "err = None" and kind: "kind = ''Service'' \<or> gatewayAPI \<and> kind \<in> {''Gateway'', ''TCPRoute''}"
  then have "kind \<in> {''Service'', ''Gateway'', ''TCPRoute''}" by auto
  note kept = kept [OF this]
  from kind have "kind \<in> set (''Service'' # (if gatewayAPI then [''Gateway'', ''TCPRoute''] else []))" by auto
  with conjunct2 [OF run] e obtain items where
    items: "psList srv kind (mcNamespace cluster) (ExternalServicesSelector cluster) = Inr items"
      "\<forall>obj \<in> set items. prunable uid kind (keptNames desired) obj \<longrightarrow> deletionOf kind obj \<in> set ds" by blast
  have "deletionOf kind obj \<in> set ds \<longleftrightarrow> \<not> wantedExternal gatewayAPI cluster applied kind (loName obj)"
    if "obj \<in> set items" "loController obj = Some uid" for obj
    using sound [of kind "loName obj" "loUID obj"] items(2) that kept by (auto simp: prunable_def)
  with items(1) show "\<exists>items. psList srv kind (mcNamespace cluster) (ExternalServicesSelector cluster) = Inr items
        \<and> (\<forall>obj \<in> set items. loController obj = Some uid \<longrightarrow>
             (deletionOf kind obj \<in> set ds \<longleftrightarrow> \<not> wantedExternal gatewayAPI cluster applied kind (loName obj)))" by blast
qed

text \<open>
  C18: What a pass prunes follows the spec and the applied data count, whether the \<open>externalAccess\<close> block
  is set or gone. Failing or not, it deletes an external object only when it listed it under the cluster's
  selector, the cluster controls it and nothing asks for it any more, each delete conditioned on the UID
  it listed. When it succeeds, every listed object of every kind it lists that the cluster controls is
  deleted exactly when it is no longer asked for: all of them once the block is removed, the Gateway and
  the routes once the type is no longer Gateway, and, while the block is there, the Services (and in
  Gateway mode the routes) of exactly the ordinals the applied count no longer runs, so a retiring instance
  keeps its way in until its pod is shed, and never the coordinators' Service.
\<close>

theorem prune_follows_applied:
  assumes "desiredExternal gatewayAPI cluster applied = Some desired"
    and "pruneExternal gatewayAPI srv cluster uid desired = (err, ds)"
  shows "(\<forall>(kind, name, u) \<in> set ds. \<not> wantedExternal gatewayAPI cluster applied kind name
      \<and> (\<exists>items. psList srv kind (mcNamespace cluster) (ExternalServicesSelector cluster) = Inr items
           \<and> (\<exists>obj \<in> set items. deletionOf kind obj = (kind, name, u) \<and> loController obj = Some uid)))
   \<and> (err = None \<longrightarrow> (\<forall>kind \<in> {''Service''} \<union> (if gatewayAPI then {''Gateway'', ''TCPRoute''} else {}).
        \<exists>items. psList srv kind (mcNamespace cluster) (ExternalServicesSelector cluster) = Inr items
        \<and> (\<forall>obj \<in> set items. loController obj = Some uid \<longrightarrow>
             (spExternalAccess (mcSpec cluster) = None \<longrightarrow> deletionOf kind obj \<in> set ds)
           \<and> (kind \<noteq> ''Service'' \<and> \<not> UsesGateway cluster \<longrightarrow> deletionOf kind obj \<in> set ds)
           \<and> (spExternalAccess (mcSpec cluster) \<noteq> None \<longrightarrow>
                (\<forall>i \<ge> 0. loName obj = DataExternalServiceName cluster i \<and> kind = ''Service'' \<longrightarrow>
                   (deletionOf kind obj \<in> set ds \<longleftrightarrow> applied \<le> i))
              \<and> (\<forall>i \<ge> 0. loName obj = DataTCPRouteName cluster i \<and> kind = ''TCPRoute'' \<and> UsesGateway cluster \<longrightarrow>
                   (deletionOf kind obj \<in> set ds \<longleftrightarrow> applied \<le> i)))
           \<and> (deletionOf kind obj \<in> set ds \<longleftrightarrow> \<not> wantedExternal gatewayAPI cluster applied kind (loName obj)))))
   \<and> (spExternalAccess (mcSpec cluster) \<noteq> None \<longrightarrow> (\<forall>u. (''Service'', CoordinatorExternalServiceName cluster, u) \<notin> set ds))"
proof -
  note exact = pruneExternal_exact [OF assms]
  have removed: "spExternalAccess (mcSpec cluster) = None \<Longrightarrow> \<not> wantedExternal gatewayAPI cluster applied kind name"
    "kind \<noteq> ''Service'' \<Longrightarrow> \<not> UsesGateway cluster \<Longrightarrow> \<not> wantedExternal gatewayAPI cluster applied kind name" for kind name
    by (simp_all add: wantedExternal_def)
  have data: "wantedExternal gatewayAPI cluster applied ''Service'' (DataExternalServiceName cluster i) \<longleftrightarrow> i < applied"
    "gatewayAPI \<Longrightarrow> UsesGateway cluster \<Longrightarrow>
       wantedExternal gatewayAPI cluster applied ''TCPRoute'' (DataTCPRouteName cluster i) \<longleftrightarrow> i < applied"
    if "spExternalAccess (mcSpec cluster) \<noteq> None" "0 \<le> i" for i
    using that by (auto simp: wantedExternal_def image_iff DataExternalServiceName_inj DataExternalServiceName_not_coordinator
        DataTCPRouteName_inj DataTCPRouteName_not_coordinator)
  have kept: "(''Service'', CoordinatorExternalServiceName cluster, u) \<notin> set ds" if "spExternalAccess (mcSpec cluster) \<noteq> None" for u
    using exact(1) [of "''Service''" "CoordinatorExternalServiceName cluster" u] that by (auto simp: wantedExternal_def)
  have complete: "\<exists>items. psList srv kind (mcNamespace cluster) (ExternalServicesSelector cluster) = Inr items
        \<and> (\<forall>obj \<in> set items. loController obj = Some uid \<longrightarrow>
             (spExternalAccess (mcSpec cluster) = None \<longrightarrow> deletionOf kind obj \<in> set ds)
           \<and> (kind \<noteq> ''Service'' \<and> \<not> UsesGateway cluster \<longrightarrow> deletionOf kind obj \<in> set ds)
           \<and> (spExternalAccess (mcSpec cluster) \<noteq> None \<longrightarrow>
                (\<forall>i \<ge> 0. loName obj = DataExternalServiceName cluster i \<and> kind = ''Service'' \<longrightarrow>
                   (deletionOf kind obj \<in> set ds \<longleftrightarrow> applied \<le> i))
              \<and> (\<forall>i \<ge> 0. loName obj = DataTCPRouteName cluster i \<and> kind = ''TCPRoute'' \<and> UsesGateway cluster \<longrightarrow>
                   (deletionOf kind obj \<in> set ds \<longleftrightarrow> applied \<le> i)))
           \<and> (deletionOf kind obj \<in> set ds \<longleftrightarrow> \<not> wantedExternal gatewayAPI cluster applied kind (loName obj)))"
    if "err = None" "kind \<in> {''Service''} \<union> (if gatewayAPI then {''Gateway'', ''TCPRoute''} else {})" for kind
  proof -
    from that(2) have kind: "kind = ''Service'' \<or> gatewayAPI \<and> kind \<in> {''Gateway'', ''TCPRoute''}" by (auto split: if_splits)
    from exact(2) [OF that(1) kind] obtain items where
      items: "psList srv kind (mcNamespace cluster) (ExternalServicesSelector cluster) = Inr items"
        "\<forall>obj \<in> set items. loController obj = Some uid \<longrightarrow>
             (deletionOf kind obj \<in> set ds \<longleftrightarrow> \<not> wantedExternal gatewayAPI cluster applied kind (loName obj))" by blast
    have api: "kind = ''TCPRoute'' \<Longrightarrow> gatewayAPI" using kind by auto
    show ?thesis
    proof (intro exI conjI ballI impI allI)
      fix obj assume obj: "obj \<in> set items" "loController obj = Some uid"
      with items(2) show all: "deletionOf kind obj \<in> set ds \<longleftrightarrow> \<not> wantedExternal gatewayAPI cluster applied kind (loName obj)"
        by blast
      show "deletionOf kind obj \<in> set ds" if "spExternalAccess (mcSpec cluster) = None" using all removed(1) that by blast
      show "deletionOf kind obj \<in> set ds" if "kind \<noteq> ''Service'' \<and> \<not> UsesGateway cluster" using all removed(2) that by blast
      show "deletionOf kind obj \<in> set ds \<longleftrightarrow> applied \<le> i" if "spExternalAccess (mcSpec cluster) \<noteq> None" "0 \<le> i"
        "loName obj = DataExternalServiceName cluster i \<and> kind = ''Service''" for i
        using all data(1) [OF that(1,2)] that(3) by (simp add: not_less)
      show "deletionOf kind obj \<in> set ds \<longleftrightarrow> applied \<le> i" if "spExternalAccess (mcSpec cluster) \<noteq> None" "0 \<le> i"
        "loName obj = DataTCPRouteName cluster i \<and> kind = ''TCPRoute'' \<and> UsesGateway cluster" for i
        using all data(2) [OF that(1,2) api] that(3) by (simp add: not_less)
    qed (rule items(1))
  qed
  have sound: "\<forall>(kind, name, u) \<in> set ds. \<not> wantedExternal gatewayAPI cluster applied kind name
      \<and> (\<exists>items. psList srv kind (mcNamespace cluster) (ExternalServicesSelector cluster) = Inr items
           \<and> (\<exists>obj \<in> set items. deletionOf kind obj = (kind, name, u) \<and> loController obj = Some uid))"
    using exact(1) by (simp only: split_paired_Ball_Sigma Ball_def split_paired_all prod.case) blast
  show ?thesis by (intro conjI impI ballI [of "{_} \<union> _"] allI sound complete kept)
qed

definition exPruneServer :: pruneServer where
  "exPruneServer = \<lparr>psList = (\<lambda>kind _ _. Inr (if kind = ''Service'' then
         [\<lparr>loName = ''db-data-0-external'', loUID = ''u0'', loController = Some ''c''\<rparr>,
          \<lparr>loName = ''db-data-1-external'', loUID = ''u1'', loController = Some ''c''\<rparr>] else [])),
     psDelete = (\<lambda>_ _ _. Accepted)\<rparr>"

theorem prune_follows_applied_witness:
  "\<exists>desired ds. desiredExternal False (exExposed [] None (Some 1)) 1 = Some desired
     \<and> pruneExternal False exPruneServer (exExposed [] None (Some 1)) ''c'' desired = (None, ds)
     \<and> (''Service'', ''db-data-1-external'', ''u1'') \<in> set ds
     \<and> (''Service'', ''db-data-0-external'', ''u0'') \<notin> set ds"
proof -
  let ?c = "exExposed [] None (Some 1)"
  have access: "spExternalAccess (mcSpec ?c) \<noteq> None" by (simp add: exExposed_def)
  have "\<not> UsesGateway ?c"
    by (simp add: UsesGateway_iff exExposed_def emptySpec_def exCluster_def ExternalAccessGateway_def)
  then obtain desired where desired: "desiredExternal False ?c 1 = Some desired"
    using access by (simp add: desiredExternal_def ExternalServices_def wrap32_def)
  obtain err ds where run: "pruneExternal False exPruneServer ?c ''c'' desired = (err, ds)" by fastforce
  have "err = None" using run
    by (auto simp: pruneExternal_def pruneKind_def exPruneServer_def Let_def split: if_splits)
  moreover have names: "DataExternalServiceName ?c 0 = ''db-data-0-external''"
    "DataExternalServiceName ?c 1 = ''db-data-1-external''" by code_simp+
  moreover obtain items where "items = [\<lparr>loName = ''db-data-0-external'', loUID = ''u0'', loController = Some ''c''\<rparr>,
      \<lparr>loName = ''db-data-1-external'', loUID = ''u1'', loController = Some ''c''\<rparr>]"
    and "psList exPruneServer ''Service'' (mcNamespace ?c) (ExternalServicesSelector ?c) = Inr items"
    by (simp add: exPruneServer_def)
  ultimately have "\<forall>obj \<in> set items. \<forall>i \<ge> 0. loName obj = DataExternalServiceName ?c i \<and> loController obj = Some ''c''
      \<longrightarrow> (deletionOf ''Service'' obj \<in> set ds \<longleftrightarrow> 1 \<le> i)"
    using prune_follows_applied [OF desired run] access by auto
  then have "(''Service'', ''db-data-1-external'', ''u1'') \<in> set ds" "(''Service'', ''db-data-0-external'', ''u0'') \<notin> set ds"
    using names \<open>items = _\<close> by (force dest: bspec spec [of _ 1] spec [of _ 0])+
  with desired run \<open>err = None\<close> show ?thesis by blast
qed

section \<open>The Gateway's listeners\<close>

definition validPort :: "int32 \<Rightarrow> bool" where "validPort port \<longleftrightarrow> 1 \<le> port \<and> port \<le> 65535"

lemma dataListener_inj: "dataListener i = dataListener j \<longleftrightarrow> i = j"
  by (simp add: dataListener_def)

lemma dataListener_not_coordinators: "dataListener i \<noteq> coordinatorsListener"
  by (simp add: dataListener_def coordinatorsListener_def)

lemma Gateway_listeners:
  assumes "0 \<le> applied" "applied < int32_max"
  shows "\<exists>gw. Gateway cluster applied = Some gw \<and> gwListeners gw = \<lparr>ltName = coordinatorsListener, ltPort = BoltPort\<rparr>
     # map (\<lambda>i. \<lparr>ltName = dataListener i, ltPort = DataGatewayPort cluster i\<rparr>) [0..applied - 1]"
  using assms by (simp add: Gateway_def DataGatewayPort_def Let_def wrap32_def int32_max_def)

lemma DataGatewayPort_exact:
  "normalize (mcSpec cluster) = spec \<Longrightarrow> ngwDataPortBase (nexGateway (nExternal spec)) = base
   \<Longrightarrow> BoltPort < base \<Longrightarrow> base \<le> 65535 \<Longrightarrow> 0 \<le> i \<Longrightarrow> i < 1000000 \<Longrightarrow> DataGatewayPort cluster i = base + i"
  by (simp add: DataGatewayPort_def wrap32_def BoltPort_def)

lemma Gateway_ports:
  assumes "BoltPort < base" "base \<le> 65535" "0 \<le> applied" "applied < 1000000"
    and "ngwDataPortBase (nexGateway (nExternal (normalize (mcSpec cluster)))) = base"
  obtains gw where "Gateway cluster applied = Some gw"
    and "gwListeners gw = \<lparr>ltName = coordinatorsListener, ltPort = BoltPort\<rparr>
      # map (\<lambda>i. \<lparr>ltName = dataListener i, ltPort = DataGatewayPort cluster i\<rparr>) [0..applied - 1]"
    and "map ltPort (gwListeners gw) = BoltPort # map (\<lambda>i. base + i) [0..applied - 1]"
    and "list_all (\<lambda>l. validPort (ltPort l)) (gwListeners gw) \<longleftrightarrow> applied = 0 \<or> base + applied \<le> 65536"
proof -
  from assms obtain gw where gw: "Gateway cluster applied = Some gw"
    and ls: "gwListeners gw = \<lparr>ltName = coordinatorsListener, ltPort = BoltPort\<rparr>
     # map (\<lambda>i. \<lparr>ltName = dataListener i, ltPort = DataGatewayPort cluster i\<rparr>) [0..applied - 1]"
    using Gateway_listeners [of applied cluster] by (auto simp: int32_max_def)
  have port: "DataGatewayPort cluster i = base + i" if "i \<in> set [0..applied - 1]" for i
    using that assms by (intro DataGatewayPort_exact) auto
  have ports: "map ltPort (gwListeners gw) = BoltPort # map (\<lambda>i. base + i) [0..applied - 1]"
    using port by (simp add: ls)
  have "list_all (\<lambda>l. validPort (ltPort l)) (gwListeners gw) \<longleftrightarrow> (\<forall>i \<in> set [0..applied - 1]. base + i \<le> 65535)"
    using assms port by (auto simp: ls list_all_iff validPort_def BoltPort_def)
  also have "\<dots> \<longleftrightarrow> applied = 0 \<or> base + applied \<le> 65536"
    using assms(3) by (auto dest: bspec [of _ _ "applied - 1"])
  finally show thesis by (rule that [OF gw ls ports])
qed

text \<open>
  For a port base that admission accepts, the listeners of the Gateway have distinct names and
  distinct ports, and every TCPRoute attaches to the one listener of its member, at the port the member
  is announced on. All ports lie in the port space exactly when the base and the count of data pods that
  run, which is not the declared count while a retirement is under way, add up to at most 65536.
\<close>

theorem Gateway_ports_valid_iff:
  assumes "BoltPort < base" "base \<le> 65535" "0 \<le> applied" "applied < 1000000"
    and "ngwDataPortBase (nexGateway (nExternal (normalize (mcSpec cluster)))) = base"
  shows "\<exists>gw routes. Gateway cluster applied = Some gw \<and> TCPRoutes cluster applied = Some routes
     \<and> distinct (map ltName (gwListeners gw)) \<and> distinct (map ltPort (gwListeners gw))
     \<and> map trSection routes = map ltName (gwListeners gw)
     \<and> map ltPort (gwListeners gw) = BoltPort # map (DataGatewayPort cluster) [0..applied - 1]
     \<and> (list_all (\<lambda>l. validPort (ltPort l)) (gwListeners gw) \<longleftrightarrow> applied = 0 \<or> base + applied \<le> 65536)"
proof -
  from Gateway_ports [OF assms] obtain gw where gw: "Gateway cluster applied = Some gw"
    and ls: "gwListeners gw = \<lparr>ltName = coordinatorsListener, ltPort = BoltPort\<rparr>
     # map (\<lambda>i. \<lparr>ltName = dataListener i, ltPort = DataGatewayPort cluster i\<rparr>) [0..applied - 1]"
    and ports: "map ltPort (gwListeners gw) = BoltPort # map (\<lambda>i. base + i) [0..applied - 1]"
    and valid: "list_all (\<lambda>l. validPort (ltPort l)) (gwListeners gw) \<longleftrightarrow> applied = 0 \<or> base + applied \<le> 65536" .
  let ?routes = "CoordinatorTCPRoute cluster # map (DataTCPRoute cluster) [0..applied - 1]"
  have routes: "TCPRoutes cluster applied = Some ?routes"
    using assms by (simp add: TCPRoutes_def wrap32_def)
  have sections: "map trSection ?routes = map ltName (gwListeners gw)"
    by (simp add: ls CoordinatorTCPRoute_def DataTCPRoute_def tcpRoute_def Let_def)
  have names: "distinct (map ltName (gwListeners gw))"
    by (auto simp: ls distinct_map inj_on_def dataListener_inj dataListener_not_coordinators [symmetric])
  have distinct: "distinct (map ltPort (gwListeners gw))"
    using assms by (auto simp: ports distinct_map inj_on_def)
  have listed: "map ltPort (gwListeners gw) = BoltPort # map (DataGatewayPort cluster) [0..applied - 1]"
    by (simp add: ls)
  show ?thesis
    by (rule exI [of _ gw], rule exI [of _ ?routes])
      (intro conjI gw routes names distinct sections listed valid)
qed

lemma exExposed_gateway:
  "UsesGateway (exExposed ExternalAccessGateway base declared)"
  "ngwDataPortBase (nexGateway (nExternal (normalize (mcSpec (exExposed ExternalAccessGateway base declared)))))
     = intOrDefault base DefaultGatewayDataPortBase"
  by (simp_all add: UsesGateway_iff exExposed_def normalize_def normalizeExternal_def)

theorem Gateway_ports_valid_iff_witness:
  "\<exists>gw. Gateway (exExposed ExternalAccessGateway (Some 65534) (Some 2)) 2 = Some gw
     \<and> list_all (\<lambda>l. validPort (ltPort l)) (gwListeners gw)"
proof -
  have "\<exists>gw routes. Gateway (exExposed ExternalAccessGateway (Some 65534) (Some 2)) 2 = Some gw
      \<and> (list_all (\<lambda>l. validPort (ltPort l)) (gwListeners gw) \<longleftrightarrow> (2 :: int) = 0 \<or> (65534 :: int) + 2 \<le> 65536)"
    using Gateway_ports_valid_iff [of 65534 2 "exExposed ExternalAccessGateway (Some 65534) (Some 2)"]
    by (auto simp: exExposed_gateway intOrDefault_def BoltPort_def)
  then show ?thesis by auto
qed

text \<open>
  C19: admission bounds the port range by the declared data instances, but the Gateway's listeners follow
  the pods that run. While a lowered count is still retiring its members, a base that admission accepts
  can therefore put a listener outside the port space: the pass then asks for a Gateway no API server
  accepts.
\<close>

theorem Gateway_out_of_range_while_shrinking:
  assumes "UsesGateway cluster" "ngwDataPortBase (nexGateway (nExternal (normalize (mcSpec cluster)))) = base"
    and "BoltPort < base" "base + DeclaredDataInstances cluster \<le> 65536" "0 < DeclaredDataInstances cluster"
    and "rGet rd (mcNamespace cluster, DataName cluster) = Found sts" "ssReplicas sts = Some running"
    and "65536 < base + running" "running < 1000000"
    and "resolveRole rd (mcNamespace cluster) (DataName cluster) (DeclaredDataInstances cluster) selector shrinks
           = (Inr (role, unseen), shrinks')"
  shows "\<exists>desired gw. desiredExternal True cluster (rrApplied role) = Some desired
     \<and> GatewayObject gw \<in> set desired \<and> (\<exists>l \<in> set (gwListeners gw). \<not> validPort (ltPort l))"
proof -
  have applied: "rrApplied role = running"
    using assms(4,6,7,8,10)
    by (auto simp: resolveRole_def getStatefulSet_def currentCount_def Let_def split: prod.splits)
  from assms obtain gw where gw: "Gateway cluster running = Some gw"
    and invalid: "\<not> list_all (\<lambda>l. validPort (ltPort l)) (gwListeners gw)"
    using Gateway_ports [of base running cluster] by force
  have services: "\<exists>s. ExternalServices cluster running = Some s" "\<exists>r. TCPRoutes cluster running = Some r"
    using assms by (simp_all add: ExternalServices_def TCPRoutes_def wrap32_def)
  with gw assms(1) have "\<exists>desired. desiredExternal True cluster running = Some desired \<and> GatewayObject gw \<in> set desired"
    by (auto simp: desiredExternal_def)
  with invalid show ?thesis by (auto simp: applied list_all_iff)
qed

theorem Gateway_out_of_range_while_shrinking_witness:
  "\<exists>desired gw. desiredExternal True (exExposed ExternalAccessGateway (Some 65533) (Some 3)) 5 = Some desired
     \<and> GatewayObject gw \<in> set desired \<and> (\<exists>l \<in> set (gwListeners gw). \<not> validPort (ltPort l))"
proof -
  let ?c = "exExposed ExternalAccessGateway (Some 65533) (Some 3)"
  let ?rd = "exReader (Found (exStatefulSet 7 5)) []"
  have declared: "DeclaredDataInstances ?c = 3"
    by (simp add: DeclaredDataInstances_iff exExposed_def intOrDefault_def)
  obtain role unseen s where r: "resolveRole ?rd (mcNamespace ?c) (DataName ?c) (DeclaredDataInstances ?c) [] Map.empty
      = (Inr (role, unseen), s)" and five: "rrApplied role = 5"
    by (simp add: resolveRole_def getStatefulSet_def exReader_def exStatefulSet_def currentCount_def declared
        Satisfied_def) metis
  from Gateway_out_of_range_while_shrinking [OF _ _ _ _ _ _ _ _ _ r, of 65533 "exStatefulSet 7 5" 5] show ?thesis
    by (simp add: exExposed_gateway declared five exReader_def exStatefulSet_def BoltPort_def intOrDefault_def)
qed

end
