(* ===== verification/Settings.thy ===== *)
theory Settings
  imports Go_Prelude "HOL-Library.Multiset"
begin

text \<open>
  \<open>src/internal/settings/settings.go\<close> and \<open>secrets.go\<close>: which flags are run-time settings, and the SET
  commands that bring an observed settings view in line with a desired one.

  A map the code ranges over is an association list with distinct keys, its order the order of the
  iteration; a view that is only looked up is a function. The slices the code sorts have distinct
  keys, so the result of \<open>slices.SortFunc\<close> is determined and \<open>sort_key\<close> over the bytewise order computes it.

  The locale \<open>settings_plan\<close> is the contract all three planners share: what a planner wants, and that
  it plans exactly the wants the view does not agree with.
\<close>

section \<open>Names of settings\<close>

definition LicenseSetting :: string where "LicenseSetting = ''enterprise.license''"
definition OrganizationSetting :: string where "OrganizationSetting = ''organization.name''"
definition alsoLogToStderr :: string where "alsoLogToStderr = ''also_log_to_stderr''"
definition schedulerFlag :: string where "schedulerFlag = ''scheduler''"

definition runtimeSettings :: "string \<Rightarrow> string option" where
  "runtimeSettings = map_of
    [(''bolt_server_name_for_init'', ''server.name''),
     (''query_execution_timeout_sec'', ''query.timeout''),
     (''hops_limit_partial_results'', ''hops_limit_partial_results''),
     (''log_level'', ''log.level''),
     (alsoLogToStderr, ''log.to_stderr''),
     (''cartesian_product_enabled'', ''cartesian-product-enabled''),
     (''debug_query_plans'', ''debug-query-plans''),
     (''storage_gc_aggressive'', ''storage-gc-aggressive''),
     (''storage_omit_vector_index_properties_on_return'', ''storage.omit_vector_index_properties_on_return''),
     (''timezone'', ''timezone''),
     (''storage_snapshot_interval'', ''storage.snapshot.interval''),
     (''file_download_conn_timeout_sec'', ''file.download_conn_timeout_sec''),
     (''storage_access_timeout_sec'', ''storage.access_timeout_sec''),
     (''log_min_duration_ms'', ''log.min_duration_ms''),
     (''log_failed_queries'', ''log.failed_queries''),
     (''log_query_plan'', ''log.query_plan'')]"

definition Normalize :: "string \<Rightarrow> string" where
  "Normalize flag = map (\<lambda>c. if c = CHR ''-'' then CHR ''_'' else c) (dropWhile (\<lambda>c. c = CHR ''-'') flag)"

definition Setting :: "string \<Rightarrow> string option" where
  "Setting flag = runtimeSettings (Normalize flag)"

definition IsRuntime :: "string \<Rightarrow> bool" where
  "IsRuntime flag \<longleftrightarrow> Setting flag \<noteq> None"

section \<open>Plans of changes\<close>

record Change =
  chSetting :: string
  chValue :: string

definition Diff :: "(string \<times> string) list \<Rightarrow> (string \<Rightarrow> string option) \<Rightarrow> Change list" where
  "Diff desired observed = sort_key chSetting
     [\<lparr>chSetting = setting, chValue = value\<rparr>. (setting, value) \<leftarrow> desired, observed setting \<noteq> Some value]"

text \<open>The map \<open>desired\<close> that \<open>Plan\<close> builds: \<open>desired[setting] = value\<close> for every run-time flag.\<close>

definition assign :: "'k \<Rightarrow> 'v \<Rightarrow> ('k \<times> 'v) list \<Rightarrow> ('k \<times> 'v) list" where
  "assign k v m = filter (\<lambda>(k', _). k' \<noteq> k) m @ [(k, v)]"

definition desiredSettings :: "(string \<times> string) list \<Rightarrow> (string \<times> string) list" where
  "desiredSettings flags = foldl (\<lambda>desired (flag, value).
     case Setting flag of None \<Rightarrow> desired | Some setting \<Rightarrow> assign setting value desired) [] flags"

definition Plan_settings :: "(string \<times> string) list \<Rightarrow> (string \<Rightarrow> string option) \<Rightarrow> Change list" where
  "Plan_settings flags observed = Diff (desiredSettings flags) observed"

text \<open>\<open>observed[name]\<close> of a missing key is the empty string.\<close>

definition reads :: "(string \<Rightarrow> string option) \<Rightarrow> string \<Rightarrow> string" where
  "reads observed name = (case observed name of Some v \<Rightarrow> v | None \<Rightarrow> [])"

definition License :: "string \<Rightarrow> string \<Rightarrow> (string \<Rightarrow> string option) \<Rightarrow> Change list" where
  "License license organization observed =
     (if reads observed OrganizationSetting \<noteq> organization
      then [\<lparr>chSetting = OrganizationSetting, chValue = organization\<rparr>] else [])
     @ (if reads observed LicenseSetting \<noteq> license
        then [\<lparr>chSetting = LicenseSetting, chValue = license\<rparr>] else [])"

section \<open>Classification of keys\<close>

definition hiddenFlags :: "string \<Rightarrow> bool" where
  "hiddenFlags name \<longleftrightarrow> name = alsoLogToStderr \<or> name = schedulerFlag"

definition hasKey :: "(string \<Rightarrow> string option) \<Rightarrow> string \<Rightarrow> bool" where
  "hasKey view name \<longleftrightarrow> view name \<noteq> None"

record Classification =
  clFlags :: "string list"
  clCoordinatorSettings :: "string list"
  clUnknown :: "string list"

definition Classify ::
  "string list \<Rightarrow> (string \<Rightarrow> string option) \<Rightarrow> (string \<Rightarrow> string option) \<Rightarrow> Classification" where
  "Classify keys config coordinatorSettings =
     (let c = foldl (\<lambda>c key.
          let name = Normalize key in
          if hiddenFlags name then c\<lparr>clFlags := clFlags c @ [name]\<rparr>
          else if hasKey config name then c\<lparr>clFlags := clFlags c @ [name]\<rparr>
          else if hasKey coordinatorSettings name
          then c\<lparr>clCoordinatorSettings := clCoordinatorSettings c @ [name]\<rparr>
          else c\<lparr>clUnknown := clUnknown c @ [name]\<rparr>)
          \<lparr>clFlags = [], clCoordinatorSettings = [], clUnknown = []\<rparr> keys
      in \<lparr>clFlags = sort (clFlags c), clCoordinatorSettings = sort (clCoordinatorSettings c),
          clUnknown = sort (clUnknown c)\<rparr>)"

section \<open>Spellings\<close>

lemma Normalize_no_dash: "CHR ''-'' \<notin> set (Normalize flag)"
  by (auto simp: Normalize_def)

lemma Normalize_id: "CHR ''-'' \<notin> set flag \<Longrightarrow> Normalize flag = flag"
  by (cases flag) (auto simp: Normalize_def intro!: map_idI)

text \<open>
  \<open>Normalize\<close> gives every flag one spelling: it is idempotent, it does not see leading dashes, and
  two names that differ only in dashes against underscores, after the leading dashes, become equal.
\<close>

theorem Normalize_canonical:
  "Normalize (Normalize flag) = Normalize flag \<and> Normalize (replicate n CHR ''-'' @ flag) = Normalize flag
   \<and> IsRuntime (Normalize flag) = IsRuntime flag
   \<and> (flag = c # cs \<and> c \<noteq> CHR ''-'' \<and> c \<noteq> CHR ''_''
      \<longrightarrow> Normalize (map (\<lambda>x. if x = CHR ''_'' then CHR ''-'' else x) flag) = Normalize flag)"
proof (intro conjI impI)
  show "Normalize (Normalize flag) = Normalize flag" by (rule Normalize_id [OF Normalize_no_dash])
  then show "IsRuntime (Normalize flag) = IsRuntime flag" by (simp add: IsRuntime_def Setting_def)
  show "Normalize (replicate n CHR ''-'' @ flag) = Normalize flag"
    by (induction n) (auto simp: Normalize_def)
qed (auto simp: Normalize_def)

theorem Normalize_canonical_witness:
  "Normalize (map (\<lambda>x. if x = CHR ''_'' then CHR ''-'' else x) ''log_level'') = Normalize ''log_level''"
  using Normalize_canonical [of "''log_level''" 0 "CHR ''l''" "''og_level''"] by simp

section \<open>The contract of a planner\<close>

text \<open>Issuing changes: each sets its setting on the instance.\<close>

definition applyChanges :: "Change list \<Rightarrow> (string \<Rightarrow> string option) \<Rightarrow> string \<Rightarrow> string option" where
  "applyChanges changes observed = foldl (\<lambda>m c. m(chSetting c \<mapsto> chValue c)) observed changes"

lemma applyChanges_other: "k \<notin> chSetting ` set cs \<Longrightarrow> applyChanges cs m k = m k"
  by (induction cs arbitrary: m) (auto simp: applyChanges_def)

lemma applyChanges_Cons:
  "applyChanges (d # cs) m = applyChanges cs (m(chSetting d \<mapsto> chValue d))"
  by (simp add: applyChanges_def)

lemma applyChanges_agree:
  assumes "k \<in> chSetting ` set cs" and "\<And>d. d \<in> set cs \<Longrightarrow> chSetting d = k \<Longrightarrow> chValue d = v"
  shows "applyChanges cs m k = Some v"
  using assms
proof (induction cs arbitrary: m)
  case (Cons d cs)
  show ?case
  proof (cases "k \<in> chSetting ` set cs")
    case True
    from Cons.IH [OF this] Cons.prems(2) show ?thesis by (simp add: applyChanges_Cons)
  next
    case False
    with Cons.prems have "k = chSetting d" "chValue d = v" by auto
    with applyChanges_other [OF False] show ?thesis by (simp add: applyChanges_Cons)
  qed
qed simp

locale settings_plan =
  fixes wants :: "string \<Rightarrow> string option"
    and agrees :: "string option \<Rightarrow> string \<Rightarrow> bool"
    and plan :: "(string \<Rightarrow> string option) \<Rightarrow> Change list"
  assumes agrees_set: "agrees (Some v) v"
    and plan_iff: "c \<in> set (plan observed) \<longleftrightarrow>
      wants (chSetting c) = Some (chValue c) \<and> \<not> agrees (observed (chSetting c)) (chValue c)"
begin

lemma untouched: "wants k = None \<Longrightarrow> applyChanges (plan observed) observed k = observed k"
  by (rule applyChanges_other) (auto simp: plan_iff)

lemma landed:
  assumes "wants k = Some v"
  shows "agrees (applyChanges (plan observed) observed k) v"
proof (cases "agrees (observed k) v")
  case True
  with assms have "k \<notin> chSetting ` set (plan observed)" by (auto simp: plan_iff)
  with True show ?thesis by (simp add: applyChanges_other)
next
  case False
  with assms have "\<lparr>chSetting = k, chValue = v\<rparr> \<in> set (plan observed)" by (simp add: plan_iff)
  then have "k \<in> chSetting ` set (plan observed)" by force
  from applyChanges_agree [OF this, of v] have "applyChanges (plan observed) observed k = Some v"
    using assms by (auto simp: plan_iff)
  then show ?thesis by (simp add: agrees_set)
qed

lemma converges: "plan (applyChanges (plan observed) observed) = []"
proof -
  have "c \<notin> set (plan (applyChanges (plan observed) observed))" for c
    using landed by (auto simp: plan_iff)
  then show ?thesis by (metis list.set_intros(1) neq_Nil_conv)
qed

lemma nothing_iff: "plan observed = [] \<longleftrightarrow> (\<forall>k v. wants k = Some v \<longrightarrow> agrees (observed k) v)"
proof
  assume "plan observed = []"
  then show "\<forall>k v. wants k = Some v \<longrightarrow> agrees (observed k) v"
    using plan_iff [of "\<lparr>chSetting = _, chValue = _\<rparr>" observed] by auto
next
  assume "\<forall>k v. wants k = Some v \<longrightarrow> agrees (observed k) v"
  then have "c \<notin> set (plan observed)" for c by (simp add: plan_iff)
  then show "plan observed = []" by (metis list.set_intros(1) neq_Nil_conv)
qed

end

section \<open>The planners meet the contract\<close>

definition asChange :: "string \<times> string \<Rightarrow> Change" where
  "asChange kv = \<lparr>chSetting = fst kv, chValue = snd kv\<rparr>"

definition pending :: "(string \<Rightarrow> string option) \<Rightarrow> string \<times> string \<Rightarrow> bool" where
  "pending observed kv \<longleftrightarrow> observed (fst kv) \<noteq> Some (snd kv)"

lemma Diff_eq:
  "Diff desired observed = sort_key chSetting (map asChange (filter (pending observed) desired))"
proof -
  have "[\<lparr>chSetting = setting, chValue = value\<rparr>. (setting, value) \<leftarrow> xs, observed setting \<noteq> Some value]
      = map asChange (filter (pending observed) xs)" for xs
    by (induction xs) (auto simp: asChange_def pending_def)
  then show ?thesis by (simp add: Diff_def)
qed

lemma chSetting_asChange [simp]: "chSetting (asChange kv) = fst kv" "map (chSetting \<circ> asChange) = map fst"
  by (simp_all add: asChange_def fun_eq_iff)

lemma set_Diff:
  "c \<in> set (Diff desired observed) \<longleftrightarrow>
     (chSetting c, chValue c) \<in> set desired \<and> observed (chSetting c) \<noteq> Some (chValue c)"
  by (cases c) (force simp: Diff_eq asChange_def pending_def)

lemma Diff_plan:
  assumes "distinct (map fst desired)"
  shows "settings_plan (map_of desired) (\<lambda>current v. current = Some v) (Diff desired)"
  by unfold_locales (simp_all add: set_Diff map_of_eq_Some_iff [OF assms])

lemma fst_assign: "map fst (assign k v m) = filter (\<lambda>k'. k' \<noteq> k) (map fst m) @ [k]"
  by (simp add: assign_def filter_map comp_def case_prod_unfold)

lemma distinct_assign [simp]: "distinct (map fst m) \<Longrightarrow> distinct (map fst (assign k v m))"
  unfolding fst_assign by simp

lemma map_of_filter_key: "map_of (filter (\<lambda>(k', _). k' \<noteq> k) m) = (map_of m)(k := None)"
  by (induction m) auto

lemma map_of_assign [simp]: "map_of (assign k v m) = (map_of m)(k \<mapsto> v)"
  by (rule ext) (simp add: assign_def map_of_filter_key map_add_def split: option.splits)

lemma desiredSettings_snoc:
  "desiredSettings (flags @ [(f, v)]) = (case Setting f of None \<Rightarrow> desiredSettings flags
     | Some s \<Rightarrow> assign s v (desiredSettings flags))"
  by (cases "Setting f") (simp_all add: desiredSettings_def)

lemma distinct_desiredSettings: "distinct (map fst (desiredSettings flags))"
proof (induction flags rule: rev_induct)
  case (snoc x flags)
  then show ?case by (cases x) (simp add: desiredSettings_snoc split: option.splits)
qed (simp add: desiredSettings_def)

text \<open>The last flag in iteration order that names a setting decides its value.\<close>

lemma map_of_desiredSettings:
  "map_of (desiredSettings flags) s = map_option snd (find (\<lambda>(f, v). Setting f = Some s) (rev flags))"
proof (induction flags rule: rev_induct)
  case (snoc x flags)
  then show ?case by (cases x) (auto simp: desiredSettings_snoc split: option.splits)
qed (simp add: desiredSettings_def)

interpretation runtime_plan: settings_plan "map_of (desiredSettings flags)" "\<lambda>current v. current = Some v"
    "Plan_settings flags" for flags
  unfolding Plan_settings_def [abs_def] using Diff_plan [OF distinct_desiredSettings] .

definition licenseWants :: "string \<Rightarrow> string \<Rightarrow> string \<Rightarrow> string option" where
  "licenseWants license organization = [LicenseSetting \<mapsto> license, OrganizationSetting \<mapsto> organization]"

lemma license_names [simp]: "LicenseSetting \<noteq> OrganizationSetting" "OrganizationSetting \<noteq> LicenseSetting"
  by (simp_all add: LicenseSetting_def OrganizationSetting_def)

interpretation license_plan: settings_plan "licenseWants license organization"
    "\<lambda>current v. (case current of Some x \<Rightarrow> x | None \<Rightarrow> []) = v" "License license organization"
    for license organization
proof unfold_locales
  fix c observed
  show "c \<in> set (License license organization observed) \<longleftrightarrow>
      licenseWants license organization (chSetting c) = Some (chValue c)
      \<and> \<not> (case observed (chSetting c) of Some x \<Rightarrow> x | None \<Rightarrow> []) = chValue c"
    by (cases c) (auto simp: License_def licenseWants_def reads_def)
qed simp

section \<open>Properties\<close>

text \<open>
  \<open>Diff\<close> plans exactly the desired settings that the view does not hold at the desired value, each
  once, in the bytewise order of their names, whatever the order of the two maps.
\<close>

theorem Diff_exact:
  assumes "distinct (map fst desired)"
  shows "set (Diff desired observed) = {\<lparr>chSetting = k, chValue = v\<rparr> | k v. (k, v) \<in> set desired \<and> observed k \<noteq> Some v}
    \<and> sorted (map chSetting (Diff desired observed)) \<and> distinct (map chSetting (Diff desired observed))
    \<and> (\<forall>desired'. mset desired' = mset desired \<longrightarrow> Diff desired' observed = Diff desired observed)"
proof (intro conjI allI impI)
  show "set (Diff desired observed) = {\<lparr>chSetting = k, chValue = v\<rparr> | k v. (k, v) \<in> set desired \<and> observed k \<noteq> Some v}"
    by (force simp: Diff_eq asChange_def pending_def)
  show "sorted (map chSetting (Diff desired observed))" by (simp add: Diff_def)
  let ?raw = "\<lambda>xs. map asChange (filter (pending observed) xs)"
  have d: "distinct (map chSetting (?raw desired))"
    using assms by (simp add: comp_def asChange_def distinct_map_filter)
  then have inj: "inj_on chSetting (set (?raw desired))" by (simp only: distinct_map)
  have "mset (map chSetting (Diff desired observed)) = mset (map chSetting (?raw desired))"
    by (simp only: Diff_eq mset_map mset_sort)
  from mset_eq_imp_distinct_iff [OF this] d show "distinct (map chSetting (Diff desired observed))" by simp
  fix desired'
  assume m: "mset desired' = mset desired"
  then have "mset (?raw desired) = mset (Diff desired' observed)" by (simp add: Diff_eq)
  from sort_key_inj_key_eq [OF this inj] show "Diff desired' observed = Diff desired observed"
    by (simp add: Diff_eq)
qed

definition exFlags :: "(string \<times> string) list" where
  "exFlags = [(''--log-level'', ''DEBUG''), (''bolt_port'', ''7687''), (''timezone'', ''UTC'')]"

theorem Diff_exact_witness:
  "Diff [(''b'', ''1''), (''a'', ''2'')] [''b'' \<mapsto> ''1''] = Diff [(''a'', ''2''), (''b'', ''1'')] [''b'' \<mapsto> ''1'']"
  by (rule Diff_exact [THEN conjunct2, THEN conjunct2, THEN conjunct2, rule_format]) simp_all

text \<open>
  Issuing the planned run-time settings converges: afterwards the plan is empty, every run-time
  flag's setting holds its value, and every setting that no flag names is as it was.
\<close>

theorem Plan_settings_converges:
  "Plan_settings flags (applyChanges (Plan_settings flags observed) observed) = []
   \<and> (\<forall>f v. find (\<lambda>(f', _). Setting f' = Setting f) (rev flags) = Some (f, v) \<and> IsRuntime f \<longrightarrow>
        applyChanges (Plan_settings flags observed) observed (the (Setting f)) = Some v)
   \<and> (\<forall>s. (\<forall>(f, v) \<in> set flags. Setting f \<noteq> Some s) \<longrightarrow>
        applyChanges (Plan_settings flags observed) observed s = observed s)"
proof (intro conjI allI impI)
  show "Plan_settings flags (applyChanges (Plan_settings flags observed) observed) = []"
    by (rule runtime_plan.converges)
  fix f v
  assume "find (\<lambda>(f', _). Setting f' = Setting f) (rev flags) = Some (f, v) \<and> IsRuntime f"
  then have "map_of (desiredSettings flags) (the (Setting f)) = Some v"
    by (auto simp: map_of_desiredSettings IsRuntime_def)
  from runtime_plan.landed [OF this]
  show "applyChanges (Plan_settings flags observed) observed (the (Setting f)) = Some v" .
next
  fix s
  assume "\<forall>(f, v) \<in> set flags. Setting f \<noteq> Some s"
  then have "map_of (desiredSettings flags) s = None"
    by (auto simp: map_of_desiredSettings find_None_iff)
  from runtime_plan.untouched [OF this]
  show "applyChanges (Plan_settings flags observed) observed s = observed s" .
qed

theorem Plan_settings_converges_witness:
  "applyChanges (Plan_settings exFlags Map.empty) Map.empty ''log.level'' = Some ''DEBUG''
   \<and> applyChanges (Plan_settings exFlags Map.empty) Map.empty ''bolt.port'' = None"
proof -
  have f: "find (\<lambda>(f', _). Setting f' = Setting ''--log-level'') (rev exFlags) = Some (''--log-level'', ''DEBUG'')"
    "IsRuntime ''--log-level''" "Setting ''--log-level'' = Some ''log.level''" by code_simp+
  have g: "\<forall>(f, v) \<in> set exFlags. Setting f \<noteq> Some ''bolt.port''" by code_simp
  note converges = Plan_settings_converges [of exFlags Map.empty, THEN conjunct2]
  from converges [THEN conjunct1, rule_format, of "''--log-level''" "''DEBUG''"] f
    converges [THEN conjunct2, rule_format, of "''bolt.port''"] g
  show ?thesis by auto
qed

text \<open>
  The license. An empty plan means that the view reads the wanted license and organization, a
  missing setting reading as the empty string; issuing the plan makes it empty; the organization is
  set before the license and nothing else is set.
\<close>

theorem License_converges:
  "(License license organization observed = [] \<longleftrightarrow>
      reads observed LicenseSetting = license \<and> reads observed OrganizationSetting = organization)
   \<and> License license organization (applyChanges (License license organization observed) observed) = []
   \<and> (\<forall>k. k \<noteq> LicenseSetting \<and> k \<noteq> OrganizationSetting \<longrightarrow>
        applyChanges (License license organization observed) observed k = observed k)
   \<and> (\<forall>before c after. License license organization observed = before @ c # after \<and> before \<noteq> [] \<longrightarrow>
        chSetting c = LicenseSetting)"
proof (intro conjI allI impI)
  show "License license organization observed = [] \<longleftrightarrow>
      reads observed LicenseSetting = license \<and> reads observed OrganizationSetting = organization"
    by (auto simp: License_def)
  show "License license organization (applyChanges (License license organization observed) observed) = []"
    by (rule license_plan.converges)
  show "applyChanges (License license organization observed) observed k = observed k"
    if "k \<noteq> LicenseSetting \<and> k \<noteq> OrganizationSetting" for k
    using license_plan.untouched [of license organization k observed] that by (simp add: licenseWants_def)
  show "chSetting c = LicenseSetting"
    if "License license organization observed = before @ c # after \<and> before \<noteq> []" for before c after
    using that by (auto simp: License_def Cons_eq_append_conv split: if_splits)
qed

theorem License_converges_witness:
  "License ''l'' ''o'' (applyChanges (License ''l'' ''o'' Map.empty) Map.empty) = []
   \<and> applyChanges (License ''l'' ''o'' Map.empty) Map.empty ''log.level'' = None"
proof -
  have "''log.level'' \<noteq> LicenseSetting \<and> ''log.level'' \<noteq> OrganizationSetting"
    by (simp add: LicenseSetting_def OrganizationSetting_def)
  then show ?thesis using License_converges [of "''l''" "''o''" Map.empty] by simp
qed

text \<open>What kind of key a name is, by the two views.\<close>

definition isFlagName :: "(string \<Rightarrow> string option) \<Rightarrow> string \<Rightarrow> bool" where
  "isFlagName config name \<longleftrightarrow> hiddenFlags name \<or> hasKey config name"

lemma Classify_foldl:
  "foldl (\<lambda>c key.
      let name = Normalize key in
      if hiddenFlags name then c\<lparr>clFlags := clFlags c @ [name]\<rparr>
      else if hasKey config name then c\<lparr>clFlags := clFlags c @ [name]\<rparr>
      else if hasKey settings name
      then c\<lparr>clCoordinatorSettings := clCoordinatorSettings c @ [name]\<rparr>
      else c\<lparr>clUnknown := clUnknown c @ [name]\<rparr>)
      \<lparr>clFlags = fs, clCoordinatorSettings = ss, clUnknown = us\<rparr> keys =
   \<lparr>clFlags = fs @ filter (isFlagName config) (map Normalize keys),
    clCoordinatorSettings = ss @ filter (\<lambda>n. \<not> isFlagName config n \<and> hasKey settings n) (map Normalize keys),
    clUnknown = us @ filter (\<lambda>n. \<not> isFlagName config n \<and> \<not> hasKey settings n) (map Normalize keys)\<rparr>"
  by (induction keys arbitrary: fs ss us) (auto simp: Let_def isFlagName_def)

lemma Classify_eq:
  "Classify keys config settings =
   \<lparr>clFlags = sort (filter (isFlagName config) (map Normalize keys)),
    clCoordinatorSettings = sort (filter (\<lambda>n. \<not> isFlagName config n \<and> hasKey settings n) (map Normalize keys)),
    clUnknown = sort (filter (\<lambda>n. \<not> isFlagName config n \<and> \<not> hasKey settings n) (map Normalize keys))\<rparr>"
  unfolding Classify_def Classify_foldl by simp

text \<open>
  \<open>Classify\<close> puts every key, under its canonical name, in exactly one of the three lists: a flag when
  it is hidden or SHOW CONFIG has it, else a coordinator setting when that view has it, else unknown.
  Nothing is lost or invented, and every list is sorted.
\<close>

theorem Classify_partitions:
  assumes "c = Classify keys config coordinatorSettings"
  shows "mset (clFlags c) + mset (clCoordinatorSettings c) + mset (clUnknown c) = mset (map Normalize keys)
   \<and> (\<forall>n \<in> set (clFlags c). isFlagName config n)
   \<and> (\<forall>n \<in> set (clCoordinatorSettings c). \<not> isFlagName config n \<and> hasKey coordinatorSettings n)
   \<and> (\<forall>n \<in> set (clUnknown c). \<not> isFlagName config n \<and> \<not> hasKey coordinatorSettings n)
   \<and> sorted (clFlags c) \<and> sorted (clCoordinatorSettings c) \<and> sorted (clUnknown c)"
proof -
  have "filter_mset P M + filter_mset (\<lambda>n. \<not> P n \<and> Q n) M + filter_mset (\<lambda>n. \<not> P n \<and> \<not> Q n) M = M" for P Q and M :: "string multiset"
    by (induction M) auto
  then show ?thesis by (simp add: assms Classify_eq mset_filter)
qed

theorem Classify_partitions_witness:
  "\<not> isFlagName [''log_level'' \<mapsto> ''INFO''] ''typo''"
proof -
  have "''typo'' \<in> set (clUnknown (Classify [''--log-level'', ''typo''] [''log_level'' \<mapsto> ''INFO''] Map.empty))"
    by code_simp
  with Classify_partitions [OF refl, of "[''--log-level'', ''typo'']" "[''log_level'' \<mapsto> ''INFO'']" Map.empty]
  show ?thesis by blast
qed

end
