(* ===== verification/Flags.thy ===== *)
theory Flags
  imports Replica_Counts Settings
begin

text \<open>
  \<open>src/internal/resources/flags.go\<close>: the flag file of a role and the annotation that says which
  startup flags a pod was started with; and the controller's side of it, which sorts the keys of
  \<open>spec.flags\<close> by the running Memgraph's own account and spares a pod the restart it does not need
  (\<open>startupKeys\<close>, \<open>unknownMessage\<close>, \<open>onTemplate\<close>, \<open>exemptCurrentPods\<close>).

  A Go map is an association list with distinct keys. The digest of a value, the first sixteen hex
  characters of its SHA-256, is the argument \<open>digest\<close>; that it consists of hex characters is the
  hypothesis \<open>hexDigest\<close>.
\<close>

section \<open>The flags of a role\<close>

definition flagsComponent :: string where "flagsComponent = ''flags''"
definition SystemUserHashKey :: string where "SystemUserHashKey = ''hash''"
definition systemUserComponent :: string where "systemUserComponent = ''system-user''"
definition systemUserMountPath :: string where "systemUserMountPath = ''/etc/memgraph/system-user''"
definition systemUserHashFlag :: string where "systemUserHashFlag = ''system_user_internal_hash_file''"
definition FlagFileKey :: string where "FlagFileKey = ''memgraph.flags''"

definition CoordinatorFlagsName :: "MemgraphDBCluster \<Rightarrow> string" where
  "CoordinatorFlagsName cluster = CoordinatorName cluster @ ''-'' @ flagsComponent"

definition DataFlagsName :: "MemgraphDBCluster \<Rightarrow> string" where
  "DataFlagsName cluster = DataName cluster @ ''-'' @ flagsComponent"

definition defaultFlags :: stringMap where
  "defaultFlags = [(''log_level'', ''INFO''), (''also_log_to_stderr'', ''true''), (''log_retention_days'', ''35''),
     (systemUserHashFlag, systemUserMountPath @ ''/'' @ SystemUserHashKey)]"

definition roleFlags :: "normalizedRole \<Rightarrow> stringMap" where
  "roleFlags role = fold (\<lambda>(key, flag). AList.update (Normalize key) flag) (sort_key fst (nroFlags role)) defaultFlags"

definition CoordinatorFlags :: "MemgraphDBCluster \<Rightarrow> stringMap" where
  "CoordinatorFlags cluster = roleFlags (nCoordinatorRole (normalize (mcSpec cluster)))"

definition DataFlags :: "MemgraphDBCluster \<Rightarrow> stringMap" where
  "DataFlags cluster = roleFlags (nDataRole (normalize (mcSpec cluster)))"

definition flagFile :: "stringMap \<Rightarrow> string" where
  "flagFile flags = concat (map (\<lambda>(key, flag). ''--'' @ key @ ''='' @ flag @ [CHR 0x0A]) (sort_key fst flags))"

record ConfigMap =
  cmName :: string
  cmNamespace :: string
  cmLabels :: stringMap
  cmData :: stringMap

definition flagsConfigMap :: "MemgraphDBCluster \<Rightarrow> string \<Rightarrow> string \<Rightarrow> normalizedRole \<Rightarrow> ConfigMap" where
  "flagsConfigMap cluster component name role =
     \<lparr>cmName = name, cmNamespace = mcNamespace cluster, cmLabels = labels cluster component [],
      cmData = [(FlagFileKey, flagFile (roleFlags role))]\<rparr>"

definition CoordinatorFlagsConfigMap :: "MemgraphDBCluster \<Rightarrow> ConfigMap" where
  "CoordinatorFlagsConfigMap cluster = flagsConfigMap cluster coordinatorComponent (CoordinatorFlagsName cluster)
     (nCoordinatorRole (normalize (mcSpec cluster)))"

definition DataFlagsConfigMap :: "MemgraphDBCluster \<Rightarrow> ConfigMap" where
  "DataFlagsConfigMap cluster = flagsConfigMap cluster dataComponent (DataFlagsName cluster)
     (nDataRole (normalize (mcSpec cluster)))"

section \<open>The annotation\<close>

definition flagsDigests :: "(string \<Rightarrow> string) \<Rightarrow> stringMap \<Rightarrow> string" where
  "flagsDigests digest flags =
     concat [key @ ''='' @ digest flag @ [CHR 0x0A]. (key, flag) \<leftarrow> sort_key fst flags, \<not> IsRuntime key]"

text \<open>\<open>strings.SplitSeq\<close> on a one-byte separator.\<close>

fun splitOn :: "char \<Rightarrow> string \<Rightarrow> string list" where
  "splitOn sep [] = [[]]"
| "splitOn sep (c # cs) = (if c = sep then [] # splitOn sep cs
     else case splitOn sep cs of [] \<Rightarrow> [[c]] | w # ws \<Rightarrow> (c # w) # ws)"

definition ParseFlagsDigests :: "string \<Rightarrow> stringMap" where
  "ParseFlagsDigests annotation =
     fold (\<lambda>line digests. case cut line ''='' of
         Some (key, d) \<Rightarrow> if key \<noteq> [] then AList.update key d digests else digests
       | None \<Rightarrow> digests) (splitOn (CHR 0x0A) annotation) []"

definition ChangedFlags :: "string \<Rightarrow> string \<Rightarrow> string list" where
  "ChangedFlags before after =
     (let old = ParseFlagsDigests before; current = ParseFlagsDigests after in
      sort (remdups ([key. (key, d) \<leftarrow> current, get old key \<noteq> d]
        @ [key. (key, d) \<leftarrow> old, map_of current key = None])))"

section \<open>Sparing a pod its restart\<close>

definition startupKeys :: "(string \<times> FlagValue) list \<Rightarrow> string list" where
  "startupKeys flags = [key. (key, flag) \<leftarrow> flags, \<not> IsRuntime key]"

record flagClasses =
  fcConfig :: stringMap
  fcConfigKnown :: bool
  fcCoordinatorSettings :: stringMap
  fcCoordinatorSettingsKnown :: bool
  fcCoordinatorSettingsErr :: string
  fcCoordinators :: Classification
  fcData :: Classification

definition emptyClassification :: Classification where
  "emptyClassification = \<lparr>clFlags = [], clCoordinatorSettings = [], clUnknown = []\<rparr>"

text \<open>The two views as the leader connection answered them; an error or no rows leave one unknown.\<close>

definition classifyFlags ::
  "MemgraphDBCluster \<Rightarrow> goerror + stringMap \<Rightarrow> goerror + stringMap \<Rightarrow> flagClasses" where
  "classifyFlags cluster shownConfig shownSettings =
     (let (config, configKnown) = (case shownConfig of Inl e \<Rightarrow> ([], False)
            | Inr rows \<Rightarrow> if rows = [] then ([], False) else (rows, True));
          (coordinatorSettings, settingsKnown, err) = (case shownSettings of Inl e \<Rightarrow> ([], False, e)
            | Inr rows \<Rightarrow> if rows = [] then ([], False, ''no ready leader reported them'') else (rows, True, []));
          classify = (\<lambda>flags. if configKnown
            then Classify (startupKeys flags) (map_of config) (map_of coordinatorSettings) else emptyClassification) in
      \<lparr>fcConfig = config, fcConfigKnown = configKnown, fcCoordinatorSettings = coordinatorSettings,
       fcCoordinatorSettingsKnown = settingsKnown, fcCoordinatorSettingsErr = err,
       fcCoordinators = classify (flCoordinators (spFlags (mcSpec cluster))),
       fcData = classify (flData (spFlags (mcSpec cluster)))\<rparr>)"

definition unknownMessage :: "flagClasses \<Rightarrow> string" where
  "unknownMessage c =
     (if \<not> fcConfigKnown c \<or> \<not> fcCoordinatorSettingsKnown c then []
      else let unknown = sort (clUnknown (fcData c) @ clCoordinatorSettings (fcData c));
               parts = (if clUnknown (fcCoordinators c) \<noteq> []
                   then [''coordinators: '' @ join '', '' (clUnknown (fcCoordinators c))] else [])
                 @ (if unknown \<noteq> [] then [''data: '' @ join '', '' unknown] else []) in
           if parts = [] then []
           else ''spec.flags names flags this Memgraph does not have ('' @ join ''; '' parts
             @ ''); nothing is restarted or applied for them until they are removed or corrected''
             @ (if clCoordinatorSettings (fcData c) \<noteq> []
                then ''; a coordinator setting belongs under flags.coordinators'' else []))"

definition onTemplate :: "(string \<Rightarrow> string option) \<Rightarrow> string \<Rightarrow> string \<Rightarrow> bool" where
  "onTemplate podTemplates pod template =
     (case podTemplates pod of None \<Rightarrow> False | Some hash \<Rightarrow> hash \<noteq> [] \<and> hash = template)"

text \<open>One pod of the loop: the pod as it leaves it, and the keys it could not classify.\<close>

definition exemptPod ::
  "rolloutRoles \<Rightarrow> flagClasses \<Rightarrow> string \<Rightarrow> string \<Rightarrow> string \<Rightarrow> Pod \<Rightarrow> Pod \<times> string list" where
  "exemptPod roles classes updateRevision flags template pod =
     (if pRevisionHash pod = [] \<or> pRevisionHash pod = updateRevision then (pod, [])
      else if \<not> onTemplate (rlPodTemplates roles) (pName pod) template then (pod, [])
      else let changed = ChangedFlags (case rlPodFlags roles (pName pod) of Some a \<Rightarrow> a | None \<Rightarrow> []) flags in
        if changed = [] then (pod, [])
        else if \<not> fcConfigKnown classes \<or> \<not> fcCoordinatorSettingsKnown classes then (pod, changed)
        else (pod\<lparr>pCurrent := (clFlags (Classify changed (map_of (fcConfig classes))
                (map_of (fcCoordinatorSettings classes))) = [])\<rparr>, []))"

definition exemptRole :: "rolloutRoles \<Rightarrow> flagClasses \<Rightarrow> string \<Rightarrow> string \<Rightarrow> Role \<Rightarrow> Role \<times> string list" where
  "exemptRole roles classes flags template role =
     (let pods = map (exemptPod roles classes (rUpdateRevision role) flags template) (rPods role) in
      (role\<lparr>rPods := map fst pods\<rparr>, concat (map snd pods)))"

text \<open>The roles with the spared pods, and the unclassified keys when there are any.\<close>

definition exemptCurrentPods :: "rolloutRoles \<Rightarrow> flagClasses \<Rightarrow> rolloutRoles \<times> string list option" where
  "exemptCurrentPods roles classes =
     (let (data, keys) = exemptRole roles classes (rlDataFlags roles) (rlDataTemplate roles) (rlData roles);
          (coordinators, keys') = exemptRole roles classes (rlCoordinatorFlags roles) (rlCoordinatorTemplate roles)
            (rlCoordinators roles);
          unclassified = keys @ keys' in
      (roles\<lparr>rlData := data, rlCoordinators := coordinators\<rparr>,
       if unclassified = [] then None else Some (remdups_adj (sort unclassified))))"

section \<open>Reading the annotation back\<close>

definition cleanKey :: "string \<Rightarrow> bool" where
  "cleanKey k \<longleftrightarrow> k \<noteq> [] \<and> CHR ''='' \<notin> set k \<and> CHR 0x0A \<notin> set k"

definition hexDigest :: "(string \<Rightarrow> string) \<Rightarrow> bool" where
  "hexDigest digest \<longleftrightarrow> (\<forall>v. length (digest v) = 16 \<and> set (digest v) \<subseteq> set ''0123456789abcdef'')"

text \<open>What a role's flags come down to in the annotation: its startup flags, each with its digest.\<close>

definition startupDigests :: "(string \<Rightarrow> string) \<Rightarrow> stringMap \<Rightarrow> stringMap" where
  "startupDigests digest flags = [(key, digest flag). (key, flag) \<leftarrow> sort_key fst flags, \<not> IsRuntime key]"

definition cleanFlags :: "stringMap \<Rightarrow> bool" where
  "cleanFlags flags \<longleftrightarrow> distinct (map fst flags) \<and> (\<forall>(k, v) \<in> set flags. cleanKey k)"

lemma splitOn_lines:
  "\<forall>l \<in> set ls. sep \<notin> set l \<Longrightarrow> splitOn sep (concat (map (\<lambda>l. l @ [sep]) ls)) = ls @ [[]]"
proof (induction ls)
  case (Cons l ls)
  have "splitOn sep (w @ sep # rest) = w # splitOn sep rest" if "sep \<notin> set w" for w rest
    using that by (induction w) auto
  with Cons show ?case by simp
qed simp

lemma fold_update_fresh: "distinct (map fst (al @ kvs)) \<Longrightarrow> fold (\<lambda>(k, d). AList.update k d) kvs al = al @ kvs"
proof (induction kvs arbitrary: al)
  case (Cons kv kvs)
  obtain k d where kv: "kv = (k, d)" by (cases kv)
  from Cons.prems kv have "AList.update k d al = al @ [(k, d)]"
    by (induction al) auto
  with Cons kv show ?case by simp
qed simp

lemma hexDigest_D:
  assumes "hexDigest digest" shows "digest v \<noteq> []" and "CHR 0x0A \<notin> set (digest v)" and "CHR ''='' \<notin> set (digest v)"
proof -
  from assms have "length (digest v) = 16" "set (digest v) \<subseteq> set ''0123456789abcdef''"
    by (simp_all add: hexDigest_def)
  then show "digest v \<noteq> []" and "CHR 0x0A \<notin> set (digest v)" and "CHR ''='' \<notin> set (digest v)" by auto
qed

lemma cut_at: "x \<notin> set k \<Longrightarrow> cut (k @ x # d) [x] = Some (k, d)"
  by (induction k) (auto simp: cut_char)

lemma startupDigests_keys:
  assumes "cleanFlags flags"
  shows "distinct (map fst (startupDigests digest flags))"
    and "(k, d) \<in> set (startupDigests digest flags) \<longleftrightarrow> (\<exists>v. (k, v) \<in> set flags \<and> \<not> IsRuntime k \<and> d = digest v)"
proof -
  have "map fst (startupDigests digest flags) = filter (\<lambda>k. \<not> IsRuntime k) (map fst (sort_key fst flags))"
  proof -
    have "map fst (concat (map (\<lambda>(key, flag). if \<not> IsRuntime key then [(key, digest flag)] else []) kvs))
        = filter (\<lambda>k. \<not> IsRuntime k) (map fst kvs)" for kvs by (induction kvs) auto
    then show ?thesis by (simp add: startupDigests_def)
  qed
  moreover have "distinct (map fst (sort_key fst flags))" using assms by (simp add: cleanFlags_def distinct_map)
  ultimately show "distinct (map fst (startupDigests digest flags))" by simp
  show "(k, d) \<in> set (startupDigests digest flags) \<longleftrightarrow> (\<exists>v. (k, v) \<in> set flags \<and> \<not> IsRuntime k \<and> d = digest v)"
    by (auto simp: startupDigests_def split: if_splits)
qed

lemma Parse_flagsDigests:
  assumes "hexDigest digest" and "cleanFlags flags"
  shows "ParseFlagsDigests (flagsDigests digest flags) = startupDigests digest flags"
proof -
  let ?ls = "map (\<lambda>(k, d). k @ ''='' @ d) (startupDigests digest flags)"
  have "concat (map (\<lambda>(key, flag). if \<not> IsRuntime key then [key @ ''='' @ digest flag @ [CHR 0x0A]] else []) kvs)
      = map (\<lambda>l. l @ [CHR 0x0A]) (map (\<lambda>(k, d). k @ ''='' @ d)
          (concat (map (\<lambda>(key, flag). if \<not> IsRuntime key then [(key, digest flag)] else []) kvs)))" for kvs
    by (induction kvs) auto
  then have d: "flagsDigests digest flags = concat (map (\<lambda>l. l @ [CHR 0x0A]) ?ls)"
    by (simp add: flagsDigests_def startupDigests_def)
  have clean: "cleanKey k \<and> CHR 0x0A \<notin> set d" if "(k, d) \<in> set (startupDigests digest flags)" for k d
    using that assms startupDigests_keys(2) [OF assms(2), of k d digest] hexDigest_D(2)
    by (auto simp: cleanFlags_def)
  have "\<forall>l \<in> set ?ls. CHR 0x0A \<notin> set l" using clean by (fastforce simp: cleanKey_def)
  from splitOn_lines [OF this] d have s: "splitOn (CHR 0x0A) (flagsDigests digest flags) = ?ls @ [[]]" by simp
  have "cut (k @ ''='' @ d) ''='' = Some (k, d)" if "cleanKey k" for k d
    using that cut_at [of "CHR ''=''" k d] by (simp add: cleanKey_def)
  then have "fold (\<lambda>line digests. case cut line ''='' of
         Some (key, d) \<Rightarrow> if key \<noteq> [] then AList.update key d digests else digests
       | None \<Rightarrow> digests) (map (\<lambda>(k, d). k @ ''='' @ d) kvs) al = fold (\<lambda>(k, d). AList.update k d) kvs al"
    if "\<forall>(k, d) \<in> set kvs. cleanKey k" for kvs al
    using that by (induction kvs arbitrary: al) (auto simp: cleanKey_def)
  moreover have "\<forall>(k, d) \<in> set (startupDigests digest flags). cleanKey k" using clean by auto
  moreover have "cut [] ''='' = None" by (simp add: cut_char)
  ultimately show ?thesis
    using fold_update_fresh [of "[]" "startupDigests digest flags"] startupDigests_keys(1) [OF assms(2)]
    by (simp add: ParseFlagsDigests_def s)
qed

lemma startup_lookup:
  assumes "cleanFlags flags"
  shows "map_of (startupDigests digest flags) k = (if IsRuntime k then None else map_option digest (map_of flags k))"
proof (cases "map_of (startupDigests digest flags) k")
  case None
  have "IsRuntime k \<or> map_of flags k = None"
  proof (rule ccontr)
    assume "\<not> ?thesis"
    then obtain v where "(k, v) \<in> set flags" "\<not> IsRuntime k" using map_of_SomeD by fastforce
    with startupDigests_keys(2) [OF assms, of k "digest v" digest] have "(k, digest v) \<in> set (startupDigests digest flags)"
      by blast
    with None show False by (force simp: map_of_eq_None_iff)
  qed
  with None show ?thesis by auto
next
  case (Some d)
  then have "(k, d) \<in> set (startupDigests digest flags)" by (rule map_of_SomeD)
  then obtain v where "(k, v) \<in> set flags" "\<not> IsRuntime k" "d = digest v"
    using startupDigests_keys(2) [OF assms, of k d digest] by blast
  with Some assms show ?thesis by (simp add: cleanFlags_def)
qed

lemma set_ChangedFlags:
  "k \<in> set (ChangedFlags before after) \<longleftrightarrow>
     (\<exists>d. (k, d) \<in> set (ParseFlagsDigests after) \<and> get (ParseFlagsDigests before) k \<noteq> d)
     \<or> k \<in> fst ` set (ParseFlagsDigests before) \<and> map_of (ParseFlagsDigests after) k = None"
  by (force simp: ChangedFlags_def Let_def)

lemma set_ChangedFlags_exact:
  assumes "hexDigest digest" and "cleanFlags before" and "cleanFlags after"
  shows "set (ChangedFlags (flagsDigests digest before) (flagsDigests digest after)) =
      {k. \<not> IsRuntime k \<and> map_option digest (map_of before k) \<noteq> map_option digest (map_of after k)}"
proof (intro set_eqI)
  fix k
  let ?old = "startupDigests digest before" and ?new = "startupDigests digest after"
  have nonempty: "map_of ?new k \<noteq> Some []"
    using startup_lookup [OF assms(3), of digest k] hexDigest_D(1) [OF assms(1)] by auto
  have new: "(k, d) \<in> set ?new \<longleftrightarrow> map_of ?new k = Some d" for d
    using map_of_eq_Some_iff [OF startupDigests_keys(1) [OF assms(3)]] by metis
  have old: "k \<in> fst ` set ?old \<longleftrightarrow> map_of ?old k \<noteq> None" by (simp add: map_of_eq_None_iff)
  have "k \<in> set (ChangedFlags (flagsDigests digest before) (flagsDigests digest after))
      \<longleftrightarrow> (\<exists>d. map_of ?new k = Some d \<and> get ?old k \<noteq> d) \<or> map_of ?old k \<noteq> None \<and> map_of ?new k = None"
    unfolding set_ChangedFlags Parse_flagsDigests [OF assms(1,2)] Parse_flagsDigests [OF assms(1,3)] new old ..
  then have "k \<in> set (ChangedFlags (flagsDigests digest before) (flagsDigests digest after))
      \<longleftrightarrow> map_of ?old k \<noteq> map_of ?new k"
    using nonempty by (cases "map_of ?new k"; cases "map_of ?old k") (auto simp: get_def)
  then show "k \<in> set (ChangedFlags (flagsDigests digest before) (flagsDigests digest after)) \<longleftrightarrow>
      k \<in> {k. \<not> IsRuntime k \<and> map_option digest (map_of before k) \<noteq> map_option digest (map_of after k)}"
    unfolding startup_lookup [OF assms(2)] startup_lookup [OF assms(3)] by auto
qed

text \<open>
  The two annotations name exactly the startup flags in which a pod differs from its template:
  \<open>ChangedFlags\<close> of what \<open>flagsDigests\<close> writes for two flag files is, sorted and without repetition, the
  flags that are not run-time settings and were added, removed or given a value with another digest.
\<close>

theorem ChangedFlags_exact:
  assumes "hexDigest digest" and "cleanFlags before" and "cleanFlags after"
  shows "set (ChangedFlags (flagsDigests digest before) (flagsDigests digest after)) =
      {k. \<not> IsRuntime k \<and> map_option digest (map_of before k) \<noteq> map_option digest (map_of after k)}
    \<and> sorted (ChangedFlags (flagsDigests digest before) (flagsDigests digest after))
    \<and> distinct (ChangedFlags (flagsDigests digest before) (flagsDigests digest after))"
  using set_ChangedFlags_exact [OF assms] by (simp add: ChangedFlags_def Let_def)

definition exDigest :: "string \<Rightarrow> string" where
  "exDigest v = map (\<lambda>i. ''0123456789abcdef'' ! ((length v + i) mod 16)) [0..<16]"

lemma exDigest_hex: "hexDigest exDigest"
proof -
  have "''0123456789abcdef'' ! (i mod 16) \<in> set ''0123456789abcdef''" for i
    by (rule nth_mem) simp
  then show ?thesis by (auto simp: hexDigest_def exDigest_def simp del: list.set)
qed

theorem ChangedFlags_exact_witness:
  "''memory_limit'' \<in> set (ChangedFlags (flagsDigests exDigest [(''log_level'', ''INFO'')])
     (flagsDigests exDigest [(''log_level'', ''TRACE''), (''memory_limit'', ''1024'')]))"
proof -
  have c: "cleanFlags [(''log_level'', ''INFO'')]" "cleanFlags [(''log_level'', ''TRACE''), (''memory_limit'', ''1024'')]"
    by (simp_all add: cleanFlags_def cleanKey_def)
  have "\<not> IsRuntime ''memory_limit''" by code_simp
  then show ?thesis using ChangedFlags_exact [OF exDigest_hex c] by auto
qed

section \<open>Only harmless differences are spared\<close>

lemma exemptPod_fst:
  "fst (exemptPod roles classes revision flags template pod) \<noteq> pod \<Longrightarrow>
     onTemplate (rlPodTemplates roles) (pName pod) template \<and> fcConfigKnown classes \<and> fcCoordinatorSettingsKnown classes
     \<and> (let changed = ChangedFlags (case rlPodFlags roles (pName pod) of Some a \<Rightarrow> a | None \<Rightarrow> []) flags;
            current = (clFlags (Classify changed (map_of (fcConfig classes)) (map_of (fcCoordinatorSettings classes))) = []) in
        fst (exemptPod roles classes revision flags template pod) = pod\<lparr>pCurrent := current\<rparr>)"
  by (auto simp: exemptPod_def Let_def split: if_splits)

lemma clFlags_Classify_Nil:
  "clFlags (Classify keys config settings) = [] \<longleftrightarrow> (\<forall>k \<in> set keys. \<not> isFlagName config (Normalize k))"
proof -
  have "sort xs = [] \<longleftrightarrow> xs = []" for xs :: "string list" by (metis set_empty set_sort)
  then show ?thesis by (auto simp: Classify_eq filter_empty_conv)
qed

text \<open>
  A pod is spared its restart only for a harmless difference. Where the loop of \<open>exemptCurrentPods\<close>
  makes a pod of either role current that was not, the pod was created from the role's template apart
  from the flags, Memgraph's two views are known, and every startup flag whose value differs between the
  pod and the template is, by those views, no flag of the running Memgraph; nothing else of the pod
  changes.
\<close>

theorem exemptRole_safe:
  assumes "i < length (rPods role)" and "pod = rPods role ! i"
    and "pod' = rPods (fst (exemptRole roles classes (flagsDigests digest wanted) template role)) ! i"
    and "pCurrent pod'" and "\<not> pCurrent pod"
    and "hexDigest digest" and "cleanFlags started" and "cleanFlags wanted"
    and "rlPodFlags roles (pName pod) = Some (flagsDigests digest started)"
  shows "pod' = pod\<lparr>pCurrent := True\<rparr> \<and> onTemplate (rlPodTemplates roles) (pName pod) template
    \<and> fcConfigKnown classes \<and> fcCoordinatorSettingsKnown classes
    \<and> (\<forall>k. \<not> IsRuntime k \<and> map_option digest (map_of started k) \<noteq> map_option digest (map_of wanted k)
         \<longrightarrow> \<not> isFlagName (map_of (fcConfig classes)) (Normalize k))"
proof -
  have p: "pod' = fst (exemptPod roles classes (rUpdateRevision role) (flagsDigests digest wanted) template pod)"
    using assms(1-3) by (simp add: exemptRole_def Let_def)
  with assms(4,5) have "pod' \<noteq> pod" by auto
  from exemptPod_fst [OF this [unfolded p]] p assms(4,9)
  have e: "onTemplate (rlPodTemplates roles) (pName pod) template" "fcConfigKnown classes"
      "fcCoordinatorSettingsKnown classes" "pod' = pod\<lparr>pCurrent := True\<rparr>"
      "clFlags (Classify (ChangedFlags (flagsDigests digest started) (flagsDigests digest wanted))
         (map_of (fcConfig classes)) (map_of (fcCoordinatorSettings classes))) = []"
    by (auto simp: Let_def)
  from e(5) have "\<forall>k \<in> set (ChangedFlags (flagsDigests digest started) (flagsDigests digest wanted)).
      \<not> isFlagName (map_of (fcConfig classes)) (Normalize k)"
    by (simp only: clFlags_Classify_Nil)
  then show ?thesis using e(1-4) by (simp add: set_ChangedFlags_exact [OF assms(6-8)])
qed

definition exClasses :: flagClasses where
  "exClasses = \<lparr>fcConfig = [(''log_level'', ''INFO'')], fcConfigKnown = True,
     fcCoordinatorSettings = [(''cluster_size'', ''3'')], fcCoordinatorSettingsKnown = True,
     fcCoordinatorSettingsErr = [], fcCoordinators = emptyClassification, fcData = emptyClassification\<rparr>"

definition exFlagRoles :: rolloutRoles where
  "exFlagRoles = exRolling\<lparr>rlPodFlags := [''d0'' \<mapsto> flagsDigests exDigest []], rlPodTemplates := [''d0'' \<mapsto> ''h'']\<rparr>"

theorem exemptRole_safe_witness:
  "\<not> isFlagName (map_of (fcConfig exClasses)) (Normalize ''cluster_size'')"
proof -
  let ?pod = "exPod ''d0'' ''i0'' 0 ''old''" and ?role = "exDataRole ''old'' ''old''"
  let ?pod' = "rPods (fst (exemptRole exFlagRoles exClasses (flagsDigests exDigest [(''cluster_size'', ''5'')]) ''h'' ?role)) ! 0"
  have "pCurrent ?pod'" by code_simp
  moreover have "0 < length (rPods ?role)" "?pod = rPods ?role ! 0" "\<not> pCurrent ?pod"
      "rlPodFlags exFlagRoles (pName ?pod) = Some (flagsDigests exDigest [])"
    by (simp_all add: exDataRole_def exRole_def exPod_def exFlagRoles_def)
  moreover have "cleanFlags []" "cleanFlags [(''cluster_size'', ''5'')]" by (simp_all add: cleanFlags_def cleanKey_def)
  moreover have "\<not> IsRuntime ''cluster_size''" by code_simp
  ultimately show ?thesis
    using exemptRole_safe [of 0 ?role ?pod ?pod' exFlagRoles exClasses exDigest "[(''cluster_size'', ''5'')]" "''h''" "[]"]
      exDigest_hex by auto
qed

end
