(* ===== verification/Conditions.thy ===== *)
theory Conditions
  imports External_Access Flags
begin

text \<open>
  What a pass reports, \<open>src/internal/controller/memgraphdbcluster_controller.go\<close>: the observation and the
  conditions it sets (\<open>setStatus\<close>), the ranking of the Converged reasons (\<open>convergedCondition\<close>), and the
  Ready condition folded from them (\<open>readyCondition\<close>, \<open>summarizeReady\<close>).

  The helpers of \<open>apimeta\<close> on condition lists are the record \<open>conditionOps\<close>, an argument; their
  documented behaviour is \<open>lawfulOps\<close>. A condition carries no transition time.
\<close>

section \<open>Messages\<close>

definition maxConditionMessage :: nat where "maxConditionMessage = 1024"

definition truncateMessage :: "string \<Rightarrow> string" where
  "truncateMessage message = (if length message \<le> maxConditionMessage then message
     else take (maxConditionMessage - 3) message @ ''...'')"

definition joinNonEmpty :: "string list \<Rightarrow> string" where
  "joinNonEmpty messages = join ''. '' (filter (\<lambda>m. m \<noteq> []) messages)"

definition growingMessage :: "volumeOutcome \<Rightarrow> string" where
  "growingMessage outcome =
     (let message = ''Waiting for '' @ join '', '' (voGrowing outcome) @ '' to reach the declared size'' in
      case voErrors outcome of
        [] \<Rightarrow> message @ ''. This takes about a minute on a storage driver that grows volumes in use''
      | report # _ \<Rightarrow>
          let message = message @ ''. The storage driver reports '';
              room = int maxConditionMessage - int (length message) in
          message @ (if int (length report) > room
            then ''...'' @ drop (length report - nat (max (room - 3) 0)) report else report))"

definition coordinatorNames :: "CoordinatorSpec list \<Rightarrow> string list" where
  "coordinatorNames = map csName"

definition instanceNames :: "DataInstanceSpec list \<Rightarrow> string list" where
  "instanceNames = map dsName"

definition retirementMessage :: "Topology \<Rightarrow> string" where
  "retirementMessage topology =
     (let retiring =
        (let names = coordinatorNames (tRetiringCoordinators topology) in
         if names = [] then [] else [''coordinator(s) '' @ join '', '' names])
        @ (let names = instanceNames (tRetiringDataInstances topology) in
           if names = [] then [] else [''data instance(s) '' @ join '', '' names]) in
      if retiring = [] then []
      else ''Retiring '' @ join '' and '' retiring @ '' before their pods are shed'')"

definition yieldedLeader :: "Command list \<Rightarrow> string" where
  "yieldedLeader commands = (if commands = [] then []
     else case last commands of YieldLeadership leader \<Rightarrow> leader | _ \<Rightarrow> [])"

section \<open>Conditions\<close>

definition conditionServing :: string where "conditionServing = ''Serving''"
definition reasonMainElected :: string where "reasonMainElected = ''MainElected''"

definition servingReasons :: "string list" where
  "servingReasons = [ReasonApplyFailed, ReasonWorkloadsNotReady, ReasonCoordinatorUnreachable,
     ReasonNoCoordinatorLeader, ReasonNoMainElected]"

definition newCondition :: "string \<Rightarrow> string \<Rightarrow> string \<Rightarrow> string \<Rightarrow> Condition" where
  "newCondition condType status reason message = \<lparr>cType = condType, cStatus = status, cObservedGeneration = 0,
     cReason = reason, cMessage = message\<rparr>"

definition trueCondition :: "string \<Rightarrow> string \<Rightarrow> string \<Rightarrow> Condition" where
  "trueCondition condType = newCondition condType ConditionTrue"

definition notServingCondition :: "string \<Rightarrow> string \<Rightarrow> Condition" where
  "notServingCondition = newCondition conditionServing ConditionFalse"

definition notConvergedCondition :: "string \<Rightarrow> string \<Rightarrow> Condition" where
  "notConvergedCondition = newCondition ConditionConverged ConditionFalse"

definition notLicenseAppliedCondition :: "string \<Rightarrow> string \<Rightarrow> Condition" where
  "notLicenseAppliedCondition = newCondition ConditionLicenseApplied ConditionFalse"

definition notUpdatedCondition :: "string \<Rightarrow> string \<Rightarrow> Condition" where
  "notUpdatedCondition = newCondition ConditionUpdated ConditionFalse"

definition servingOrNot :: "string \<Rightarrow> Condition" where
  "servingOrNot main =
     (if main = [] then notServingCondition ReasonNoMainElected ''No data instance has been promoted to MAIN yet''
      else trueCondition conditionServing reasonMainElected (''Data instance '' @ main @ '' is MAIN''))"

section \<open>The status a pass records\<close>

record conditionOps =
  coFind :: "Condition list \<Rightarrow> string \<Rightarrow> Condition option"
  coSet :: "Condition list \<Rightarrow> Condition \<Rightarrow> Condition list"
  coRemove :: "Condition list \<Rightarrow> string \<Rightarrow> Condition list"

definition lawfulOps :: "conditionOps \<Rightarrow> bool" where
  "lawfulOps ops \<longleftrightarrow> lawfulConditions (coFind ops) (coSet ops)
     \<and> (\<forall>cs t t'. coFind ops (coRemove ops cs t) t' = (if t' = t then None else coFind ops cs t'))"

record observation =
  obMain :: string
  obRegisteredCoordinators :: int32
  obRegisteredDataInstances :: int32
  obExternalAccess :: "ExternalAccessStatus option"

definition observedMain :: "Instance list \<Rightarrow> string" where
  "observedMain observed = (case find (\<lambda>i. IsMain i \<and> IsUp i) observed of Some i \<Rightarrow> iName i | None \<Rightarrow> [])"

definition observe :: "Topology \<Rightarrow> Instance list \<Rightarrow> observation" where
  "observe topology observed =
     (let (coordinators, dataInstances) = Registered topology observed in
      \<lparr>obMain = observedMain observed, obRegisteredCoordinators = coordinators,
       obRegisteredDataInstances = dataInstances, obExternalAccess = None\<rparr>)"

definition exposedAt :: "observation \<Rightarrow> externalAccess \<Rightarrow> observation" where
  "exposedAt ob exposure = ob\<lparr>obExternalAccess := xaStatus exposure\<rparr>"

definition lastObserved :: "MemgraphDBCluster \<Rightarrow> observation" where
  "lastObserved cluster = \<lparr>obMain = stMain (mcStatus cluster),
     obRegisteredCoordinators = stCoordinators (mcStatus cluster),
     obRegisteredDataInstances = stDataInstances (mcStatus cluster),
     obExternalAccess = stExternalAccess (mcStatus cluster)\<rparr>"

definition setStatus ::
  "conditionOps \<Rightarrow> MemgraphDBCluster \<Rightarrow> observation \<Rightarrow> Condition list \<Rightarrow> MemgraphDBCluster" where
  "setStatus ops cluster observed conditions =
     cluster\<lparr>mcStatus := \<lparr>stMain = obMain observed, stCoordinators = obRegisteredCoordinators observed,
        stDataInstances = obRegisteredDataInstances observed, stExternalAccess = obExternalAccess observed,
        stConditions = foldl (\<lambda>cs c. coSet ops cs (c\<lparr>cObservedGeneration := mcGeneration cluster\<rparr>))
          (stConditions (mcStatus cluster)) conditions\<rparr>\<rparr>"

section \<open>Converged\<close>

record settingsOutcome =
  soPending :: "string list"
  soRejected :: "string list"
  soUnknown :: string

definition noSettingsOutcome :: settingsOutcome where
  "noSettingsOutcome = \<lparr>soPending = [], soRejected = [], soUnknown = []\<rparr>"

definition done_settings :: "settingsOutcome \<Rightarrow> bool" where
  "done_settings o' \<longleftrightarrow> soPending o' = [] \<and> soRejected o' = [] \<and> soUnknown o' = []"

definition merge_settings :: "settingsOutcome \<Rightarrow> settingsOutcome \<Rightarrow> settingsOutcome" where
  "merge_settings o' other = o'\<lparr>soPending := soPending o' @ soPending other, soRejected := soRejected o' @ soRejected other\<rparr>"

text \<open>\<open>serviceMonitorFailure\<close> is the message of the function of that name, empty when there is none.\<close>

definition convergedCondition ::
  "string \<Rightarrow> Topology \<Rightarrow> externalAccess \<Rightarrow> settingsOutcome \<Rightarrow> volumeOutcome \<Rightarrow> Condition" where
  "convergedCondition serviceMonitorFailure topology exposure applied claims =
     (let unservable = joinNonEmpty [xaFailure exposure, serviceMonitorFailure] in
      if unservable \<noteq> [] then notConvergedCondition ReasonApplyFailed unservable
      else if voRefused claims \<noteq> [] then
        notConvergedCondition ReasonVolumeExpansionRefused (truncateMessage (join ''; '' (voRefused claims)))
      else if voFailed claims \<noteq> [] then
        notConvergedCondition ReasonVolumeExpansionFailed (truncateMessage (join ''; '' (voFailed claims)))
      else if xaPending exposure \<noteq> [] then
        notConvergedCondition ReasonExternalAddressPending
          (''Waiting for an external address on '' @ join '', '' (xaPending exposure))
      else if soRejected applied \<noteq> [] then
        notConvergedCondition ReasonSettingsRejected (truncateMessage (join ''; '' (soRejected applied)))
      else if soUnknown applied \<noteq> [] then
        notConvergedCondition ReasonUnknownFlags (truncateMessage (soUnknown applied))
      else if voGrowing claims \<noteq> [] then
        notConvergedCondition ReasonVolumeExpansionInProgress (truncateMessage (growingMessage claims))
      else if soPending applied \<noteq> [] then
        notConvergedCondition ReasonSettingsPending
          (''Waiting to apply run-time settings on '' @ join '', '' (soPending applied))
      else trueCondition ConditionConverged ReasonAllInstancesRegistered
        (''All '' @ itoa (int (length (tCoordinators topology)) + int (length (tDataInstances topology)))
          @ '' declared instances are registered''))"

section \<open>Ready\<close>

fun firstUndecided ::
  "(string \<Rightarrow> Condition option) \<Rightarrow> int64 \<Rightarrow> string list \<Rightarrow> Condition option" where
  "firstUndecided find_cond generation [] = None"
| "firstUndecided find_cond generation (condType # rest) =
     (case find_cond condType of
        None \<Rightarrow> Some (newCondition ConditionReady ConditionUnknown ReasonReconciling
          (condType @ '' has not been decided for the current spec yet''))
      | Some condition \<Rightarrow>
          if cObservedGeneration condition \<noteq> generation then
            Some (newCondition ConditionReady ConditionUnknown ReasonReconciling
              (condType @ '' has not been decided for the current spec yet''))
          else if cStatus condition \<noteq> ConditionTrue then
            let message = (if cMessage condition = [] then ''not decided yet'' else cMessage condition) in
            Some (newCondition ConditionReady (cStatus condition) (cReason condition)
              (truncateMessage (condType @ '': '' @ message)))
          else firstUndecided find_cond generation rest)"

definition readyCondition ::
  "conditionOps \<Rightarrow> Condition option \<Rightarrow> Condition list \<Rightarrow> string \<Rightarrow> int64 \<Rightarrow> Condition" where
  "readyCondition ops serving conditions main generation =
     (let previous = coFind ops conditions ConditionReady;
          summary = (case firstUndecided (coFind ops conditions) generation
                [ConditionLicenseApplied, ConditionConverged, ConditionUpdated] of
              Some c \<Rightarrow> c
            | None \<Rightarrow> trueCondition ConditionReady ReasonReconciled
                (''Data instance '' @ main @ '' is MAIN and the cluster runs the spec it declares'')) in
      case serving of
        None \<Rightarrow> (case previous of
            Some p \<Rightarrow> if cStatus p \<noteq> ConditionTrue \<and> (cReason p \<in> set servingReasons \<or> cReason p = ReasonReconciling)
              then p else summary
          | None \<Rightarrow> summary)
      | Some verdict \<Rightarrow> if cStatus verdict \<noteq> ConditionTrue
          then newCondition ConditionReady (cStatus verdict) (cReason verdict) (cMessage verdict)
          else summary)"

definition summarizeReady :: "conditionOps \<Rightarrow> MemgraphDBCluster \<Rightarrow> MemgraphDBCluster" where
  "summarizeReady ops cluster =
     (let conditions = stConditions (mcStatus cluster);
          serving = coFind ops conditions conditionServing;
          rest = (if serving = None then conditions else coRemove ops conditions conditionServing);
          ready = readyCondition ops serving rest (stMain (mcStatus cluster)) (mcGeneration cluster) in
      cluster\<lparr>mcStatus := (mcStatus cluster)\<lparr>stConditions :=
        coSet ops rest (ready\<lparr>cObservedGeneration := mcGeneration cluster\<rparr>)\<rparr>\<rparr>)"

section \<open>Bounded messages\<close>

lemma truncateMessage_length: "length (truncateMessage m) \<le> maxConditionMessage"
  by (simp add: truncateMessage_def maxConditionMessage_def)

text \<open>
  A message about claims still growing always fits a condition after truncation; and as long as the
  names of the claims leave room for it, the driver's report itself is what is shortened, from the front:
  the message then needs no further truncation and ends with the whole report or with its tail, where a
  driver puts the reason.
\<close>

theorem growingMessage_keeps_reason:
  assumes "voErrors outcome = report # more_reports"
    and "pre = ''Waiting for '' @ join '', '' (voGrowing outcome) @ '' to reach the declared size''
           @ ''. The storage driver reports ''"
    and "length pre + 3 \<le> maxConditionMessage"
  shows "length (growingMessage outcome) \<le> maxConditionMessage
    \<and> truncateMessage (growingMessage outcome) = growingMessage outcome
    \<and> (if length pre + length report \<le> maxConditionMessage then growingMessage outcome = pre @ report
       else growingMessage outcome = pre @ ''...''
              @ drop (length report - (maxConditionMessage - length pre - 3)) report
            \<and> length (growingMessage outcome) = maxConditionMessage)"
proof -
  have shape: "growingMessage outcome = pre @ (if int (length report) > int maxConditionMessage - int (length pre)
      then ''...'' @ drop (length report - nat (max (int maxConditionMessage - int (length pre) - 3) 0)) report
      else report)"
    using assms(1,2) by (simp add: growingMessage_def Let_def)
  have room: "nat (max (int maxConditionMessage - int (length pre) - 3) 0) = maxConditionMessage - length pre - 3"
    using assms(3) by simp
  show ?thesis
  proof (cases "length pre + length report \<le> maxConditionMessage")
    case True
    then have "growingMessage outcome = pre @ report" using shape by simp
    with True show ?thesis by (simp add: truncateMessage_def)
  next
    case False
    then have g: "growingMessage outcome = pre @ ''...''
        @ drop (length report - (maxConditionMessage - length pre - 3)) report"
      using shape room by simp
    have full: "length (growingMessage outcome) = maxConditionMessage"
      unfolding g using False assms(3) by simp
    then have "truncateMessage (growingMessage outcome) = growingMessage outcome" by (simp add: truncateMessage_def)
    then show ?thesis unfolding if_not_P [OF False] by (intro conjI g full eq_refl [OF full])
  qed
qed

theorem growingMessage_keeps_reason_witness:
  "length (growingMessage \<lparr>voGrowing = [''lib-d-0''], voErrors = [''full''], voRefused = [], voFailed = []\<rparr>) \<le> maxConditionMessage
   \<and> growingMessage \<lparr>voGrowing = [''lib-d-0''], voErrors = [''full''], voRefused = [], voFailed = []\<rparr>
       = ''Waiting for lib-d-0 to reach the declared size. The storage driver reports full''"
  using growingMessage_keeps_reason [of "\<lparr>voGrowing = [''lib-d-0''], voErrors = [''full''], voRefused = [], voFailed = []\<rparr>"
      "''full''" "[]" "''Waiting for lib-d-0 to reach the declared size. The storage driver reports ''"]
  by (simp add: maxConditionMessage_def)

section \<open>What Ready says\<close>

definition decidedTrue :: "conditionOps \<Rightarrow> Condition list \<Rightarrow> int64 \<Rightarrow> string \<Rightarrow> bool" where
  "decidedTrue ops cs generation condType \<longleftrightarrow> (\<exists>c. coFind ops cs condType = Some c
     \<and> cObservedGeneration c = generation \<and> cStatus c = ConditionTrue)"

definition keepsReady :: "Condition \<Rightarrow> bool" where
  "keepsReady p \<longleftrightarrow> cStatus p \<noteq> ConditionTrue \<and> (cReason p \<in> set servingReasons \<or> cReason p = ReasonReconciling)"

lemma firstUndecided_None:
  "firstUndecided (coFind ops cs) generation ts = None \<longleftrightarrow> (\<forall>t \<in> set ts. decidedTrue ops cs generation t)"
  by (induction ts) (auto simp: decidedTrue_def Let_def split: option.splits)

lemma firstUndecided_not_True:
  "firstUndecided f generation ts = Some c \<Longrightarrow> cStatus c \<noteq> ConditionTrue"
  by (induction ts) (auto simp: newCondition_def ConditionTrue_def ConditionUnknown_def Let_def
      split: option.splits if_splits)

lemma lawfulOps_set:
  "lawfulOps ops \<Longrightarrow> coFind ops (coSet ops cs c) t = (if t = cType c then Some c else coFind ops cs t)"
  by (simp add: lawfulOps_def lawfulConditions_def)

lemma lawfulOps_remove:
  "lawfulOps ops \<Longrightarrow> coFind ops (coRemove ops cs t) t' = (if t' = t then None else coFind ops cs t')"
  by (simp add: lawfulOps_def)

lemma lawfulOps_type: "lawfulOps ops \<Longrightarrow> coFind ops cs t = Some c \<Longrightarrow> cType c = t"
  by (auto simp: lawfulOps_def lawfulConditions_def)

lemma firstUndecided_type:
  "firstUndecided f generation ts = Some c \<Longrightarrow> cType c = ConditionReady"
  by (induction ts) (auto simp: newCondition_def Let_def split: option.splits if_splits)

lemma readyCondition_type:
  "lawfulOps ops \<Longrightarrow> cType (readyCondition ops serving cs main generation) = ConditionReady"
  by (auto simp: readyCondition_def Let_def newCondition_def trueCondition_def
      split: option.splits dest: lawfulOps_type firstUndecided_type)

abbreviation conditionsOf :: "MemgraphDBCluster \<Rightarrow> Condition list" where
  "conditionsOf cluster \<equiv> stConditions (mcStatus cluster)"

definition unserving :: "conditionOps \<Rightarrow> Condition list \<Rightarrow> Condition list" where
  "unserving ops cs = (if coFind ops cs conditionServing = None then cs else coRemove ops cs conditionServing)"

lemma unserving_find:
  "lawfulOps ops \<Longrightarrow> coFind ops (unserving ops cs) t = (if t = conditionServing then None else coFind ops cs t)"
  by (auto simp: unserving_def lawfulOps_remove)

lemma summarizeReady_find:
  assumes "lawfulOps ops"
  shows "coFind ops (conditionsOf (summarizeReady ops cluster)) t =
    (if t = ConditionReady then Some ((readyCondition ops (coFind ops (conditionsOf cluster) conditionServing)
        (unserving ops (conditionsOf cluster)) (stMain (mcStatus cluster)) (mcGeneration cluster))
          \<lparr>cObservedGeneration := mcGeneration cluster\<rparr>)
     else if t = conditionServing then None else coFind ops (conditionsOf cluster) t)"
proof -
  have "stConditions (mcStatus (summarizeReady ops cluster)) = coSet ops (unserving ops (conditionsOf cluster))
      ((readyCondition ops (coFind ops (conditionsOf cluster) conditionServing) (unserving ops (conditionsOf cluster))
          (stMain (mcStatus cluster)) (mcGeneration cluster))\<lparr>cObservedGeneration := mcGeneration cluster\<rparr>)"
    by (simp add: summarizeReady_def Let_def unserving_def)
  then show ?thesis using assms by (simp add: lawfulOps_set readyCondition_type unserving_find)
qed

lemma decided_unserving:
  "lawfulOps ops \<Longrightarrow> t \<in> {ConditionLicenseApplied, ConditionConverged, ConditionUpdated} \<Longrightarrow>
     decidedTrue ops (unserving ops cs) g t = decidedTrue ops cs g t"
  by (auto simp: decidedTrue_def unserving_find conditionServing_def condition_defs)

lemma readyCondition_True:
  assumes "lawfulOps ops"
  shows "cStatus (readyCondition ops serving (unserving ops cs) main g) = ConditionTrue \<longleftrightarrow>
    (case serving of Some verdict \<Rightarrow> cStatus verdict = ConditionTrue
     | None \<Rightarrow> \<not> (\<exists>p. coFind ops cs ConditionReady = Some p \<and> keepsReady p))
    \<and> (\<forall>t \<in> {ConditionLicenseApplied, ConditionConverged, ConditionUpdated}. decidedTrue ops cs g t)"
proof -
  let ?ts = "[ConditionLicenseApplied, ConditionConverged, ConditionUpdated]"
  let ?first = "firstUndecided (coFind ops (unserving ops cs)) g ?ts"
  have all: "?first = None \<longleftrightarrow> (\<forall>t \<in> set ?ts. decidedTrue ops cs g t)"
    using decided_unserving [OF assms, of _ cs g] by (simp add: firstUndecided_None del: firstUndecided.simps)
  have previous: "coFind ops (unserving ops cs) ConditionReady = coFind ops cs ConditionReady"
    using assms by (simp add: unserving_find conditionServing_def condition_defs)
  have summary: "cStatus (case ?first of Some c \<Rightarrow> c | None \<Rightarrow> trueCondition ConditionReady ReasonReconciled m)
      = ConditionTrue \<longleftrightarrow> (\<forall>t \<in> set ?ts. decidedTrue ops cs g t)" for m
    using firstUndecided_not_True [of "coFind ops (unserving ops cs)" g ?ts]
    unfolding all [symmetric] by (cases ?first) (simp_all add: trueCondition_def newCondition_def)
  show ?thesis
    using summary
    by (auto simp: readyCondition_def Let_def previous keepsReady_def newCondition_def
        simp del: firstUndecided.simps split: option.splits)
qed

text \<open>
  Ready is True after a pass exactly when the license, registration and the pods are all decided True
  for the current generation and the cluster serves: by this pass's verdict when it gave one, and
  otherwise unless the previous Ready said not serving or not decided. The serving verdict itself never
  reaches the API, and no other condition changes.
\<close>

theorem summarizeReady_exact:
  assumes "lawfulOps ops"
  shows "(\<exists>c. coFind ops (conditionsOf (summarizeReady ops cluster)) ConditionReady = Some c
      \<and> cObservedGeneration c = mcGeneration cluster
      \<and> (cStatus c = ConditionTrue \<longleftrightarrow>
           (case coFind ops (conditionsOf cluster) conditionServing of
              Some verdict \<Rightarrow> cStatus verdict = ConditionTrue
            | None \<Rightarrow> \<not> (\<exists>p. coFind ops (conditionsOf cluster) ConditionReady = Some p \<and> keepsReady p))
           \<and> (\<forall>t \<in> {ConditionLicenseApplied, ConditionConverged, ConditionUpdated}.
                decidedTrue ops (conditionsOf cluster) (mcGeneration cluster) t)))
    \<and> coFind ops (conditionsOf (summarizeReady ops cluster)) conditionServing = None
    \<and> (\<forall>t. t \<noteq> ConditionReady \<and> t \<noteq> conditionServing \<longrightarrow>
         coFind ops (conditionsOf (summarizeReady ops cluster)) t = coFind ops (conditionsOf cluster) t)"
  using readyCondition_True [OF assms]
  by (simp add: summarizeReady_find [OF assms] conditionServing_def condition_defs)

text \<open>A lawful implementation: the list searched from the front.\<close>

definition frontOps :: conditionOps where
  "frontOps = \<lparr>coFind = frontFind, coSet = frontSet, coRemove = (\<lambda>cs t. filter (\<lambda>c. cType c \<noteq> t) cs)\<rparr>"

lemma frontOps_lawful: "lawfulOps frontOps"
proof -
  have "frontFind (filter (\<lambda>c. cType c \<noteq> t) cs) t' = (if t' = t then None else frontFind cs t')" for cs t t'
    by (induction cs) (auto simp: frontFind_def)
  then show ?thesis by (simp add: lawfulOps_def frontOps_def frontConditions_lawful)
qed

definition withConditions :: "Condition list \<Rightarrow> MemgraphDBCluster" where
  "withConditions cs = exCluster\<lparr>mcStatus := (mcStatus exCluster)\<lparr>stConditions := cs\<rparr>\<rparr>"

theorem summarizeReady_exact_witness:
  "coFind frontOps (conditionsOf (summarizeReady frontOps (withConditions [servingOrNot ''d0'']))) conditionServing = None"
  using summarizeReady_exact [OF frontOps_lawful, of "withConditions [servingOrNot ''d0'']"] by blast

section \<open>Ready over a history of passes\<close>

text \<open>
  What a pass reports before it is summarised: the conditions it hands to \<open>setStatus\<close>. None of them is
  Ready, and a verdict that the cluster does not serve carries one of \<open>servingReasons\<close>.
\<close>

definition reportable :: "Condition \<Rightarrow> bool" where
  "reportable c \<longleftrightarrow> cType c \<noteq> ConditionReady
     \<and> (cType c = conditionServing \<longrightarrow> cStatus c = ConditionTrue \<or> cReason c \<in> set servingReasons)"

type_synonym reports = "(observation \<times> Condition list) list"

definition report :: "conditionOps \<Rightarrow> MemgraphDBCluster \<Rightarrow> reports \<Rightarrow> MemgraphDBCluster" where
  "report ops = foldl (\<lambda>cluster (ob, conditions). setStatus ops cluster ob conditions)"

definition lastVerdict :: "bool option \<Rightarrow> reports \<Rightarrow> bool option" where
  "lastVerdict v reports = foldl (\<lambda>v c. if cType c = conditionServing then Some (cStatus c = ConditionTrue) else v)
     v (concat (map snd reports))"

definition initialized :: "conditionOps \<Rightarrow> MemgraphDBCluster \<Rightarrow> MemgraphDBCluster" where
  "initialized ops cluster = cluster\<lparr>mcStatus := (mcStatus cluster)\<lparr>stConditions :=
     InitializeConditions (coFind ops) (coSet ops) (mcGeneration cluster) (conditionsOf cluster)\<rparr>\<rparr>"

text \<open>
  The resource between passes, with the last serving verdict of any pass so far: it starts without
  conditions, the spec may be edited at any time, and each pass initialises, reports and summarises.
\<close>

inductive history :: "conditionOps \<Rightarrow> MemgraphDBCluster \<Rightarrow> bool option \<Rightarrow> bool" for ops where
  created: "coFind ops (conditionsOf cluster) ConditionReady = None
    \<Longrightarrow> coFind ops (conditionsOf cluster) conditionServing = None \<Longrightarrow> history ops cluster None"
| edited: "history ops cluster v \<Longrightarrow> history ops (cluster\<lparr>mcSpec := spec, mcGeneration := generation\<rparr>) v"
| passed: "history ops cluster v \<Longrightarrow> \<forall>(ob, cs) \<in> set reports. \<forall>c \<in> set cs. reportable c
    \<Longrightarrow> history ops (summarizeReady ops (report ops (initialized ops cluster) reports)) (lastVerdict v reports)"

lemma setStatus_generation [simp]: "mcGeneration (setStatus ops cluster ob cs) = mcGeneration cluster"
  by (simp add: setStatus_def)

text \<open>How the two lookups that matter change under reports.\<close>

definition verdictIn :: "bool option \<Rightarrow> Condition option \<Rightarrow> bool option \<Rightarrow> bool" where
  "verdictIn before serving after \<longleftrightarrow> (case serving of None \<Rightarrow> after = before
     | Some c \<Rightarrow> after = Some (cStatus c = ConditionTrue)
         \<and> (cStatus c = ConditionTrue \<or> cReason c \<in> set servingReasons))"

lemma setStatus_find:
  assumes "lawfulOps ops" "\<forall>c \<in> set cs. reportable c"
    "verdictIn before (coFind ops (conditionsOf cluster) conditionServing) v"
  shows "coFind ops (conditionsOf (setStatus ops cluster ob cs)) ConditionReady
       = coFind ops (conditionsOf cluster) ConditionReady
    \<and> verdictIn before (coFind ops (conditionsOf (setStatus ops cluster ob cs)) conditionServing)
         (foldl (\<lambda>v c. if cType c = conditionServing then Some (cStatus c = ConditionTrue) else v) v cs)"
proof -
  have "coFind ops (foldl (\<lambda>cs c. coSet ops cs (c\<lparr>cObservedGeneration := g\<rparr>)) ds cs) ConditionReady = coFind ops ds ConditionReady
    \<and> verdictIn before (coFind ops (foldl (\<lambda>cs c. coSet ops cs (c\<lparr>cObservedGeneration := g\<rparr>)) ds cs) conditionServing)
         (foldl (\<lambda>v c. if cType c = conditionServing then Some (cStatus c = ConditionTrue) else v) v cs)"
    if "verdictIn before (coFind ops ds conditionServing) v" for ds g
    using assms(2) that
  proof (induction cs arbitrary: ds v)
    case (Cons c cs)
    let ?ds = "coSet ops ds (c\<lparr>cObservedGeneration := g\<rparr>)"
    from Cons.prems have "verdictIn before (coFind ops ?ds conditionServing)
        (if cType c = conditionServing then Some (cStatus c = ConditionTrue) else v)"
      by (auto simp: lawfulOps_set [OF assms(1)] verdictIn_def reportable_def)
    from Cons.IH [OF _ this] Cons.prems(1) show ?case
      by (auto simp: lawfulOps_set [OF assms(1)] reportable_def)
  qed simp
  with assms(3) show ?thesis by (simp add: setStatus_def)
qed

lemma report_find:
  assumes "lawfulOps ops" "\<forall>(ob, cs) \<in> set reports. \<forall>c \<in> set cs. reportable c"
    "verdictIn before (coFind ops (conditionsOf cluster) conditionServing) v"
  shows "coFind ops (conditionsOf (report ops cluster reports)) ConditionReady
       = coFind ops (conditionsOf cluster) ConditionReady
    \<and> verdictIn before (coFind ops (conditionsOf (report ops cluster reports)) conditionServing) (lastVerdict v reports)"
  using assms(2,3)
proof (induction reports arbitrary: cluster v)
  case (Cons r reports)
  obtain ob cs where r: "r = (ob, cs)" by (cases r)
  let ?v = "foldl (\<lambda>v c. if cType c = conditionServing then Some (cStatus c = ConditionTrue) else v) v cs"
  from setStatus_find [OF assms(1) _ Cons.prems(2), of cs ob] Cons.prems(1)
  have step: "coFind ops (conditionsOf (setStatus ops cluster ob cs)) ConditionReady
      = coFind ops (conditionsOf cluster) ConditionReady"
    "verdictIn before (coFind ops (conditionsOf (setStatus ops cluster ob cs)) conditionServing) ?v" by (auto simp: r)
  have "lastVerdict v ((ob, cs) # reports) = lastVerdict ?v reports" by (simp add: lastVerdict_def)
  with Cons.IH [OF _ step(2)] Cons.prems(1) step(1) show ?case by (simp add: report_def r)
qed (simp add: report_def lastVerdict_def)

definition readyJustified :: "conditionOps \<Rightarrow> MemgraphDBCluster \<Rightarrow> bool option \<Rightarrow> bool" where
  "readyJustified ops cluster v \<longleftrightarrow> coFind ops (conditionsOf cluster) conditionServing = None
     \<and> (v \<noteq> Some True \<longrightarrow> (\<forall>p. coFind ops (conditionsOf cluster) ConditionReady = Some p \<longrightarrow> keepsReady p))"

lemma initialized_find:
  assumes "lawfulOps ops"
  shows "coFind ops (conditionsOf (initialized ops cluster)) t =
    (case coFind ops (conditionsOf cluster) t of Some c \<Rightarrow> Some c
     | None \<Rightarrow> if t \<in> set conditionTypes
         then Some (newCondition t ConditionUnknown ReasonReconciling []\<lparr>cObservedGeneration := mcGeneration cluster\<rparr>)
         else None)"
  using assms unfolding lawfulOps_def
  by (auto simp: initialized_def InitializeConditions_find newCondition_def split: option.split)

lemma readyCondition_verdict:
  "readyCondition ops (Some verdict) cs main g =
     (if cStatus verdict \<noteq> ConditionTrue
      then newCondition ConditionReady (cStatus verdict) (cReason verdict) (cMessage verdict)
      else case firstUndecided (coFind ops cs) g [ConditionLicenseApplied, ConditionConverged, ConditionUpdated] of
          Some c \<Rightarrow> c
        | None \<Rightarrow> trueCondition ConditionReady ReasonReconciled
            (''Data instance '' @ main @ '' is MAIN and the cluster runs the spec it declares''))"
  by (simp add: readyCondition_def Let_def del: firstUndecided.simps)

lemma readyCondition_kept:
  "coFind ops cs ConditionReady = Some p \<Longrightarrow> keepsReady p \<Longrightarrow> readyCondition ops None cs main g = p"
  by (simp add: readyCondition_def Let_def keepsReady_def)

lemma summarizeReady_justified:
  assumes "lawfulOps ops" "verdictIn before (coFind ops (conditionsOf cluster) conditionServing) v"
    "before \<noteq> Some True \<longrightarrow> (\<exists>p. coFind ops (conditionsOf cluster) ConditionReady = Some p \<and> keepsReady p)"
  shows "readyJustified ops (summarizeReady ops cluster) v"
proof -
  have ready: "coFind ops (unserving ops (conditionsOf cluster)) ConditionReady
      = coFind ops (conditionsOf cluster) ConditionReady"
    using assms(1) by (simp add: unserving_find conditionServing_def condition_defs)
  have "keepsReady (readyCondition ops (coFind ops (conditionsOf cluster) conditionServing)
      (unserving ops (conditionsOf cluster)) m g)" if "v \<noteq> Some True" for m g
  proof (cases "coFind ops (conditionsOf cluster) conditionServing")
    case None
    with assms(2) that have "before \<noteq> Some True" by (simp add: verdictIn_def)
    with assms(3) obtain p where "coFind ops (conditionsOf cluster) ConditionReady = Some p" "keepsReady p" by blast
    with None ready show ?thesis by (simp add: readyCondition_kept)
  next
    case (Some verdict)
    with assms(2) that have "cStatus verdict \<noteq> ConditionTrue" "cReason verdict \<in> set servingReasons"
      by (auto simp: verdictIn_def)
    with Some show ?thesis by (simp add: readyCondition_verdict keepsReady_def newCondition_def)
  qed
  then show ?thesis using assms(1)
    by (auto simp: readyJustified_def summarizeReady_find keepsReady_def conditionServing_def condition_defs)
qed

lemma history_justified:
  assumes "lawfulOps ops" "history ops cluster v"
  shows "readyJustified ops cluster v"
  using assms(2)
proof induction
  case (passed cluster v reports)
  let ?c = "initialized ops cluster"
  have serving: "verdictIn v (coFind ops (conditionsOf ?c) conditionServing) v"
    using passed.IH by (simp add: readyJustified_def initialized_find [OF assms(1)] verdictIn_def conditionTypes_def
        conditionServing_def condition_defs)
  have kept: "v \<noteq> Some True \<longrightarrow> (\<exists>p. coFind ops (conditionsOf ?c) ConditionReady = Some p \<and> keepsReady p)"
    using passed.IH
    by (auto simp: readyJustified_def initialized_find [OF assms(1)] conditionTypes_def keepsReady_def newCondition_def
        ConditionUnknown_def ConditionTrue_def split: option.splits)
  from report_find [OF assms(1) passed.hyps(2) serving]
  show ?case using kept by (intro summarizeReady_justified [OF assms(1)]) auto
qed (simp_all add: readyJustified_def)

text \<open>
  Ready is never True on a resource whose cluster was not seen serving: whatever passes ran and
  whatever edits came between them, a True Ready means that the last pass that observed the cluster, or
  failed trying, saw a reachable MAIN.
\<close>

theorem Ready_needs_served:
  assumes "lawfulOps ops" "history ops cluster v"
    and "coFind ops (conditionsOf cluster) ConditionReady = Some c" "cStatus c = ConditionTrue"
  shows "v = Some True"
  using history_justified [OF assms(1,2)] assms(3,4) by (auto simp: readyJustified_def keepsReady_def)

definition exObservation :: observation where
  "exObservation = \<lparr>obMain = ''d0'', obRegisteredCoordinators = 3, obRegisteredDataInstances = 2, obExternalAccess = None\<rparr>"

text \<open>A pass that sees everything in place.\<close>

definition exReports :: reports where
  "exReports = [(exObservation, [servingOrNot ''d0'',
     trueCondition ConditionLicenseApplied ReasonLicenseMatchesSecret [],
     trueCondition ConditionConverged ReasonAllInstancesRegistered [],
     trueCondition ConditionUpdated ReasonAllPodsUpdated []])]"

definition exServed :: MemgraphDBCluster where
  "exServed = summarizeReady frontOps (report frontOps (initialized frontOps (withConditions [])) exReports)"

theorem Ready_needs_served_witness:
  "\<exists>v c. history frontOps exServed v \<and> v = Some True
     \<and> coFind frontOps (conditionsOf exServed) ConditionReady = Some c \<and> cStatus c = ConditionTrue"
proof -
  have start: "history frontOps (withConditions []) None"
    by (rule history.created) (simp_all add: withConditions_def frontOps_def frontFind_def)
  have reps: "\<forall>(ob, cs) \<in> set exReports. \<forall>c \<in> set cs. reportable c"
    by (simp add: exReports_def reportable_def servingOrNot_def trueCondition_def newCondition_def conditionServing_def
        condition_defs)
  from history.passed [OF start reps] have h: "history frontOps exServed (lastVerdict None exReports)"
    by (simp add: exServed_def)
  have "(case coFind frontOps (conditionsOf exServed) ConditionReady of None \<Rightarrow> False
      | Some c \<Rightarrow> cStatus c = ConditionTrue)" by code_simp
  then obtain c where "coFind frontOps (conditionsOf exServed) ConditionReady = Some c" "cStatus c = ConditionTrue"
    by (simp split: option.splits)
  with Ready_needs_served [OF frontOps_lawful h this] h show ?thesis by blast
qed

section \<open>A Ready that outlives its reason\<close>

text \<open>
  C20: an exposure the cluster cannot serve makes Converged False with reason ApplyFailed, which Ready
  takes over although the cluster serves. Because ApplyFailed also counts among the reasons of a cluster
  that does not serve, the next pass that ends before it observes the cluster keeps that Ready, under the
  new generation, whatever it reports for Converged instead.
\<close>

theorem stale_ApplyFailed_kept:
  assumes "lawfulOps ops"
    and "coFind ops (conditionsOf cluster) conditionServing = Some verdict" "cStatus verdict = ConditionTrue"
    and "decidedTrue ops (conditionsOf cluster) (mcGeneration cluster) ConditionLicenseApplied"
    and "coFind ops (conditionsOf cluster) ConditionConverged
           = Some (convergedCondition [] topology exposure applied claims\<lparr>cObservedGeneration := mcGeneration cluster\<rparr>)"
    and "xaFailure exposure \<noteq> []"
    and "edited = (summarizeReady ops cluster)\<lparr>mcSpec := spec, mcGeneration := generation\<rparr>"
    and "after = summarizeReady ops (setStatus ops edited (lastObserved edited)
           [notConvergedCondition ReasonVolumeExpansionInProgress message])"
  shows "\<exists>ready. coFind ops (conditionsOf edited) ConditionReady = Some ready
      \<and> cReason ready = ReasonApplyFailed
      \<and> cMessage ready = truncateMessage (ConditionConverged @ '': '' @ xaFailure exposure)
      \<and> coFind ops (conditionsOf after) ConditionReady = Some (ready\<lparr>cObservedGeneration := generation\<rparr>)
      \<and> map_option cReason (coFind ops (conditionsOf after) ConditionConverged) = Some ReasonVolumeExpansionInProgress"
proof -
  note find = summarizeReady_find [OF assms(1)]
  let ?ready = "newCondition ConditionReady ConditionFalse ReasonApplyFailed
    (truncateMessage (ConditionConverged @ '': '' @ xaFailure exposure))\<lparr>cObservedGeneration := mcGeneration cluster\<rparr>"
  have conv: "convergedCondition [] topology exposure applied claims = notConvergedCondition ReasonApplyFailed (xaFailure exposure)"
    using assms(6) by (simp add: convergedCondition_def joinNonEmpty_def Let_def)
  have distinct: "ConditionLicenseApplied \<noteq> conditionServing" "ConditionConverged \<noteq> conditionServing"
    "ConditionReady \<noteq> conditionServing" "ConditionConverged \<noteq> ConditionReady" "conditionServing \<noteq> ConditionReady"
    by (simp_all add: conditionServing_def condition_defs)
  have first: "firstUndecided (coFind ops (unserving ops (conditionsOf cluster))) (mcGeneration cluster)
      [ConditionLicenseApplied, ConditionConverged, ConditionUpdated]
    = Some (newCondition ConditionReady ConditionFalse ReasonApplyFailed
        (truncateMessage (ConditionConverged @ '': '' @ xaFailure exposure)))"
    using assms(4,5,6)
    by (auto simp: unserving_find [OF assms(1)] distinct decidedTrue_def conv notConvergedCondition_def newCondition_def
        ConditionTrue_def ConditionFalse_def)
  have before: "coFind ops (conditionsOf edited) ConditionReady = Some ?ready"
    using assms(2,3) first by (simp add: assms(7) find readyCondition_verdict del: firstUndecided.simps)
  have quiet: "coFind ops (conditionsOf edited) conditionServing = None"
    by (simp add: assms(7) find distinct)
  let ?mid = "setStatus ops edited (lastObserved edited) [notConvergedCondition ReasonVolumeExpansionInProgress message]"
  have mid: "coFind ops (conditionsOf ?mid) t = (if t = ConditionConverged
      then Some (notConvergedCondition ReasonVolumeExpansionInProgress message\<lparr>cObservedGeneration := mcGeneration edited\<rparr>)
      else coFind ops (conditionsOf edited) t)" for t
    by (simp add: setStatus_def lawfulOps_set [OF assms(1)] notConvergedCondition_def newCondition_def)
  have generation: "mcGeneration edited = generation" by (simp add: assms(7))
  have keeps: "keepsReady ?ready"
    by (simp add: keepsReady_def newCondition_def servingReasons_def ConditionTrue_def ConditionFalse_def)
  have "coFind ops (unserving ops (conditionsOf ?mid)) ConditionReady = Some ?ready"
    using before by (simp add: unserving_find [OF assms(1)] distinct mid distinct [symmetric])
  then have kept: "readyCondition ops None (unserving ops (conditionsOf ?mid)) m g = ?ready" for m g
    using keeps by (rule readyCondition_kept)
  have "coFind ops (conditionsOf after) ConditionReady = Some (?ready\<lparr>cObservedGeneration := generation\<rparr>)"
    using quiet kept by (simp add: assms(8) find mid distinct distinct [symmetric] generation)
  moreover have "map_option cReason (coFind ops (conditionsOf after) ConditionConverged) = Some ReasonVolumeExpansionInProgress"
    by (simp add: assms(8) find mid distinct) (simp add: notConvergedCondition_def newCondition_def)
  ultimately show ?thesis using before by (intro exI [of _ ?ready]) (simp add: newCondition_def)
qed

definition exUnservable :: externalAccess where
  "exUnservable = newExternalAccess\<lparr>xaFailure := ''no Gateway API''\<rparr>"

definition exServingUnservable :: MemgraphDBCluster where
  "exServingUnservable = report frontOps (withConditions [])
     [(exObservation, [servingOrNot ''d0'', trueCondition ConditionLicenseApplied ReasonLicenseMatchesSecret [],
        convergedCondition [] \<lparr>tCoordinators = [], tDataInstances = [], tRetiringCoordinators = [],
          tRetiringDataInstances = []\<rparr> exUnservable noSettingsOutcome noOutcome])]"

theorem stale_ApplyFailed_kept_witness:
  "\<exists>edited ready. edited = (summarizeReady frontOps exServingUnservable)\<lparr>mcSpec := emptySpec, mcGeneration := 2\<rparr>
     \<and> coFind frontOps (conditionsOf (summarizeReady frontOps (setStatus frontOps edited (lastObserved edited)
          [notConvergedCondition ReasonVolumeExpansionInProgress ''Recreating'']))) ConditionReady = Some ready
     \<and> cReason ready = ReasonApplyFailed \<and> cObservedGeneration ready = 2"
proof -
  let ?t = "\<lparr>tCoordinators = [], tDataInstances = [], tRetiringCoordinators = [], tRetiringDataInstances = []\<rparr>"
  have served: "coFind frontOps (conditionsOf exServingUnservable) conditionServing
      = Some (servingOrNot ''d0''\<lparr>cObservedGeneration := 1\<rparr>)"
    by code_simp
  have license: "decidedTrue frontOps (conditionsOf exServingUnservable) (mcGeneration exServingUnservable) ConditionLicenseApplied"
  proof -
    have "coFind frontOps (conditionsOf exServingUnservable) ConditionLicenseApplied
      = Some (trueCondition ConditionLicenseApplied ReasonLicenseMatchesSecret []\<lparr>cObservedGeneration := 1\<rparr>)"
      by code_simp
    moreover have "mcGeneration exServingUnservable = 1" by code_simp
    ultimately show ?thesis by (simp add: decidedTrue_def trueCondition_def newCondition_def)
  qed
  have converged: "coFind frontOps (conditionsOf exServingUnservable) ConditionConverged
      = Some (convergedCondition [] ?t exUnservable noSettingsOutcome noOutcome\<lparr>cObservedGeneration := mcGeneration exServingUnservable\<rparr>)"
    by code_simp
  have "cStatus (servingOrNot ''d0''\<lparr>cObservedGeneration := 1\<rparr>) = ConditionTrue" "xaFailure exUnservable \<noteq> []"
    by code_simp+
  from stale_ApplyFailed_kept [OF frontOps_lawful served this(1) license converged this(2) refl refl,
      where spec = emptySpec and generation = 2 and message = "''Recreating''"]
  show ?thesis by auto
qed

end
