(* ===== verification/Events.thy ===== *)
theory Events
  imports Conditions Registration
begin

text \<open>
  \<open>src/internal/controller/events.go\<close>: the Events the operator records, and the client a plan is run
  through, which records one for every answer of the leader (\<open>recordingClient\<close>).

  The recorder is a log kept beside the state of the cluster. A related object is its kind, namespace
  and name. The locale \<open>client_simulation\<close> is the contract of a client that wraps another: every query
  does to the wrapped state what the inner client does, and answers the same.
\<close>

section \<open>Events\<close>

definition EventReasonCoordinatorAdded :: string where "EventReasonCoordinatorAdded = ''CoordinatorAdded''"
definition EventReasonCoordinatorAdditionRefused :: string where "EventReasonCoordinatorAdditionRefused = ''CoordinatorAdditionRefused''"
definition EventReasonInstanceRegistered :: string where "EventReasonInstanceRegistered = ''InstanceRegistered''"
definition EventReasonInstanceRegistrationRefused :: string where "EventReasonInstanceRegistrationRefused = ''InstanceRegistrationRefused''"
definition EventReasonMainPromoted :: string where "EventReasonMainPromoted = ''MainPromoted''"
definition EventReasonMainPromotionRefused :: string where "EventReasonMainPromotionRefused = ''MainPromotionRefused''"
definition EventReasonMainDemoted :: string where "EventReasonMainDemoted = ''MainDemoted''"
definition EventReasonMainDemotionRefused :: string where "EventReasonMainDemotionRefused = ''MainDemotionRefused''"
definition EventReasonInstanceUnregistered :: string where "EventReasonInstanceUnregistered = ''InstanceUnregistered''"
definition EventReasonInstanceUnregistrationRefused :: string where "EventReasonInstanceUnregistrationRefused = ''InstanceUnregistrationRefused''"
definition EventReasonCoordinatorRemoved :: string where "EventReasonCoordinatorRemoved = ''CoordinatorRemoved''"
definition EventReasonCoordinatorRemovalRefused :: string where "EventReasonCoordinatorRemovalRefused = ''CoordinatorRemovalRefused''"
definition EventReasonLeadershipYielded :: string where "EventReasonLeadershipYielded = ''LeadershipYielded''"
definition EventReasonLeadershipYieldRefused :: string where "EventReasonLeadershipYieldRefused = ''LeadershipYieldRefused''"
definition EventReasonBoltServerUpdated :: string where "EventReasonBoltServerUpdated = ''BoltServerUpdated''"
definition EventReasonBoltServerUpdateRefused :: string where "EventReasonBoltServerUpdateRefused = ''BoltServerUpdateRefused''"
definition EventReasonSettingApplied :: string where "EventReasonSettingApplied = ''SettingApplied''"
definition EventReasonSettingRejected :: string where "EventReasonSettingRejected = ''SettingRejected''"
definition EventReasonCoordinatorSettingApplied :: string where "EventReasonCoordinatorSettingApplied = ''CoordinatorSettingApplied''"
definition EventReasonPodRestarted :: string where "EventReasonPodRestarted = ''PodRestarted''"

definition eventActionRegister :: string where "eventActionRegister = ''Register''"
definition eventActionPromote :: string where "eventActionPromote = ''Promote''"
definition eventActionDemote :: string where "eventActionDemote = ''Demote''"
definition eventActionUnregister :: string where "eventActionUnregister = ''Unregister''"
definition eventActionYield :: string where "eventActionYield = ''YieldLeadership''"
definition eventActionUpdateConfig :: string where "eventActionUpdateConfig = ''UpdateConfig''"
definition eventActionSetCoordinatorSetting :: string where "eventActionSetCoordinatorSetting = ''SetCoordinatorSetting''"
definition eventActionSetLicense :: string where "eventActionSetLicense = ''SetLicense''"
definition eventActionSetAWSCredentials :: string where "eventActionSetAWSCredentials = ''SetAWSCredentials''"
definition eventActionSetRunTimeFlags :: string where "eventActionSetRunTimeFlags = ''SetRunTimeFlags''"
definition eventActionRestart :: string where "eventActionRestart = ''Restart''"

lemmas event_reasons = EventReasonCoordinatorAdded_def EventReasonCoordinatorAdditionRefused_def
  EventReasonInstanceRegistered_def EventReasonInstanceRegistrationRefused_def EventReasonMainPromoted_def
  EventReasonMainPromotionRefused_def EventReasonMainDemoted_def EventReasonMainDemotionRefused_def
  EventReasonInstanceUnregistered_def EventReasonInstanceUnregistrationRefused_def
  EventReasonCoordinatorRemoved_def EventReasonCoordinatorRemovalRefused_def EventReasonLeadershipYielded_def
  EventReasonLeadershipYieldRefused_def EventReasonBoltServerUpdated_def EventReasonBoltServerUpdateRefused_def

type_synonym objectRef = "string \<times> string \<times> string"

record Event =
  evWarning :: bool
  evRelated :: "objectRef option"
  evReason :: string
  evAction :: string
  evNote :: string

definition event :: "objectRef option \<Rightarrow> string \<Rightarrow> string \<Rightarrow> string \<Rightarrow> Event" where
  "event related reason action note = \<lparr>evWarning = False, evRelated = related, evReason = reason,
     evAction = action, evNote = truncateMessage note\<rparr>"

definition warning :: "objectRef option \<Rightarrow> string \<Rightarrow> string \<Rightarrow> string \<Rightarrow> Event" where
  "warning related reason action note = \<lparr>evWarning = True, evRelated = related, evReason = reason,
     evAction = action, evNote = truncateMessage note\<rparr>"

definition podRef :: "MemgraphDBCluster \<Rightarrow> string \<Rightarrow> objectRef" where
  "podRef cluster name = (''Pod'', mcNamespace cluster, name)"

definition statefulSetRef :: "MemgraphDBCluster \<Rightarrow> string \<Rightarrow> objectRef" where
  "statefulSetRef cluster name = (''StatefulSet'', mcNamespace cluster, name)"

definition dataInstancePodRef :: "MemgraphDBCluster \<Rightarrow> string \<Rightarrow> objectRef option" where
  "dataInstancePodRef cluster name =
     map_option (\<lambda>ordinal. podRef cluster (PodName (DataName cluster) ordinal)) (DataInstanceOrdinal name)"

definition coordinatorPodRef :: "MemgraphDBCluster \<Rightarrow> string \<Rightarrow> objectRef option" where
  "coordinatorPodRef cluster name =
     map_option (\<lambda>ordinal. podRef cluster (PodName (CoordinatorName cluster) ordinal)) (CoordinatorOrdinal name)"

section \<open>The recording client\<close>

definition record_answer ::
  "goerror option \<Rightarrow> objectRef option \<Rightarrow> string \<Rightarrow> string \<Rightarrow> string \<Rightarrow> string \<Rightarrow> Event" where
  "record_answer err related accepted refused action note =
     (case err of Some e \<Rightarrow> warning related refused action (note @ '' refused: '' @ e)
      | None \<Rightarrow> event related accepted action note)"

definition recorded :: "'s call \<Rightarrow> (goerror option \<Rightarrow> Event) \<Rightarrow> ('s \<times> Event list) call" where
  "recorded query ev = (\<lambda>(s, events). case query s of (err, s') \<Rightarrow> (err, (s', events @ [ev err])))"

definition recordingClient :: "MemgraphDBCluster \<Rightarrow> string \<Rightarrow> 's Client \<Rightarrow> ('s \<times> Event list) Client" where
  "recordingClient cluster leader client = \<lparr>
     clShowInstances = (\<lambda>(s, _). clShowInstances client s),
     clShowReplicationLag = (\<lambda>(s, _). clShowReplicationLag client s),
     clAddCoordinator = (\<lambda>c. recorded (clAddCoordinator client c)
       (\<lambda>err. record_answer err (coordinatorPodRef cluster (csName c)) EventReasonCoordinatorAdded
          EventReasonCoordinatorAdditionRefused eventActionRegister
          (''Added coordinator '' @ csName c @ '' to the Raft cluster''))),
     clRegisterInstance = (\<lambda>i. recorded (clRegisterInstance client i)
       (\<lambda>err. record_answer err (dataInstancePodRef cluster (dsName i)) EventReasonInstanceRegistered
          EventReasonInstanceRegistrationRefused eventActionRegister
          (''Registered data instance '' @ dsName i @ '' with the coordinators''))),
     clSetInstanceToMain = (\<lambda>name. recorded (clSetInstanceToMain client name)
       (\<lambda>err. case err of
          Some e \<Rightarrow> warning (dataInstancePodRef cluster name) EventReasonMainPromotionRefused eventActionPromote
            (''The coordinators refused to promote data instance '' @ name @ '' to MAIN: '' @ e)
        | None \<Rightarrow> event (dataInstancePodRef cluster name) EventReasonMainPromoted eventActionPromote
            (''Promoted data instance '' @ name @ '' to MAIN''))),
     clUpdateCoordinatorBoltServer = (\<lambda>i boltServer. recorded (clUpdateCoordinatorBoltServer client i boltServer)
       (\<lambda>err. record_answer err (coordinatorPodRef cluster (coordinatorPrefix @ itoa i)) EventReasonBoltServerUpdated
          EventReasonBoltServerUpdateRefused eventActionUpdateConfig
          (''Updated the bolt_server coordinator '' @ coordinatorPrefix @ itoa i @ '' announces to '' @ boltServer))),
     clUpdateInstanceBoltServer = (\<lambda>name boltServer. recorded (clUpdateInstanceBoltServer client name boltServer)
       (\<lambda>err. record_answer err (dataInstancePodRef cluster name) EventReasonBoltServerUpdated
          EventReasonBoltServerUpdateRefused eventActionUpdateConfig
          (''Updated the bolt_server data instance '' @ name @ '' announces to '' @ boltServer))),
     clDemoteInstance = (\<lambda>name. recorded (clDemoteInstance client name)
       (\<lambda>err. record_answer err (dataInstancePodRef cluster name) EventReasonMainDemoted
          EventReasonMainDemotionRefused eventActionDemote
          (''Demoted retiring data instance '' @ name @ '' from MAIN to REPLICA''))),
     clUnregisterInstance = (\<lambda>name. recorded (clUnregisterInstance client name)
       (\<lambda>err. record_answer err (dataInstancePodRef cluster name) EventReasonInstanceUnregistered
          EventReasonInstanceUnregistrationRefused eventActionUnregister
          (''Unregistered retiring data instance '' @ name @ '' from the coordinators''))),
     clRemoveCoordinator = (\<lambda>i. recorded (clRemoveCoordinator client i)
       (\<lambda>err. record_answer err (coordinatorPodRef cluster (coordinatorPrefix @ itoa i)) EventReasonCoordinatorRemoved
          EventReasonCoordinatorRemovalRefused eventActionUnregister
          (''Removed retiring coordinator '' @ coordinatorPrefix @ itoa i @ '' from the Raft cluster''))),
     clYieldLeadership = recorded (clYieldLeadership client)
       (\<lambda>err. record_answer err (coordinatorPodRef cluster leader) EventReasonLeadershipYielded
          EventReasonLeadershipYieldRefused eventActionYield
          (''Yielded Raft leadership of retiring coordinator '' @ leader @ '' to another coordinator''))\<rparr>"

section \<open>Clients that wrap a client\<close>

locale client_simulation =
  fixes abs :: "'t \<Rightarrow> 's"
    and outer :: "'t Client"
    and inner :: "'s Client"
  assumes shows_instances: "clShowInstances outer t = clShowInstances inner (abs t)"
    and shows_lag: "clShowReplicationLag outer t = clShowReplicationLag inner (abs t)"
    and adds: "map_prod id abs (clAddCoordinator outer c t) = clAddCoordinator inner c (abs t)"
    and registers: "map_prod id abs (clRegisterInstance outer d t) = clRegisterInstance inner d (abs t)"
    and promotes: "map_prod id abs (clSetInstanceToMain outer n t) = clSetInstanceToMain inner n (abs t)"
    and moves_coordinator: "map_prod id abs (clUpdateCoordinatorBoltServer outer k b t)
      = clUpdateCoordinatorBoltServer inner k b (abs t)"
    and moves_instance: "map_prod id abs (clUpdateInstanceBoltServer outer n b t)
      = clUpdateInstanceBoltServer inner n b (abs t)"
    and demotes: "map_prod id abs (clDemoteInstance outer n t) = clDemoteInstance inner n (abs t)"
    and unregisters: "map_prod id abs (clUnregisterInstance outer n t) = clUnregisterInstance inner n (abs t)"
    and removes: "map_prod id abs (clRemoveCoordinator outer k t) = clRemoveCoordinator inner k (abs t)"
    and yields: "map_prod id abs (clYieldLeadership outer t) = clYieldLeadership inner (abs t)"
begin

lemma tries: "map_prod id abs (tryCandidates outer names errs t) = tryCandidates inner names errs (abs t)"
proof (induction names arbitrary: errs t)
  case (Cons n names)
  obtain err t' where outer: "clSetInstanceToMain outer n t = (err, t')" by fastforce
  with promotes [of n t] have "clSetInstanceToMain inner n (abs t) = (err, abs t')" by simp
  with outer Cons.IH show ?case by (cases err) simp_all
qed simp

lemma runs_promotion:
  "map_prod id abs (runSetInstanceToMain outer names back_to t) = runSetInstanceToMain inner names back_to (abs t)"
proof -
  obtain errs t' where outer: "tryCandidates outer names [] t = (errs, t')" by fastforce
  with tries [of names "[]" t] have inner: "tryCandidates inner names [] (abs t) = (errs, abs t')" by simp
  obtain err t'' where outer': "clSetInstanceToMain outer back_to t' = (err, t'')" by fastforce
  with promotes [of back_to t'] have inner': "clSetInstanceToMain inner back_to (abs t') = (err, abs t'')" by simp
  show ?thesis
    by (simp add: runSetInstanceToMain_def outer inner outer' inner' split: option.split)
qed

lemma runs_command: "map_prod id abs (cmdRun outer c t) = cmdRun inner c (abs t)"
  by (cases c) (simp_all add: adds registers promotes moves_coordinator moves_instance demotes unregisters removes
      yields runs_promotion)

lemma runs_plan: "map_prod id abs (runCommands outer cs t) = runCommands inner cs (abs t)"
proof (induction cs arbitrary: t)
  case (Cons c cs)
  obtain err t' where outer: "cmdRun outer c t = (err, t')" by fastforce
  with runs_command [of c t] have "cmdRun inner c (abs t) = (err, abs t')" by simp
  with outer Cons.IH show ?case by (cases err) simp_all
qed simp

end

interpretation recording: client_simulation fst "recordingClient cluster leader client" client
  for cluster leader and client :: "'s Client"
  by unfold_locales (auto simp: recordingClient_def recorded_def split: prod.splits)

section \<open>What is recorded\<close>

fun acceptedReason :: "Command \<Rightarrow> string" where
  "acceptedReason (AddCoordinator _) = EventReasonCoordinatorAdded"
| "acceptedReason (RegisterInstance _) = EventReasonInstanceRegistered"
| "acceptedReason (UpdateCoordinatorBoltServer _) = EventReasonBoltServerUpdated"
| "acceptedReason (UpdateInstanceBoltServer _) = EventReasonBoltServerUpdated"
| "acceptedReason (SetInstanceToMain _ _) = EventReasonMainPromoted"
| "acceptedReason (DemoteInstance _) = EventReasonMainDemoted"
| "acceptedReason (UnregisterInstance _) = EventReasonInstanceUnregistered"
| "acceptedReason (RemoveCoordinator _) = EventReasonCoordinatorRemoved"
| "acceptedReason (YieldLeadership _) = EventReasonLeadershipYielded"

fun refusedReason :: "Command \<Rightarrow> string" where
  "refusedReason (AddCoordinator _) = EventReasonCoordinatorAdditionRefused"
| "refusedReason (RegisterInstance _) = EventReasonInstanceRegistrationRefused"
| "refusedReason (UpdateCoordinatorBoltServer _) = EventReasonBoltServerUpdateRefused"
| "refusedReason (UpdateInstanceBoltServer _) = EventReasonBoltServerUpdateRefused"
| "refusedReason (SetInstanceToMain _ _) = EventReasonMainPromotionRefused"
| "refusedReason (DemoteInstance _) = EventReasonMainDemotionRefused"
| "refusedReason (UnregisterInstance _) = EventReasonInstanceUnregistrationRefused"
| "refusedReason (RemoveCoordinator _) = EventReasonCoordinatorRemovalRefused"
| "refusedReason (YieldLeadership _) = EventReasonLeadershipYieldRefused"

fun promotes :: "Command \<Rightarrow> bool" where
  "promotes (SetInstanceToMain _ _) = True"
| "promotes _ = False"

abbreviation accepted :: "Event list \<Rightarrow> string list" where
  "accepted evs \<equiv> map evReason (filter (\<lambda>e. \<not> evWarning e) evs)"

text \<open>
  The Events of one command that answers \<open>err\<close>: one Event of the command's own reason, or for a promotion
  a Warning per refused candidate before the Event of the instance that took over, if one did.
\<close>

definition recordedFor :: "Command \<Rightarrow> goerror option \<Rightarrow> Event list \<Rightarrow> bool" where
  "recordedFor c err evs \<longleftrightarrow>
     (if err = None then accepted evs = [acceptedReason c] else accepted evs = [] \<or> promotes c \<and> accepted evs = [EventReasonMainPromoted])
     \<and> (\<forall>e \<in> set evs. evWarning e \<longrightarrow> evReason e = refusedReason c)
     \<and> (\<not> promotes c \<longrightarrow> (\<exists>e. evs = [e] \<and> (evWarning e \<longleftrightarrow> err \<noteq> None)))"

lemma tryCandidates_errs:
  "tryCandidates client names errs s = (Some errs', s') \<Longrightarrow> length errs' = length errs + length names"
  by (induction names arbitrary: errs s) (auto split: prod.splits option.splits)

lemma record_plain:
  assumes "\<not> promotes c" "cmdRun client c s = (err, s')"
  shows "\<exists>evs. cmdRun (recordingClient cluster leader client) c (s, log) = (err, (s', log @ evs)) \<and> recordedFor c err evs"
  using assms
  by (cases c; cases err)
    (auto simp: recordingClient_def recorded_def record_answer_def recordedFor_def event_def warning_def)

lemma record_promotion_call:
  assumes "clSetInstanceToMain client name s = (err, s')"
  shows "\<exists>e. clSetInstanceToMain (recordingClient cluster leader client) name (s, log) = (err, (s', log @ [e]))
     \<and> evWarning e = (err \<noteq> None)
     \<and> evReason e = (if err = None then EventReasonMainPromoted else EventReasonMainPromotionRefused)"
  using assms by (cases err) (auto simp: recordingClient_def recorded_def event_def warning_def)

lemma record_tries:
  assumes "tryCandidates client names errs s = (r, s')"
  shows "\<exists>evs. tryCandidates (recordingClient cluster leader client) names errs (s, log) = (r, (s', log @ evs))
     \<and> accepted evs = (if r = None then [EventReasonMainPromoted] else [])
     \<and> (\<forall>e \<in> set evs. evWarning e \<longrightarrow> evReason e = EventReasonMainPromotionRefused)"
  using assms
proof (induction names arbitrary: errs s log)
  case (Cons n names)
  obtain err s1 where call: "clSetInstanceToMain client n s = (err, s1)" by fastforce
  from record_promotion_call [OF this, of cluster leader log] obtain e where
    e: "clSetInstanceToMain (recordingClient cluster leader client) n (s, log) = (err, (s1, log @ [e]))"
      "evWarning e = (err \<noteq> None)"
      "evReason e = (if err = None then EventReasonMainPromoted else EventReasonMainPromotionRefused)" by blast
  show ?case
  proof (cases err)
    case None
    with Cons.prems call e show ?thesis by auto
  next
    case (Some m)
    with Cons.prems call have "tryCandidates client names (errs @ [''promoting '' @ n @ '': '' @ m]) s1 = (r, s')" by simp
    from Cons.IH [OF this, of "log @ [e]"] obtain evs where
      "tryCandidates (recordingClient cluster leader client) names (errs @ [''promoting '' @ n @ '': '' @ m]) (s1, log @ [e])
         = (r, (s', log @ e # evs))"
      "accepted evs = (if r = None then [EventReasonMainPromoted] else [])"
      "\<forall>e \<in> set evs. evWarning e \<longrightarrow> evReason e = EventReasonMainPromotionRefused" by auto
    then show ?thesis using e Some call Cons.prems by (intro exI [of _ "e # evs"]) auto
  qed
qed auto

lemma record_promotion:
  assumes "runSetInstanceToMain client names back_to s = (err, s')" "names \<noteq> []"
  shows "\<exists>evs. runSetInstanceToMain (recordingClient cluster leader client) names back_to (s, log) = (err, (s', log @ evs))
     \<and> recordedFor (SetInstanceToMain names back_to) err evs"
proof -
  obtain r s1 where tries: "tryCandidates client names [] s = (r, s1)" by fastforce
  from record_tries [OF this, of cluster leader log] obtain evs where
    evs: "tryCandidates (recordingClient cluster leader client) names [] (s, log) = (r, (s1, log @ evs))"
      "accepted evs = (if r = None then [EventReasonMainPromoted] else [])"
      "\<forall>e \<in> set evs. evWarning e \<longrightarrow> evReason e = EventReasonMainPromotionRefused" by blast
  show ?thesis
  proof (cases r)
    case None
    with assms(1) tries evs show ?thesis by (auto simp: runSetInstanceToMain_def recordedFor_def)
  next
    case (Some errs)
    with tries tryCandidates_errs [of client names "[]" s errs s1] assms(2) have "errs \<noteq> []" by auto
    then have joined: "errorsJoin errs \<noteq> None" "errorsJoin (errs @ xs) \<noteq> None" for xs by simp_all
    show ?thesis
    proof (cases "back_to = []")
      case True
      with assms(1) tries Some evs joined show ?thesis
        by (auto simp: runSetInstanceToMain_def recordedFor_def)
    next
      case False
      obtain err2 s2 where call: "clSetInstanceToMain client back_to s1 = (err2, s2)" by fastforce
      from record_promotion_call [OF this, of cluster leader "log @ evs"] obtain e where
        e: "clSetInstanceToMain (recordingClient cluster leader client) back_to (s1, log @ evs) = (err2, (s2, (log @ evs) @ [e]))"
          "evWarning e = (err2 \<noteq> None)"
          "evReason e = (if err2 = None then EventReasonMainPromoted else EventReasonMainPromotionRefused)" by blast
      have run: "runSetInstanceToMain (recordingClient cluster leader client) names back_to (s, log) = (err, (s', log @ evs @ [e]))"
        using assms(1) tries Some evs(1) call e(1) False
        by (cases err2) (auto simp: runSetInstanceToMain_def)
      have "err \<noteq> None"
        using assms(1) tries Some call False \<open>errs \<noteq> []\<close> by (cases err2) (auto simp: runSetInstanceToMain_def errorsJoin_def)
      with run e evs Some show ?thesis by (intro exI [of _ "evs @ [e]"]) (cases err2; auto simp: recordedFor_def)
    qed
  qed
qed

definition tryable :: "Command \<Rightarrow> bool" where
  "tryable c \<longleftrightarrow> (case c of SetInstanceToMain names _ \<Rightarrow> names \<noteq> [] | _ \<Rightarrow> True)"

lemma record_command:
  assumes "cmdRun client c s = (err, s')" "tryable c"
  shows "\<exists>evs. cmdRun (recordingClient cluster leader client) c (s, log) = (err, (s', log @ evs)) \<and> recordedFor c err evs"
proof (cases "promotes c")
  case True
  then obtain names back_to where "c = SetInstanceToMain names back_to" by (cases c) auto
  with assms record_promotion [of client names back_to s err s'] show ?thesis by (simp add: tryable_def)
next
  case False
  from record_plain [OF this assms(1)] show ?thesis .
qed

text \<open>
  The client a plan is run through only records. Running a plan through it does to the cluster what
  running it directly does and stops at the same command with the same error; and each command that ran
  is followed by Events of its own: exactly one Normal Event of its reason when it was accepted, and when
  it was refused none, except for a MAIN that was restored, with every refusal a Warning of its reason.
\<close>

theorem recordingClient_transparent:
  assumes "runCommands client cmds s = (r, s')" and "\<forall>c \<in> set cmds. tryable c"
  shows "\<exists>evss. runCommands (recordingClient cluster leader client) cmds (s, log) = (r, (s', log @ concat evss))
    \<and> (case r of
         None \<Rightarrow> list_all2 (\<lambda>c evs. recordedFor c None evs) cmds evss
       | Some (refused, e) \<Rightarrow> (\<exists>ran rest evss' last. cmds = ran @ refused # rest \<and> evss = evss' @ [last]
           \<and> list_all2 (\<lambda>c evs. recordedFor c None evs) ran evss' \<and> recordedFor refused (Some e) last))"
  using assms
proof (induction cmds arbitrary: s log)
  case Nil
  then show ?case by (auto intro!: exI [of _ "[]"])
next
  case (Cons c cmds)
  obtain err s1 where run: "cmdRun client c s = (err, s1)" by fastforce
  from record_command [OF this, of cluster leader log] Cons.prems(2) obtain evs where
    evs: "cmdRun (recordingClient cluster leader client) c (s, log) = (err, (s1, log @ evs))" "recordedFor c err evs" by auto
  show ?case
  proof (cases err)
    case (Some e)
    with Cons.prems(1) run have "r = Some (c, e)" "s' = s1" by auto
    with evs Some show ?thesis by (intro exI [of _ "[evs]"]) force
  next
    case None
    with Cons.prems run have "runCommands client cmds s1 = (r, s')" "\<forall>c \<in> set cmds. tryable c" by auto
    from Cons.IH [OF this, of "log @ evs"] obtain evss where
      ih: "runCommands (recordingClient cluster leader client) cmds (s1, log @ evs) = (r, (s', (log @ evs) @ concat evss))"
        "case r of None \<Rightarrow> list_all2 (\<lambda>c evs. recordedFor c None evs) cmds evss
       | Some (refused, e) \<Rightarrow> (\<exists>ran rest evss' last. cmds = ran @ refused # rest \<and> evss = evss' @ [last]
           \<and> list_all2 (\<lambda>c evs. recordedFor c None evs) ran evss' \<and> recordedFor refused (Some e) last)" by blast
    have "runCommands (recordingClient cluster leader client) (c # cmds) (s, log) = (r, (s', log @ concat (evs # evss)))"
      using evs(1) None ih(1) by simp
    moreover have "case r of None \<Rightarrow> list_all2 (\<lambda>c evs. recordedFor c None evs) (c # cmds) (evs # evss)
       | Some (refused, e) \<Rightarrow> (\<exists>ran rest evss' last. c # cmds = ran @ refused # rest \<and> evs # evss = evss' @ [last]
           \<and> list_all2 (\<lambda>c evs. recordedFor c None evs) ran evss' \<and> recordedFor refused (Some e) last)"
    proof (cases r)
      case None
      with ih(2) evs(2) \<open>err = None\<close> show ?thesis by simp
    next
      case (Some f)
      obtain refused e where f: "f = (refused, e)" by (cases f)
      with ih(2) Some obtain ran rest evss' last where "cmds = ran @ refused # rest" "evss = evss' @ [last]"
        "list_all2 (\<lambda>c evs. recordedFor c None evs) ran evss'" "recordedFor refused (Some e) last" by auto
      with evs(2) \<open>err = None\<close> have "c # cmds = (c # ran) @ refused # rest \<and> evs # evss = (evs # evss') @ [last]
          \<and> list_all2 (\<lambda>c evs. recordedFor c None evs) (c # ran) (evs # evss') \<and> recordedFor refused (Some e) last" by simp
      with Some f show ?thesis by (simp del: append_Cons) blast
    qed
    ultimately show ?thesis by blast
  qed
qed

theorem recordingClient_transparent_witness:
  "\<exists>s' evss. runCommands (recordingClient exCluster [] (fakeClient exAddress)) [DemoteInstance ''d1'', SetInstanceToMain [''d0''] ''d1'']
       (exState, []) = (None, (s', concat evss))
     \<and> list_all2 (\<lambda>c evs. recordedFor c None evs) [DemoteInstance ''d1'', SetInstanceToMain [''d0''] ''d1''] evss"
proof -
  have "fst (runCommands (fakeClient exAddress) [DemoteInstance ''d1'', SetInstanceToMain [''d0''] ''d1''] exState) = None"
    by code_simp
  then obtain s' where run: "runCommands (fakeClient exAddress) [DemoteInstance ''d1'', SetInstanceToMain [''d0''] ''d1''] exState
      = (None, s')" by (metis prod.collapse)
  have "\<forall>c \<in> set [DemoteInstance ''d1'', SetInstanceToMain [''d0''] ''d1'']. tryable c" by (simp add: tryable_def)
  from recordingClient_transparent [OF run this, where cluster = exCluster and leader = "[]" and log = "[]"] show ?thesis
    by (simp only: option.case append_Nil) blast
qed

end
