(* ===== verification/Settings_Pass.thy ===== *)
theory Settings_Pass
  imports Events
begin

text \<open>
  The steps of a pass that bring settings onto running instances,
  \<open>src/internal/controller/memgraphdbcluster_controller.go\<close>: the one read of each pod's settings
  (\<open>podSettings\<close>, \<open>observedSettings\<close>), the SETs of a plan against it (\<open>applySettings\<close>), and their three
  users, the run-time flags (\<open>reconcileSettings\<close>), the AWS credentials (\<open>reconcileAWSCredentials\<close>) and the
  license (\<open>reconcileLicense\<close>); the coordinator settings (\<open>reconcileCoordinatorSettings\<close>) and SHOW CONFIG.

  The instances behind the Bolt addresses are a state of any type \<open>'w\<close> and the record \<open>dialer\<close> of what a
  connection does to it. What the pass relies on of Memgraph is the locale \<open>instance_fleet\<close>; the
  repository's in-memory Memgraph provides it (\<open>fakeDialer\<close>, from \<open>fake_memgraph_test.go\<close>).
\<close>

section \<open>Instances\<close>

type_synonym settingsView = "string \<Rightarrow> string option"

record 'w dialer =
  dlConnect :: "string \<Rightarrow> bool \<Rightarrow> 'w call"
  dlShowSettings :: "string \<Rightarrow> 'w \<Rightarrow> (goerror + settingsView) \<times> 'w"
  dlSetSetting :: "string \<Rightarrow> string \<Rightarrow> string \<Rightarrow> 'w call"
  dlShowConfig :: "string \<Rightarrow> 'w \<Rightarrow> (goerror + stringMap) \<times> 'w"

text \<open>\<open>%q\<close> of ASCII text.\<close>

definition hexDigit :: "nat \<Rightarrow> char" where "hexDigit n = ''0123456789abcdef'' ! n"

definition quoteChar :: "char \<Rightarrow> string" where
  "quoteChar c =
     (let n = (of_char c :: nat); escaped = (\<lambda>d. [CHR 0x5C, d]) in
      if n = 34 \<or> n = 92 then escaped c
      else if n = 7 then escaped (CHR ''a'') else if n = 8 then escaped (CHR ''b'')
      else if n = 12 then escaped (CHR ''f'') else if n = 10 then escaped (CHR ''n'')
      else if n = 13 then escaped (CHR ''r'') else if n = 9 then escaped (CHR ''t'')
      else if n = 11 then escaped (CHR ''v'')
      else if n < 32 \<or> n = 127 then escaped (CHR ''x'') @ [hexDigit (n div 16), hexDigit (n mod 16)]
      else [c])"

definition goQuote :: "string \<Rightarrow> string" where
  "goQuote s = [CHR 0x22] @ concat (map quoteChar s) @ [CHR 0x22]"

section \<open>One pod\<close>

text \<open>What was read of each pod so far in the pass.\<close>

type_synonym podSettings = "string \<Rightarrow> (goerror + settingsView) option"

record 'w passState =
  psWorld :: 'w
  psReads :: podSettings
  psEvents :: "Event list"

datatype settingError = SettingRejected string goerror | Unreachable goerror

definition readInstance ::
  "'w dialer \<Rightarrow> Endpoint \<Rightarrow> (string \<Rightarrow> 'w \<Rightarrow> (goerror + 'v) \<times> 'w) \<Rightarrow> 'w \<Rightarrow> (goerror + 'v) \<times> 'w" where
  "readInstance dl endpoint query w =
     (case dlConnect dl (epAddress endpoint) (epTLS endpoint) w of
        (Some e, w') \<Rightarrow> (Inl e, w')
      | (None, w') \<Rightarrow> query (epAddress endpoint) w')"

definition observedSettings ::
  "'w dialer \<Rightarrow> Endpoint \<Rightarrow> 'w passState \<Rightarrow> (goerror + settingsView) \<times> 'w passState" where
  "observedSettings dl endpoint st =
     (case psReads st (epPod endpoint) of
        Some reading \<Rightarrow> (reading, st)
      | None \<Rightarrow> (case readInstance dl endpoint (dlShowSettings dl) (psWorld st) of
            (reading, w') \<Rightarrow> (reading, st\<lparr>psWorld := w', psReads := (psReads st)(epPod endpoint \<mapsto> reading)\<rparr>)))"

text \<open>The loop over the changes: those that landed, and the one that was refused.\<close>

fun issueSets ::
  "'w dialer \<Rightarrow> Endpoint \<Rightarrow> Change list \<Rightarrow> 'w passState \<Rightarrow> Change list \<times> (Change \<times> goerror) option \<times> 'w passState" where
  "issueSets dl endpoint [] st = ([], None, st)"
| "issueSets dl endpoint (change # changes) st =
     (case dlSetSetting dl (epAddress endpoint) (chSetting change) (chValue change) (psWorld st) of
        (Some e, w') \<Rightarrow> ([], Some (change, e), st\<lparr>psWorld := w'\<rparr>)
      | (None, w') \<Rightarrow>
          let st' = st\<lparr>psWorld := w', psReads := (case psReads st (epPod endpoint) of
                Some (Inr view) \<Rightarrow> (psReads st)(epPod endpoint \<mapsto> Inr (view(chSetting change \<mapsto> chValue change)))
              | _ \<Rightarrow> psReads st)\<rparr> in
          (case issueSets dl endpoint changes st' of (landed, stop, st'') \<Rightarrow> (change # landed, stop, st'')))"

definition ranEvents :: "MemgraphDBCluster \<Rightarrow> string \<Rightarrow> string \<Rightarrow> string list \<Rightarrow> Event list" where
  "ranEvents cluster pod action issued = (if issued = [] then []
     else [event (Some (podRef cluster pod)) EventReasonSettingApplied action
             (''Ran '' @ join '', '' issued @ '' on pod '' @ pod)])"

definition applySettings ::
  "'w dialer \<Rightarrow> MemgraphDBCluster \<Rightarrow> string \<Rightarrow> (settingsView \<Rightarrow> Change list) \<Rightarrow> (Change \<Rightarrow> string) \<Rightarrow> Endpoint
     \<Rightarrow> 'w passState \<Rightarrow> Change list \<times> settingError option \<times> 'w passState" where
  "applySettings dl cluster action plan describe endpoint st =
     (case observedSettings dl endpoint st of
        (Inl e, st1) \<Rightarrow> ([], Some (Unreachable e), st1)
      | (Inr observed, st1) \<Rightarrow>
          let changes = plan observed in
          if changes = [] then ([], None, st1)
          else (case dlConnect dl (epAddress endpoint) (epTLS endpoint) (psWorld st1) of
              (Some e, w') \<Rightarrow> ([], Some (Unreachable e), st1\<lparr>psWorld := w'\<rparr>)
            | (None, w') \<Rightarrow> (case issueSets dl endpoint changes (st1\<lparr>psWorld := w'\<rparr>) of
                (landed, stop, st2) \<Rightarrow>
                  let issued = ranEvents cluster (epPod endpoint) action (map describe landed) in
                  (case stop of
                     None \<Rightarrow> (landed, None, st2\<lparr>psEvents := psEvents st2 @ issued\<rparr>)
                   | Some (change, e) \<Rightarrow>
                       (landed, Some (SettingRejected (describe change) e),
                        st2\<lparr>psEvents := psEvents st2 @ issued @ [warning (Some (podRef cluster (epPod endpoint)))
                          EventReasonSettingRejected action
                          (''Pod '' @ epPod endpoint @ '' rejected '' @ describe change @ '': '' @ e)]\<rparr>)))))"

definition runTimeSetting :: "Change \<Rightarrow> string" where
  "runTimeSetting change = ''SET DATABASE SETTING '' @ goQuote (chSetting change) @ '' TO '' @ goQuote (chValue change)"

definition secretSetting :: "Change \<Rightarrow> string" where
  "secretSetting change = ''SET DATABASE SETTING '' @ goQuote (chSetting change) @ '' from the Secret''"

section \<open>Every ready pod of a role\<close>

definition readyPod :: "Pod list \<Rightarrow> string \<Rightarrow> bool" where
  "readyPod pods name = (case find (\<lambda>p. pName p = name) (rev pods) of Some p \<Rightarrow> pReady p | None \<Rightarrow> False)"

text \<open>What a pod's outcome adds to the pods still owed an answer and to the refusals.\<close>

definition noteOutcome :: "Endpoint \<Rightarrow> settingError option \<Rightarrow> settingsOutcome \<Rightarrow> settingsOutcome" where
  "noteOutcome endpoint err outcome =
     (case err of
        None \<Rightarrow> outcome
      | Some (SettingRejected command e) \<Rightarrow> outcome\<lparr>soRejected := soRejected outcome
          @ [epPod endpoint @ '' rejected '' @ command @ '': '' @ e]\<rparr>
      | Some (Unreachable e) \<Rightarrow> outcome\<lparr>soPending := soPending outcome @ [epPod endpoint]\<rparr>)"

fun settleEndpoints ::
  "'w dialer \<Rightarrow> MemgraphDBCluster \<Rightarrow> string \<Rightarrow> (settingsView \<Rightarrow> Change list) \<Rightarrow> (Change \<Rightarrow> string) \<Rightarrow> Pod list
     \<Rightarrow> Endpoint list \<Rightarrow> settingsOutcome \<Rightarrow> 'w passState \<Rightarrow> settingsOutcome \<times> 'w passState" where
  "settleEndpoints dl cluster action plan describe pods [] outcome st = (outcome, st)"
| "settleEndpoints dl cluster action plan describe pods (endpoint # rest) outcome st =
     (if \<not> readyPod pods (epPod endpoint)
      then settleEndpoints dl cluster action plan describe pods rest outcome st
      else case applySettings dl cluster action plan describe endpoint st of
          (_, err, st') \<Rightarrow>
            settleEndpoints dl cluster action plan describe pods rest (noteOutcome endpoint err outcome) st')"

definition reconcileSettings ::
  "'w dialer \<Rightarrow> MemgraphDBCluster \<Rightarrow> replicaCounts \<Rightarrow> rolloutRoles \<Rightarrow> 'w passState
     \<Rightarrow> (settingsOutcome \<times> 'w passState) option" where
  "reconcileSettings dl cluster replicas roles st =
     Option.bind (DataEndpoints cluster (rrApplied (rcData replicas))) (\<lambda>data.
     Option.bind (CoordinatorEndpoints cluster (rrApplied (rcCoordinators replicas))) (\<lambda>coordinators.
     Some (case settleEndpoints dl cluster eventActionSetRunTimeFlags (Plan_settings (DataFlags cluster))
             runTimeSetting (rPods (rlData roles)) data noSettingsOutcome st of
         (outcome, st') \<Rightarrow> settleEndpoints dl cluster eventActionSetRunTimeFlags
             (Plan_settings (CoordinatorFlags cluster)) runTimeSetting (rPods (rlCoordinators roles))
             coordinators outcome st')))"

section \<open>AWS credentials and license\<close>

definition AWSAccessKeySetting :: string where "AWSAccessKeySetting = ''aws.access_key''"
definition AWSSecretKeySetting :: string where "AWSSecretKeySetting = ''aws.secret_key''"
definition AWSRegionSetting :: string where "AWSRegionSetting = ''aws.region''"
definition AWSEndpointURLSetting :: string where "AWSEndpointURLSetting = ''aws.endpoint_url''"

text \<open>A Secret of the cluster's namespace, by name, as the uncached reader answers.\<close>

type_synonym secretReader = "string \<Rightarrow> stringMap getResult"

definition readAWSCredentials :: "secretReader \<Rightarrow> string \<Rightarrow> goerror + stringMap" where
  "readAWSCredentials secrets name =
     (case secrets name of
        NotFound \<Rightarrow> Inl (''the Secret '' @ name @ '' does not exist'')
      | Failed e \<Rightarrow> Inl (''getting Secret '' @ name @ '': '' @ e)
      | Found data \<Rightarrow> Inr [(setting, v). (setting, key) \<leftarrow> [(AWSAccessKeySetting, AWSAccessKeySecretKey),
            (AWSSecretKeySetting, AWSSecretKeySecretKey), (AWSRegionSetting, AWSRegionSecretKey),
            (AWSEndpointURLSetting, AWSEndpointURLSecretKey)],
          v \<leftarrow> (case map_of data key of Some v \<Rightarrow> [v] | None \<Rightarrow> [])])"

definition reconcileAWSCredentials ::
  "'w dialer \<Rightarrow> secretReader \<Rightarrow> MemgraphDBCluster \<Rightarrow> replicaCounts \<Rightarrow> rolloutRoles \<Rightarrow> 'w passState
     \<Rightarrow> (settingsOutcome \<times> 'w passState) option" where
  "reconcileAWSCredentials dl secrets cluster replicas roles st =
     (let name = AWSCredentialsSecretOf cluster in
      if name = [] then Some (noSettingsOutcome, st)
      else case readAWSCredentials secrets name of
          Inl e \<Rightarrow> Some (noSettingsOutcome\<lparr>soPending := [''the AWS credentials, because '' @ e]\<rparr>, st)
        | Inr desired \<Rightarrow> map_option (\<lambda>endpoints. settleEndpoints dl cluster eventActionSetAWSCredentials
              (Diff desired) secretSetting (rPods (rlData roles)) endpoints noSettingsOutcome st)
            (DataEndpoints cluster (rrApplied (rcData replicas))))"

definition readLicense :: "secretReader \<Rightarrow> LicenseSecret \<Rightarrow> goerror + string \<times> string" where
  "readLicense secrets ref =
     (case secrets (lsName ref) of
        NotFound \<Rightarrow> Inl (''the Secret '' @ lsName ref @ '' does not exist'')
      | Failed e \<Rightarrow> Inl (''getting Secret '' @ lsName ref @ '': '' @ e)
      | Found data \<Rightarrow> (case find (\<lambda>key. map_of data key = None) [lsLicenseKey ref, lsOrganizationKey ref] of
            Some key \<Rightarrow> Inl (''the Secret '' @ lsName ref @ '' has no key '' @ key)
          | None \<Rightarrow> Inr (get data (lsLicenseKey ref), get data (lsOrganizationKey ref))))"

definition licenseCondition :: "LicenseSecret \<Rightarrow> settingsOutcome \<Rightarrow> Condition" where
  "licenseCondition ref outcome =
     (if soRejected outcome \<noteq> [] then notLicenseAppliedCondition ReasonLicenseRejected
        (truncateMessage (join ''; '' (soRejected outcome)))
      else if soPending outcome \<noteq> [] then notLicenseAppliedCondition ReasonLicensePending
        (''Waiting to check the license on '' @ join '', '' (soPending outcome))
      else trueCondition ConditionLicenseApplied ReasonLicenseMatchesSecret
        (''Every ready pod runs the license in Secret '' @ lsName ref))"

definition reconcileLicense ::
  "'w dialer \<Rightarrow> secretReader \<Rightarrow> MemgraphDBCluster \<Rightarrow> replicaCounts \<Rightarrow> rolloutRoles \<Rightarrow> 'w passState
     \<Rightarrow> (Condition \<times> 'w passState) option" where
  "reconcileLicense dl secrets cluster replicas roles st =
     (let ref = LicenseSecretOf cluster in
      case readLicense secrets ref of
        Inl e \<Rightarrow> Some (notLicenseAppliedCondition ReasonLicensePending e, st)
      | Inr (license, organization) \<Rightarrow>
          Option.bind (DataEndpoints cluster (rrApplied (rcData replicas))) (\<lambda>data.
          Option.bind (CoordinatorEndpoints cluster (rrApplied (rcCoordinators replicas))) (\<lambda>coordinators.
          Some (case settleEndpoints dl cluster eventActionSetLicense (License license organization) secretSetting
                  (rPods (rlData roles)) data noSettingsOutcome st of
              (outcome, st1) \<Rightarrow> (case settleEndpoints dl cluster eventActionSetLicense
                  (License license organization) secretSetting (rPods (rlCoordinators roles)) coordinators outcome st1 of
                (outcome', st2) \<Rightarrow> (licenseCondition ref outcome', st2))))))"

section \<open>Coordinator settings and SHOW CONFIG\<close>

definition coordinatorSettingsSubject :: string where
  "coordinatorSettingsSubject = ''the Raft leader, which did not report the coordinator settings''"

definition coordinatorSetting :: "Change \<Rightarrow> string" where
  "coordinatorSetting change =
     ''SET COORDINATOR SETTING '' @ goQuote (chSetting change) @ '' TO '' @ goQuote (chValue change)"

definition ranCoordinatorSettings :: "MemgraphDBCluster \<Rightarrow> string \<Rightarrow> string list \<Rightarrow> Event list" where
  "ranCoordinatorSettings cluster leader_name issued = (if issued = [] then []
     else [event (coordinatorPodRef cluster leader_name) EventReasonCoordinatorSettingApplied
             eventActionSetCoordinatorSetting (''Ran '' @ join '', '' issued)])"

text \<open>The loop over the changes; \<open>issued\<close> are those that landed before.\<close>

fun issueCoordinatorSettings ::
  "(string \<Rightarrow> string \<Rightarrow> 'w call) \<Rightarrow> MemgraphDBCluster \<Rightarrow> string \<Rightarrow> string list \<Rightarrow> Change list \<Rightarrow> 'w passState
     \<Rightarrow> settingsOutcome \<times> 'w passState" where
  "issueCoordinatorSettings set_leader cluster leader_name issued [] st =
     (noSettingsOutcome, st\<lparr>psEvents := psEvents st @ ranCoordinatorSettings cluster leader_name issued\<rparr>)"
| "issueCoordinatorSettings set_leader cluster leader_name issued (change # changes) st =
     (case set_leader (chSetting change) (chValue change) (psWorld st) of
        (Some e, w') \<Rightarrow>
          let rejected = ''the coordinators rejected '' @ coordinatorSetting change @ '': '' @ e in
          (noSettingsOutcome\<lparr>soRejected := [rejected]\<rparr>,
           st\<lparr>psWorld := w', psEvents := psEvents st @ ranCoordinatorSettings cluster leader_name issued
             @ [warning (coordinatorPodRef cluster leader_name) EventReasonSettingRejected
                  eventActionSetCoordinatorSetting rejected]\<rparr>)
      | (None, w') \<Rightarrow> issueCoordinatorSettings set_leader cluster leader_name (issued @ [coordinatorSetting change])
            changes (st\<lparr>psWorld := w'\<rparr>))"

definition reconcileCoordinatorSettings ::
  "(string \<Rightarrow> string \<Rightarrow> 'w call) \<Rightarrow> MemgraphDBCluster \<Rightarrow> string \<Rightarrow> flagClasses \<Rightarrow> 'w passState
     \<Rightarrow> settingsOutcome \<times> 'w passState" where
  "reconcileCoordinatorSettings set_leader cluster leader_name classes st =
     (if \<not> fcCoordinatorSettingsKnown classes then
        (if flCoordinators (spFlags (mcSpec cluster)) = [] then (noSettingsOutcome, st)
         else (noSettingsOutcome\<lparr>soPending := [coordinatorSettingsSubject]\<rparr>, st))
      else
        let flags = CoordinatorFlags cluster;
            desired = map (\<lambda>key. (key, get flags key)) (remdups (clCoordinatorSettings (fcCoordinators classes))) in
        if desired = [] then (noSettingsOutcome, st)
        else issueCoordinatorSettings set_leader cluster leader_name [] (Diff desired (map_of (fcCoordinatorSettings classes))) st)"

text \<open>The pods on their role's current template, in the order they are asked; then the leader.\<close>

fun askPods ::
  "'w dialer \<Rightarrow> (string \<Rightarrow> string option) \<Rightarrow> string \<Rightarrow> Pod list \<Rightarrow> Endpoint list \<Rightarrow> 'w \<Rightarrow> stringMap option \<times> 'w" where
  "askPods dl podTemplates template [] eps w = (None, w)"
| "askPods dl podTemplates template (pod # pods) eps w =
     (if \<not> pReady pod \<or> \<not> onTemplate podTemplates (pName pod) template
      then askPods dl podTemplates template pods eps w
      else
        (case foldl (\<lambda>(found, w) endpoint.
               if found \<noteq> None \<or> epPod endpoint \<noteq> pName pod then (found, w)
               else (case readInstance dl endpoint (dlShowConfig dl) w of
                   (Inr config, w') \<Rightarrow> (if config \<noteq> [] then Some config else None, w')
                 | (Inl e, w') \<Rightarrow> (None, w'))) (None, w) eps of
           (Some config, w') \<Rightarrow> (Some config, w')
         | (None, w') \<Rightarrow> askPods dl podTemplates template pods eps w'))"

definition showConfig ::
  "'w dialer \<Rightarrow> ('w \<Rightarrow> (goerror + stringMap) \<times> 'w) \<Rightarrow> MemgraphDBCluster \<Rightarrow> replicaCounts \<Rightarrow> rolloutRoles \<Rightarrow> 'w
     \<Rightarrow> ((goerror + stringMap) \<times> 'w) option" where
  "showConfig dl leader cluster replicas roles w =
     Option.bind (DataEndpoints cluster (rrApplied (rcData replicas))) (\<lambda>data.
     Option.bind (CoordinatorEndpoints cluster (rrApplied (rcCoordinators replicas))) (\<lambda>coordinators.
     Some (case askPods dl (rlPodTemplates roles) (rlDataTemplate roles) (rPods (rlData roles)) data w of
         (Some config, w') \<Rightarrow> (Inr config, w')
       | (None, w') \<Rightarrow> (case askPods dl (rlPodTemplates roles) (rlCoordinatorTemplate roles)
             (rPods (rlCoordinators roles)) coordinators w' of
           (Some config, w'') \<Rightarrow> (Inr config, w'')
         | (None, w'') \<Rightarrow> leader w''))))"

text \<open>The endpoints a role's loop acts on.\<close>

definition targeted :: "Pod list \<Rightarrow> Endpoint list \<Rightarrow> Endpoint set" where
  "targeted pods eps = {e \<in> set eps. readyPod pods (epPod e)}"

section \<open>What the pass relies on of Memgraph\<close>

text \<open>
  The settings an instance holds, \<open>view\<close>: dialing changes none, SHOW DATABASE SETTINGS reports them, an
  accepted SET writes one setting of the instance dialed and of no other, and a refused one writes none.
\<close>

locale instance_fleet =
  fixes dl :: "'w dialer" and view :: "'w \<Rightarrow> string \<Rightarrow> settingsView"
  assumes connects: "dlConnect dl a tls w = (r, w') \<Longrightarrow> view w' = view w"
    and shows_view: "dlShowSettings dl a w = (answer, w') \<Longrightarrow> view w' = view w \<and> (\<forall>v. answer = Inr v \<longrightarrow> v = view w a)"
    and sets: "dlSetSetting dl a k v w = (None, w') \<Longrightarrow> view w' = (view w)(a := (view w a)(k \<mapsto> v))"
    and refuses_set: "dlSetSetting dl a k v w = (Some e, w') \<Longrightarrow> view w' = view w"
begin

text \<open>Every view on record is the pod's own, and the endpoints of a pass tell pods and addresses apart alike.\<close>

definition tracked :: "Endpoint set \<Rightarrow> 'w passState \<Rightarrow> bool" where
  "tracked E st \<longleftrightarrow> (\<forall>e \<in> E. \<forall>f \<in> E. epPod e = epPod f \<longleftrightarrow> epAddress e = epAddress f)
     \<and> (\<forall>e \<in> E. \<forall>v. psReads st (epPod e) = Some (Inr v) \<longrightarrow> v = view (psWorld st) (epAddress e))"

abbreviation pod_view :: "'w passState \<Rightarrow> Endpoint \<Rightarrow> settingsView" where
  "pod_view st e \<equiv> view (psWorld st) (epAddress e)"

lemma tracked_world: "tracked E st \<Longrightarrow> view w' = view (psWorld st) \<Longrightarrow> tracked E (st\<lparr>psWorld := w'\<rparr>)"
  by (simp add: tracked_def)

lemma tracked_events: "tracked E (st\<lparr>psEvents := evs\<rparr>) \<longleftrightarrow> tracked E st"
  by (simp add: tracked_def)

lemma observed_settings:
  assumes "tracked E st" "e \<in> E" "observedSettings dl e st = (r, st')"
  shows "tracked E st' \<and> view (psWorld st') = view (psWorld st) \<and> psReads st' (epPod e) = Some r
     \<and> (\<forall>v. r = Inr v \<longrightarrow> v = pod_view st e)"
proof (cases "psReads st (epPod e)")
  case (Some reading)
  with assms show ?thesis by (auto simp: observedSettings_def tracked_def)
next
  case None
  obtain reading w' where run: "readInstance dl e (dlShowSettings dl) (psWorld st) = (reading, w')" by fastforce
  have kept: "view w' = view (psWorld st)" "\<forall>v. reading = Inr v \<longrightarrow> v = pod_view st e"
  proof -
    obtain c w1 where conn: "dlConnect dl (epAddress e) (epTLS e) (psWorld st) = (c, w1)" by fastforce
    then have w1: "view w1 = view (psWorld st)" by (rule connects)
    show "view w' = view (psWorld st)" "\<forall>v. reading = Inr v \<longrightarrow> v = pod_view st e"
      using run conn w1 shows_view [of "epAddress e" w1 reading w']
      by (cases c; auto simp: readInstance_def)+
  qed
  have "v = view w' (epAddress f)" if "reading = Inr v" "f \<in> E" "epPod f = epPod e" for v f
    using that assms(1,2) kept by (auto simp: tracked_def)
  with assms None run kept show ?thesis
    by (auto simp: observedSettings_def tracked_def split: if_splits)
qed

lemma issued_sets:
  assumes "tracked E st" "e \<in> E" "psReads st (epPod e) = Some (Inr v)" "issueSets dl e changes st = (landed, stop, st')"
  shows "tracked E st' \<and> (\<exists>v'. psReads st' (epPod e) = Some (Inr v'))
     \<and> view (psWorld st') = (view (psWorld st))(epAddress e := applyChanges landed (pod_view st e))
     \<and> (\<exists>rest. changes = landed @ rest \<and> (stop = None \<longrightarrow> rest = []))"
  using assms
proof (induction changes arbitrary: st v landed)
  case Nil
  then show ?case by (auto simp: applyChanges_def)
next
  case (Cons c changes)
  obtain r w' where set: "dlSetSetting dl (epAddress e) (chSetting c) (chValue c) (psWorld st) = (r, w')" by fastforce
  show ?case
  proof (cases r)
    case (Some err)
    with set Cons.prems(4) have "landed = []" "st' = st\<lparr>psWorld := w'\<rparr>" "stop \<noteq> None" by auto
    moreover have "view w' = view (psWorld st)" using set Some by (auto dest: refuses_set)
    ultimately show ?thesis using Cons.prems by (auto simp: tracked_world applyChanges_def)
  next
    case None
    let ?v = "v(chSetting c \<mapsto> chValue c)"
    let ?st = "st\<lparr>psWorld := w', psReads := (psReads st)(epPod e \<mapsto> Inr ?v)\<rparr>"
    have v: "v = pod_view st e" using Cons.prems(1-3) by (simp add: tracked_def)
    have w': "view w' = (view (psWorld st))(epAddress e := ?v)" using set None v by (simp add: sets)
    have "tracked E ?st"
      using Cons.prems(1,2) by (auto simp: tracked_def w')
    moreover have "psReads ?st (epPod e) = Some (Inr ?v)" by simp
    moreover obtain landed' where rest: "issueSets dl e changes ?st = (landed', stop, st')" "landed = c # landed'"
      using Cons.prems(3,4) set None by (auto simp: Let_def split: prod.splits)
    ultimately have "tracked E st' \<and> (\<exists>v'. psReads st' (epPod e) = Some (Inr v'))
     \<and> view (psWorld st') = (view (psWorld ?st))(epAddress e := applyChanges landed' (pod_view ?st e))
     \<and> (\<exists>rest. changes = landed' @ rest \<and> (stop = None \<longrightarrow> rest = []))"
      using Cons.IH [OF _ Cons.prems(2)] by blast
    then show ?thesis using rest(2) v by (auto simp: w' applyChanges_Cons)
  qed
qed

text \<open>
  A pod after \<open>applySettings\<close>: a prefix of its plan was applied, the whole of it when there was no
  error; every other instance is as it was.
\<close>

lemma applied_settings:
  assumes "tracked E st" "e \<in> E" "applySettings dl cluster action plan describe e st = (landed, err, st')"
  shows "tracked E st'
     \<and> view (psWorld st') = (view (psWorld st))(epAddress e := applyChanges landed (pod_view st e))
     \<and> (\<exists>rest. plan (pod_view st e) = landed @ rest \<and> (err = None \<longrightarrow> rest = []))"
proof -
  obtain r st1 where obs: "observedSettings dl e st = (r, st1)" by fastforce
  note read = observed_settings [OF assms(1,2) obs]
  show ?thesis
  proof (cases r)
    case (Inl err')
    then have "st' = st1 \<and> landed = [] \<and> err \<noteq> None" using assms(3) obs by (auto simp: applySettings_def)
    with read show ?thesis by (auto simp: applyChanges_def)
  next
    case (Inr v)
    with read have v: "v = pod_view st e" by simp
    show ?thesis
    proof (cases "plan v = []")
      case True
      then have "st' = st1 \<and> landed = []" using assms(3) obs Inr by (auto simp: applySettings_def)
      with read v True show ?thesis by (simp add: applyChanges_def)
    next
      case False
      obtain c w' where conn: "dlConnect dl (epAddress e) (epTLS e) (psWorld st1) = (c, w')" by fastforce
      then have w': "view w' = view (psWorld st1)" by (rule connects)
      show ?thesis
      proof (cases c)
        case (Some err')
        then have "st' = st1\<lparr>psWorld := w'\<rparr> \<and> landed = [] \<and> err \<noteq> None"
          using assms(3) obs Inr False conn by (auto simp: applySettings_def Let_def)
        with read w' show ?thesis by (auto simp: applyChanges_def tracked_world)
      next
        case None
        obtain landed' stop st2 where sent: "issueSets dl e (plan v) (st1\<lparr>psWorld := w'\<rparr>) = (landed', stop, st2)"
          by (metis prod_cases3)
        have "tracked E (st1\<lparr>psWorld := w'\<rparr>)" using read w' by (simp add: tracked_world)
        moreover have "psReads (st1\<lparr>psWorld := w'\<rparr>) (epPod e) = Some (Inr v)" using read Inr by simp
        ultimately have s: "tracked E st2"
          "view (psWorld st2) = (view w')(epAddress e := applyChanges landed' (view w' (epAddress e)))"
          "\<exists>rest. plan v = landed' @ rest \<and> (stop = None \<longrightarrow> rest = [])"
          using issued_sets [OF _ assms(2) _ sent] by auto
        have "landed = landed' \<and> (err = None \<longleftrightarrow> stop = None) \<and> (\<exists>evs. st' = st2\<lparr>psEvents := evs\<rparr>)"
          using assms(3) obs Inr False conn None sent
          by (cases stop) (auto simp: applySettings_def Let_def)
        with s w' read v show ?thesis by (auto simp: tracked_events)
      qed
    qed
  qed
qed

text \<open>Outcomes only grow.\<close>

lemma settled_outcome_grows:
  "settleEndpoints dl cluster action plan describe pods eps outcome st = (outcome', st') \<Longrightarrow>
     (\<exists>xs. soPending outcome' = soPending outcome @ xs) \<and> (\<exists>xs. soRejected outcome' = soRejected outcome @ xs)"
proof (induction eps arbitrary: outcome st)
  case (Cons e eps)
  show ?case
  proof (cases "readyPod pods (epPod e)")
    case True
    obtain landed err st1 where "applySettings dl cluster action plan describe e st = (landed, err, st1)" by (metis prod_cases3)
    with Cons.prems True have "settleEndpoints dl cluster action plan describe pods eps (noteOutcome e err outcome) st1
        = (outcome', st')" by simp
    from Cons.IH [OF this] show ?thesis by (auto simp: noteOutcome_def split: option.splits settingError.splits)
  next
    case False
    with Cons show ?thesis by simp
  qed
qed simp

text \<open>
  After a role's loop the records are still the pods' own views, instances that were not targeted are
  unchanged, and every targeted one had a prefix of its own plan applied, all of it if nothing is owed.
\<close>

lemma settled:
  assumes "tracked E st" "set eps \<subseteq> E" "distinct (map epPod eps)"
    and "settleEndpoints dl cluster action plan describe pods eps outcome st = (outcome', st')"
  shows "tracked E st'
     \<and> (\<forall>a. a \<notin> epAddress ` targeted pods eps \<longrightarrow> view (psWorld st') a = view (psWorld st) a)
     \<and> (\<forall>e \<in> targeted pods eps. \<exists>landed rest. plan (pod_view st e) = landed @ rest
          \<and> pod_view st' e = applyChanges landed (pod_view st e)
          \<and> (soPending outcome' = [] \<and> soRejected outcome' = [] \<longrightarrow> rest = []))"
  using assms
proof (induction eps arbitrary: outcome st)
  case Nil
  then show ?case by (simp add: targeted_def)
next
  case (Cons e eps)
  have E: "e \<in> E" "set eps \<subseteq> E" "distinct (map epPod eps)" using Cons.prems(2,3) by auto
  show ?case
  proof (cases "readyPod pods (epPod e)")
    case False
    with Cons.prems(4) have "settleEndpoints dl cluster action plan describe pods eps outcome st = (outcome', st')" by simp
    from Cons.IH [OF Cons.prems(1) E(2,3) this] False show ?thesis by (simp add: targeted_def Collect_conv_if conj_disj_distribR Collect_disj_eq)
  next
    case True
    obtain landed err st1 where app: "applySettings dl cluster action plan describe e st = (landed, err, st1)" by (metis prod_cases3)
    with Cons.prems(4) True have rest: "settleEndpoints dl cluster action plan describe pods eps (noteOutcome e err outcome) st1
        = (outcome', st')" by simp
    note one = applied_settings [OF Cons.prems(1) E(1) app]
    have "tracked E st1" using one by simp
    note later = Cons.IH [OF this E(2,3) rest]
    have other: "epAddress f \<noteq> epAddress e" if "f \<in> set eps" for f
      using that Cons.prems(1-3) E unfolding tracked_def
      by (metis (no_types, lifting) distinct.simps(2) image_eqI list.set_map list.simps(9) subsetD)
    have clean: "err = None" if "soPending outcome' = []" "soRejected outcome' = []"
      using settled_outcome_grows [OF rest] that
      by (auto simp: noteOutcome_def split: option.splits settingError.splits)
    have targets: "targeted pods (e # eps) = insert e (targeted pods eps)" using True by (auto simp: targeted_def)
    have own: "pod_view st' e = applyChanges landed (pod_view st e)"
    proof -
      have "epAddress e \<notin> epAddress ` targeted pods eps" using other by (force simp: targeted_def)
      with later have "pod_view st' e = pod_view st1 e" by blast
      with one show ?thesis by simp
    qed
    have rests: "\<exists>landed rest. plan (pod_view st f) = landed @ rest \<and> pod_view st' f = applyChanges landed (pod_view st f)
        \<and> (soPending outcome' = [] \<and> soRejected outcome' = [] \<longrightarrow> rest = [])" if "f \<in> targeted pods eps" for f
    proof -
      have "pod_view st1 f = pod_view st f" using one other that by (auto simp: targeted_def)
      with later that show ?thesis by metis
    qed
    have first: "\<exists>landed rest. plan (pod_view st e) = landed @ rest \<and> pod_view st' e = applyChanges landed (pod_view st e)
        \<and> (soPending outcome' = [] \<and> soRejected outcome' = [] \<longrightarrow> rest = [])"
      using one own clean by blast
    have unchanged: "view (psWorld st') a = view (psWorld st) a" if "a \<notin> epAddress ` targeted pods (e # eps)" for a
      using later one that by (auto simp: targets)
    show ?thesis using later first rests unchanged by (auto simp: targets)
  qed
qed

end

context instance_fleet
begin

lemma settled_done:
  assumes "tracked E st" "set eps \<subseteq> E" "distinct (map epPod eps)"
    and "settleEndpoints dl cluster action plan describe pods eps outcome st = (outcome', st')"
    and "soPending outcome' = []" "soRejected outcome' = []"
  shows "\<forall>e \<in> targeted pods eps. pod_view st' e = applyChanges (plan (pod_view st e)) (pod_view st e)"
  using settled [OF assms(1-4)] assms(5,6) by fastforce

text \<open>The loop over both roles, with a plan of each role's own.\<close>

lemma both_roles:
  assumes "tracked (set data \<union> set coordinators) st"
    and "distinct (map epPod data)" "distinct (map epPod coordinators)"
    and "epAddress ` set data \<inter> epAddress ` set coordinators = {}"
    and "settleEndpoints dl cluster action planD describe podsD data outcome st = (o1, st1)"
    and "settleEndpoints dl cluster action planC describe podsC coordinators o1 st1 = (o2, st2)"
    and "soPending o2 = []" "soRejected o2 = []"
  shows "tracked (set data \<union> set coordinators) st2"
    and "e \<in> targeted podsD data \<Longrightarrow> pod_view st2 e = applyChanges (planD (pod_view st e)) (pod_view st e)"
    and "e \<in> targeted podsC coordinators \<Longrightarrow> pod_view st2 e = applyChanges (planC (pod_view st e)) (pod_view st e)"
    and "a \<notin> epAddress ` (targeted podsD data \<union> targeted podsC coordinators) \<Longrightarrow> view (psWorld st2) a = view (psWorld st) a"
proof -
  let ?E = "set data \<union> set coordinators"
  have o1: "soPending o1 = []" "soRejected o1 = []" using settled_outcome_grows [OF assms(6)] assms(7,8) by auto
  note first = settled [OF assms(1) Un_upper1 assms(2,5)]
  note mine = settled_done [OF assms(1) Un_upper1 assms(2,5) o1]
  have t1: "tracked ?E st1" using first by simp
  note second = settled [OF t1 Un_upper2 assms(3,6)]
  note theirs = settled_done [OF t1 Un_upper2 assms(3,6,7,8)]
  show "tracked ?E st2" using second by simp
  have apart: "epAddress f \<notin> epAddress ` targeted podsC coordinators" if "f \<in> set data" for f
    using that assms(4) by (auto simp: targeted_def)
  have apart': "epAddress f \<notin> epAddress ` targeted podsD data" if "f \<in> set coordinators" for f
    using that assms(4) by (auto simp: targeted_def)
  show "pod_view st2 e = applyChanges (planD (pod_view st e)) (pod_view st e)" if "e \<in> targeted podsD data"
  proof -
    have "pod_view st2 e = pod_view st1 e" using second apart [of e] that by (auto simp: targeted_def)
    with mine that show ?thesis by simp
  qed
  show "pod_view st2 e = applyChanges (planC (pod_view st e)) (pod_view st e)" if "e \<in> targeted podsC coordinators"
  proof -
    have "pod_view st1 e = pod_view st e" using first apart' [of e] that by (auto simp: targeted_def)
    with theirs that show ?thesis by simp
  qed
  show "view (psWorld st2) a = view (psWorld st) a"
    if "a \<notin> epAddress ` (targeted podsD data \<union> targeted podsC coordinators)"
  proof -
    have "view (psWorld st2) a = view (psWorld st1) a" using second that by blast
    also have "\<dots> = view (psWorld st) a" using first that by blast
    finally show ?thesis .
  qed
qed

end

context settings_plan
begin

lemma kept: "plan observed = [] \<Longrightarrow> (\<And>k. wants k \<noteq> None \<Longrightarrow> later k = observed k) \<Longrightarrow> plan later = []"
  unfolding nothing_iff by (metis option.distinct(1))

end

section \<open>Endpoints and setting names do not collide\<close>

lemma DataEndpoints_eq:
  "DataEndpoints cluster n = Some eps \<Longrightarrow> eps = map (\<lambda>i. \<lparr>epName = DataInstanceName i, epPod = PodName (DataName cluster) i,
     epAddress = hostPort (podFQDN cluster (DataName cluster) (normalize (mcSpec cluster)) i) BoltPort,
     epTLS = (nBoltTLSSecret (normalize (mcSpec cluster)) \<noteq> [])\<rparr>) [0..n - 1]"
  by (auto simp: DataEndpoints_def endpoints_def ordinals_def Let_def split: if_splits)

lemma CoordinatorEndpoints_eq:
  "CoordinatorEndpoints cluster n = Some eps \<Longrightarrow> eps = map (\<lambda>i. \<lparr>epName = CoordinatorInstanceName i,
     epPod = PodName (CoordinatorName cluster) i,
     epAddress = hostPort (podFQDN cluster (CoordinatorName cluster) (normalize (mcSpec cluster)) i) BoltPort,
     epTLS = (nBoltTLSSecret (normalize (mcSpec cluster)) \<noteq> [])\<rparr>) [0..n - 1]"
  by (auto simp: CoordinatorEndpoints_def endpoints_def ordinals_def Let_def split: if_splits)

lemma podFQDN_inj:
  "podFQDN cluster s spec i = podFQDN cluster s spec j \<longleftrightarrow> i = j"
  "podFQDN cluster (DataName cluster) spec i \<noteq> podFQDN cluster (CoordinatorName cluster) spec j"
  "podFQDN cluster (CoordinatorName cluster) spec i \<noteq> podFQDN cluster (DataName cluster) spec j"
  by (simp_all add: podFQDN_def DataName_def CoordinatorName_def dataComponent_def coordinatorComponent_def)

lemma PodName_inj:
  "PodName s i = PodName s j \<longleftrightarrow> i = j"
  "PodName (DataName cluster) i \<noteq> PodName (CoordinatorName cluster) j"
  "PodName (CoordinatorName cluster) i \<noteq> PodName (DataName cluster) j"
  by (simp_all add: PodName_def DataName_def CoordinatorName_def dataComponent_def coordinatorComponent_def)

lemma endpoints_keyed:
  assumes "DataEndpoints cluster n = Some data" "CoordinatorEndpoints cluster m = Some coordinators"
  shows "distinct (map epPod data)" "distinct (map epPod coordinators)"
    and "epAddress ` set data \<inter> epAddress ` set coordinators = {}"
    and "\<forall>e \<in> set data \<union> set coordinators. \<forall>f \<in> set data \<union> set coordinators.
           epPod e = epPod f \<longleftrightarrow> epAddress e = epAddress f"
proof -
  note eqs = DataEndpoints_eq [OF assms(1)] CoordinatorEndpoints_eq [OF assms(2)]
  show "distinct (map epPod data)" "distinct (map epPod coordinators)"
    by (simp_all add: eqs comp_def distinct_map inj_on_def PodName_inj)
  show "epAddress ` set data \<inter> epAddress ` set coordinators = {}"
    by (auto simp: eqs hostPort_def podFQDN_inj)
  show "\<forall>e \<in> set data \<union> set coordinators. \<forall>f \<in> set data \<union> set coordinators.
           epPod e = epPod f \<longleftrightarrow> epAddress e = epAddress f"
    by (auto simp: eqs hostPort_def podFQDN_inj PodName_inj)
qed

lemma map_of_snd: "map_of xs a = Some k \<Longrightarrow> k \<in> set (map snd xs)"
  by (force dest: map_of_SomeD)

lemma runtime_names:
  assumes "map_of (desiredSettings flags) k \<noteq> None"
  shows "k \<notin> {LicenseSetting, OrganizationSetting, AWSAccessKeySetting, AWSSecretKeySetting, AWSRegionSetting, AWSEndpointURLSetting}"
proof -
  from assms obtain f where "Setting f = Some k" by (auto simp: map_of_desiredSettings find_Some_iff)
  from map_of_snd [OF this [unfolded Setting_def runtimeSettings_def]] show ?thesis
    by (auto simp: LicenseSetting_def OrganizationSetting_def AWSAccessKeySetting_def
        AWSSecretKeySetting_def AWSRegionSetting_def AWSEndpointURLSetting_def)
qed

lemma aws_desired:
  assumes "readAWSCredentials secrets name = Inr desired"
  shows "distinct (map fst desired)"
    and "set (map fst desired) \<subseteq> {AWSAccessKeySetting, AWSSecretKeySetting, AWSRegionSetting, AWSEndpointURLSetting}"
proof -
  from assms obtain data where desired: "desired = [(setting, v). (setting, key) \<leftarrow> [(AWSAccessKeySetting, AWSAccessKeySecretKey),
            (AWSSecretKeySetting, AWSSecretKeySecretKey), (AWSRegionSetting, AWSRegionSecretKey),
            (AWSEndpointURLSetting, AWSEndpointURLSecretKey)],
          v \<leftarrow> (case map_of data key of Some v \<Rightarrow> [v] | None \<Rightarrow> [])]"
    by (auto simp: readAWSCredentials_def split: getResult.splits)
  have names: "distinct [AWSAccessKeySetting, AWSSecretKeySetting, AWSRegionSetting, AWSEndpointURLSetting]"
    by (simp add: AWSAccessKeySetting_def AWSSecretKeySetting_def AWSRegionSetting_def AWSEndpointURLSetting_def)
  show "distinct (map fst desired)"
    using names unfolding desired by (simp split: option.split)
  show "set (map fst desired) \<subseteq> {AWSAccessKeySetting, AWSSecretKeySetting, AWSRegionSetting, AWSEndpointURLSetting}"
    unfolding desired by (auto split: option.splits)
qed

section \<open>The settings of a whole pass\<close>

text \<open>The three plans write disjoint settings, so a later one does not undo an earlier one.\<close>

abbreviation run_plan :: "(settingsView \<Rightarrow> Change list) \<Rightarrow> settingsView \<Rightarrow> settingsView" where
  "run_plan plan v \<equiv> applyChanges (plan v) v"

lemma license_after_flags:
  assumes "License license organization v = []"
  shows "License license organization (run_plan (Plan_settings flags) v) = []"
proof (rule license_plan.kept [OF assms])
  fix k assume "licenseWants license organization k \<noteq> None"
  then have "k \<in> {LicenseSetting, OrganizationSetting}" by (auto simp: licenseWants_def split: if_splits)
  then have "map_of (desiredSettings flags) k = None" using runtime_names [of flags k] by blast
  then show "run_plan (Plan_settings flags) v k = v k" by (rule runtime_plan.untouched)
qed

lemma after_aws:
  assumes "distinct (map fst desired)"
    and "set (map fst desired) \<subseteq> {AWSAccessKeySetting, AWSSecretKeySetting, AWSRegionSetting, AWSEndpointURLSetting}"
  shows "License license organization v = [] \<Longrightarrow> License license organization (run_plan (Diff desired) v) = []"
    and "Plan_settings flags v = [] \<Longrightarrow> Plan_settings flags (run_plan (Diff desired) v) = []"
    and "Diff desired (run_plan (Diff desired) v) = []"
proof -
  have other: "run_plan (Diff desired) v k = v k"
    if "k \<notin> {AWSAccessKeySetting, AWSSecretKeySetting, AWSRegionSetting, AWSEndpointURLSetting}" for k
  proof -
    have "map_of desired k = None" using that assms(2) by (auto simp: map_of_eq_None_iff)
    then show ?thesis by (rule settings_plan.untouched [OF Diff_plan [OF assms(1)]])
  qed
  show "License license organization (run_plan (Diff desired) v) = []" if "License license organization v = []"
  proof (rule license_plan.kept [OF that])
    fix k assume "licenseWants license organization k \<noteq> None"
    then have "k \<in> {LicenseSetting, OrganizationSetting}" by (auto simp: licenseWants_def split: if_splits)
    then show "run_plan (Diff desired) v k = v k"
      by (intro other) (auto simp: LicenseSetting_def OrganizationSetting_def AWSAccessKeySetting_def
          AWSSecretKeySetting_def AWSRegionSetting_def AWSEndpointURLSetting_def)
  qed
  show "Plan_settings flags (run_plan (Diff desired) v) = []" if "Plan_settings flags v = []"
  proof (rule runtime_plan.kept [OF that])
    fix k assume "map_of (desiredSettings flags) k \<noteq> None"
    then show "run_plan (Diff desired) v k = v k" using runtime_names [of flags k] by (intro other) auto
  qed
  show "Diff desired (run_plan (Diff desired) v) = []"
    by (rule settings_plan.converges [OF Diff_plan [OF assms(1)]])
qed

context instance_fleet
begin

text \<open>
  What a step that went through did, for the endpoints it reached: the plan of each was applied in full
  (\<open>plan e\<close>), everything else is as it was, and the records are the pods' own settings.
\<close>

definition settles ::
  "Endpoint set \<Rightarrow> Endpoint set \<Rightarrow> (Endpoint \<Rightarrow> settingsView \<Rightarrow> Change list) \<Rightarrow> 'w passState \<Rightarrow> 'w passState \<Rightarrow> bool" where
  "settles E targets plan st st' \<longleftrightarrow> tracked E st'
     \<and> (\<forall>e \<in> targets. pod_view st' e = applyChanges (plan e (pod_view st e)) (pod_view st e))
     \<and> (\<forall>a. a \<notin> epAddress ` targets \<longrightarrow> view (psWorld st') a = view (psWorld st) a)"

lemma license_settles:
  assumes "tracked (set data \<union> set coordinators) st"
    and "DataEndpoints cluster (rrApplied (rcData replicas)) = Some data"
    and "CoordinatorEndpoints cluster (rrApplied (rcCoordinators replicas)) = Some coordinators"
    and "reconcileLicense dl secrets cluster replicas roles st = Some (condition, st')"
    and "cStatus condition = ConditionTrue"
  shows "\<exists>license organization. readLicense secrets (LicenseSecretOf cluster) = Inr (license, organization)
     \<and> settles (set data \<union> set coordinators)
         (targeted (rPods (rlData roles)) data \<union> targeted (rPods (rlCoordinators roles)) coordinators)
         (\<lambda>_. License license organization) st st'"
proof -
  note keyed = endpoints_keyed [OF assms(2,3)]
  have false: "cStatus (notLicenseAppliedCondition r m) \<noteq> ConditionTrue" for r m
    by (simp add: notLicenseAppliedCondition_def newCondition_def ConditionTrue_def ConditionFalse_def)
  from assms(4,5) obtain license organization where read: "readLicense secrets (LicenseSecretOf cluster) = Inr (license, organization)"
    by (auto simp: reconcileLicense_def Let_def false split: sum.splits)
  obtain o1 st1 where r1: "settleEndpoints dl cluster eventActionSetLicense (License license organization) secretSetting
      (rPods (rlData roles)) data noSettingsOutcome st = (o1, st1)" by fastforce
  obtain o2 st2 where r2: "settleEndpoints dl cluster eventActionSetLicense (License license organization) secretSetting
      (rPods (rlCoordinators roles)) coordinators o1 st1 = (o2, st2)" by fastforce
  have out: "condition = licenseCondition (LicenseSecretOf cluster) o2" "st' = st2"
    using assms(2-4) read r1 r2 by (simp_all add: reconcileLicense_def Let_def)
  then have fine: "soPending o2 = []" "soRejected o2 = []"
    using assms(5) false by (auto simp: licenseCondition_def split: if_splits)
  note both = both_roles [OF assms(1) keyed(1,2,3) r1 r2 fine]
  show ?thesis using read both unfolding settles_def out by blast
qed

lemma flags_settle:
  assumes "tracked (set data \<union> set coordinators) st"
    and "DataEndpoints cluster (rrApplied (rcData replicas)) = Some data"
    and "CoordinatorEndpoints cluster (rrApplied (rcCoordinators replicas)) = Some coordinators"
    and "reconcileSettings dl cluster replicas roles st = Some (outcome, st')"
    and "soPending outcome = []" "soRejected outcome = []"
  shows "settles (set data \<union> set coordinators)
     (targeted (rPods (rlData roles)) data \<union> targeted (rPods (rlCoordinators roles)) coordinators)
     (\<lambda>e. Plan_settings (if e \<in> set data then DataFlags cluster else CoordinatorFlags cluster)) st st'"
proof -
  note keyed = endpoints_keyed [OF assms(2,3)]
  obtain o1 st1 where r1: "settleEndpoints dl cluster eventActionSetRunTimeFlags (Plan_settings (DataFlags cluster))
      runTimeSetting (rPods (rlData roles)) data noSettingsOutcome st = (o1, st1)" by fastforce
  have r2: "settleEndpoints dl cluster eventActionSetRunTimeFlags (Plan_settings (CoordinatorFlags cluster))
      runTimeSetting (rPods (rlCoordinators roles)) coordinators o1 st1 = (outcome, st')"
    using assms(2-4) r1 by (simp add: reconcileSettings_def)
  have apart: "e \<notin> set data" if "e \<in> set coordinators" for e using that keyed(3) by blast
  note both = both_roles [OF assms(1) keyed(1,2,3) r1 r2 assms(5,6)]
  show ?thesis using both apart unfolding settles_def targeted_def by auto
qed

lemma aws_settles:
  assumes "tracked (set data \<union> set coordinators) st"
    and "DataEndpoints cluster (rrApplied (rcData replicas)) = Some data"
    and "CoordinatorEndpoints cluster (rrApplied (rcCoordinators replicas)) = Some coordinators"
    and "reconcileAWSCredentials dl secrets cluster replicas roles st = Some (outcome, st')"
    and "soPending outcome = []" "soRejected outcome = []"
  shows "\<exists>desired. (AWSCredentialsSecretOf cluster \<noteq> [] \<longrightarrow> readAWSCredentials secrets (AWSCredentialsSecretOf cluster) = Inr desired)
     \<and> distinct (map fst desired)
     \<and> set (map fst desired) \<subseteq> {AWSAccessKeySetting, AWSSecretKeySetting, AWSRegionSetting, AWSEndpointURLSetting}
     \<and> settles (set data \<union> set coordinators) (targeted (rPods (rlData roles)) data) (\<lambda>_. Diff desired) st st'"
proof (cases "AWSCredentialsSecretOf cluster = []")
  case True
  with assms(4) have "st' = st" by (simp add: reconcileAWSCredentials_def)
  with True assms(1) show ?thesis
    by (intro exI [of _ "[]"]) (simp add: settles_def Diff_def applyChanges_def)
next
  case False
  with assms(4,5) obtain desired where read: "readAWSCredentials secrets (AWSCredentialsSecretOf cluster) = Inr desired"
    by (auto simp: reconcileAWSCredentials_def Let_def split: sum.splits)
  with False assms(2,4) have run: "settleEndpoints dl cluster eventActionSetAWSCredentials (Diff desired) secretSetting
      (rPods (rlData roles)) data noSettingsOutcome st = (outcome, st')"
    by (simp add: reconcileAWSCredentials_def Let_def)
  note keyed = endpoints_keyed [OF assms(2,3)]
  have "settles (set data \<union> set coordinators) (targeted (rPods (rlData roles)) data) (\<lambda>_. Diff desired) st st'"
    using settled [OF assms(1) Un_upper1 keyed(1) run] settled_done [OF assms(1) Un_upper1 keyed(1) run assms(5,6)]
    by (simp add: settles_def)
  with aws_desired [OF read] read show ?thesis by blast
qed

lemma settings_of_pass:
  assumes "DataEndpoints cluster (rrApplied (rcData replicas)) = Some data"
    and "CoordinatorEndpoints cluster (rrApplied (rcCoordinators replicas)) = Some coordinators"
    and "reconcileLicense dl secrets cluster replicas roles \<lparr>psWorld = w, psReads = Map.empty, psEvents = []\<rparr> = Some (condition, st1)"
    and "reconcileSettings dl cluster replicas roles st1 = Some (o2, st2)"
    and "reconcileAWSCredentials dl secrets cluster replicas roles st2 = Some (o3, st3)"
    and "cStatus condition = ConditionTrue" "soPending o2 = []" "soRejected o2 = []" "soPending o3 = []" "soRejected o3 = []"
  shows "tracked (set data \<union> set coordinators) st3
    \<and> (\<exists>license organization. readLicense secrets (LicenseSecretOf cluster) = Inr (license, organization)
        \<and> (\<forall>e \<in> targeted (rPods (rlData roles)) data \<union> targeted (rPods (rlCoordinators roles)) coordinators.
             License license organization (pod_view st3 e) = []))
    \<and> (\<forall>e \<in> targeted (rPods (rlData roles)) data. Plan_settings (DataFlags cluster) (pod_view st3 e) = []
         \<and> (AWSCredentialsSecretOf cluster \<noteq> [] \<longrightarrow>
              (\<exists>desired. readAWSCredentials secrets (AWSCredentialsSecretOf cluster) = Inr desired
                 \<and> Diff desired (pod_view st3 e) = [])))
    \<and> (\<forall>e \<in> targeted (rPods (rlCoordinators roles)) coordinators. Plan_settings (CoordinatorFlags cluster) (pod_view st3 e) = [])
    \<and> (\<forall>a. a \<notin> epAddress ` (targeted (rPods (rlData roles)) data \<union> targeted (rPods (rlCoordinators roles)) coordinators)
         \<longrightarrow> view (psWorld st3) a = view w a)"
proof -
  let ?E = "set data \<union> set coordinators" and ?st = "\<lparr>psWorld = w, psReads = Map.empty, psEvents = []\<rparr>"
  let ?D = "targeted (rPods (rlData roles)) data" and ?C = "targeted (rPods (rlCoordinators roles)) coordinators"
  note keyed = endpoints_keyed [OF assms(1,2)]
  have t0: "tracked ?E ?st" using keyed(4) by (simp add: tracked_def)
  from license_settles [OF t0 assms(1,2,3,6)] obtain license organization where
    lic: "readLicense secrets (LicenseSecretOf cluster) = Inr (license, organization)"
    and s1: "settles ?E (?D \<union> ?C) (\<lambda>_. License license organization) ?st st1" by blast
  then have t1: "tracked ?E st1" by (simp add: settles_def)
  note s2 = flags_settle [OF t1 assms(1,2,4,7,8)]
  then have t2: "tracked ?E st2" by (simp add: settles_def)
  from aws_settles [OF t2 assms(1,2,5,9,10)] obtain desired where
    aws: "AWSCredentialsSecretOf cluster \<noteq> [] \<longrightarrow> readAWSCredentials secrets (AWSCredentialsSecretOf cluster) = Inr desired"
    and keys: "distinct (map fst desired)"
      "set (map fst desired) \<subseteq> {AWSAccessKeySetting, AWSSecretKeySetting, AWSRegionSetting, AWSEndpointURLSetting}"
    and s3: "settles ?E ?D (\<lambda>_. Diff desired) st2 st3" by blast
  have data: "pod_view st3 e = run_plan (Diff desired) (run_plan (Plan_settings (DataFlags cluster))
      (run_plan (License license organization) (pod_view ?st e)))" if "e \<in> ?D" for e
    using s1 s2 s3 that by (simp add: settles_def targeted_def)
  have coordinator: "pod_view st3 e = run_plan (Plan_settings (CoordinatorFlags cluster))
      (run_plan (License license organization) (pod_view ?st e))" if "e \<in> ?C" for e
  proof -
    from that keyed(3) have "e \<notin> set data" "epAddress e \<notin> epAddress ` ?D" by (auto simp: targeted_def)
    with s1 s2 s3 that show ?thesis by (simp add: settles_def)
  qed
  have licensed: "License license organization (pod_view st3 e) = []" if "e \<in> ?D \<union> ?C" for e
    using that data coordinator after_aws(1) [OF keys] license_after_flags license_plan.converges by fastforce
  have flagged: "Plan_settings (DataFlags cluster) (pod_view st3 e) = []" "Diff desired (pod_view st3 e) = []"
    if "e \<in> ?D" for e
    using data [OF that] after_aws(2,3) [OF keys] runtime_plan.converges by simp_all
  have flagged': "Plan_settings (CoordinatorFlags cluster) (pod_view st3 e) = []" if "e \<in> ?C" for e
    using coordinator [OF that] runtime_plan.converges by simp
  have others: "view (psWorld st3) a = view w a" if "a \<notin> epAddress ` (?D \<union> ?C)" for a
  proof -
    from that have "a \<notin> epAddress ` ?D" by auto
    with that s1 s2 s3 show ?thesis by (simp add: settles_def)
  qed
  have "tracked ?E st3" using s3 by (simp add: settles_def)
  with lic aws licensed flagged flagged' others show ?thesis by blast
qed

end

section \<open>A fleet that answers\<close>

text \<open>
  Instances that can be reached and take the settings they are sent, \<open>accepts\<close> naming the ones each
  takes: nothing a pass does changes either.
\<close>

locale responsive_fleet = instance_fleet +
  fixes answers :: "'a \<Rightarrow> bool" and accepts :: "'a \<Rightarrow> string \<Rightarrow> string \<Rightarrow> string \<Rightarrow> bool"
  assumes dials: "answers w \<Longrightarrow> dlConnect dl a tls w = (r, w') \<Longrightarrow> r = None \<and> answers w' \<and> accepts w' = accepts w"
    and reports: "answers w \<Longrightarrow> dlShowSettings dl a w = (answer, w') \<Longrightarrow>
      (\<exists>v. answer = Inr v) \<and> answers w' \<and> accepts w' = accepts w"
    and takes: "answers w \<Longrightarrow> accepts w a k v \<Longrightarrow> dlSetSetting dl a k v w = (r, w') \<Longrightarrow>
      r = None \<and> answers w' \<and> accepts w' = accepts w"
begin

definition responsive :: "(string \<Rightarrow> string \<Rightarrow> string \<Rightarrow> bool) \<Rightarrow> 'a passState \<Rightarrow> bool" where
  "responsive acc st \<longleftrightarrow> answers (psWorld st) \<and> accepts (psWorld st) = acc
     \<and> (\<forall>p r. psReads st p = Some r \<longrightarrow> (\<exists>v. r = Inr v))"

lemma observed_answer:
  assumes "responsive acc st" "observedSettings dl e st = (r, st')"
  shows "(\<exists>v. r = Inr v) \<and> responsive acc st'"
proof (cases "psReads st (epPod e)")
  case (Some reading)
  with assms show ?thesis by (auto simp: observedSettings_def responsive_def)
next
  case None
  obtain c w1 where conn: "dlConnect dl (epAddress e) (epTLS e) (psWorld st) = (c, w1)" by fastforce
  then have w1: "c = None" "answers w1" "accepts w1 = acc"
    using assms(1) dials [OF _ conn] by (auto simp: responsive_def)
  obtain reading w' where shown: "dlShowSettings dl (epAddress e) w1 = (reading, w')" by fastforce
  then have "(\<exists>v. reading = Inr v) \<and> answers w' \<and> accepts w' = acc" using reports [OF w1(2) shown] w1(3) by simp
  with assms None conn w1(1) shown show ?thesis
    by (auto simp: observedSettings_def readInstance_def responsive_def split: if_splits)
qed

lemma sets_taken:
  assumes "responsive acc st" "\<forall>c \<in> set changes. acc (epAddress e) (chSetting c) (chValue c)"
    and "issueSets dl e changes st = (landed, stop, st')"
  shows "stop = None \<and> responsive acc st'"
  using assms
proof (induction changes arbitrary: st landed)
  case (Cons c changes)
  obtain r w' where set: "dlSetSetting dl (epAddress e) (chSetting c) (chValue c) (psWorld st) = (r, w')" by fastforce
  then have w': "r = None" "answers w'" "accepts w' = acc"
    using Cons.prems(1,2) takes [OF _ _ set] by (auto simp: responsive_def)
  let ?st = "st\<lparr>psWorld := w', psReads := (case psReads st (epPod e) of
                Some (Inr view) \<Rightarrow> (psReads st)(epPod e \<mapsto> Inr (view(chSetting c \<mapsto> chValue c)))
              | _ \<Rightarrow> psReads st)\<rparr>"
  have "responsive acc ?st" using Cons.prems(1) w' by (auto simp: responsive_def split: option.splits sum.splits)
  moreover obtain landed' where "issueSets dl e changes ?st = (landed', stop, st')"
    using Cons.prems(3) set w'(1) by (auto simp: Let_def split: prod.splits)
  ultimately show ?case using Cons.IH Cons.prems(2) by auto
qed simp

lemma settings_applied:
  assumes "responsive acc st" "\<forall>v. \<forall>c \<in> set (plan v). acc (epAddress e) (chSetting c) (chValue c)"
    and "applySettings dl cluster action plan describe e st = (landed, err, st')"
  shows "err = None \<and> responsive acc st'"
proof -
  obtain r st1 where obs: "observedSettings dl e st = (r, st1)" by fastforce
  from observed_answer [OF assms(1) obs] obtain v where v: "r = Inr v" and st1: "responsive acc st1" by blast
  show ?thesis
  proof (cases "plan v = []")
    case True
    with assms(3) obs v st1 show ?thesis by (auto simp: applySettings_def)
  next
    case False
    obtain c w' where conn: "dlConnect dl (epAddress e) (epTLS e) (psWorld st1) = (c, w')" by fastforce
    then have w': "c = None" "responsive acc (st1\<lparr>psWorld := w'\<rparr>)"
      using st1 dials [OF _ conn] by (auto simp: responsive_def)
    obtain landed' stop st2 where sent: "issueSets dl e (plan v) (st1\<lparr>psWorld := w'\<rparr>) = (landed', stop, st2)"
      by (metis prod_cases3)
    from sets_taken [OF w'(2) _ sent] assms(2) have "stop = None" "responsive acc st2" by blast+
    with assms(3) obs v False conn w'(1) sent show ?thesis
      by (auto simp: applySettings_def Let_def responsive_def)
  qed
qed

lemma endpoints_settled:
  assumes "responsive acc st"
    and "\<forall>e \<in> set eps. \<forall>v. \<forall>c \<in> set (plan v). acc (epAddress e) (chSetting c) (chValue c)"
    and "settleEndpoints dl cluster action plan describe pods eps outcome st = (outcome', st')"
  shows "outcome' = outcome \<and> responsive acc st'"
  using assms
proof (induction eps arbitrary: st)
  case (Cons e eps)
  obtain landed err st1 where app: "applySettings dl cluster action plan describe e st = (landed, err, st1)" by (metis prod_cases3)
  have here: "\<forall>v. \<forall>c \<in> set (plan v). acc (epAddress e) (chSetting c) (chValue c)" using Cons.prems(2) by simp
  note one = settings_applied [OF Cons.prems(1) here app]
  show ?case
  proof (cases "readyPod pods (epPod e)")
    case True
    with Cons.prems(3) app one have "settleEndpoints dl cluster action plan describe pods eps outcome st1 = (outcome', st')"
      by (simp add: noteOutcome_def)
    from Cons.IH [OF _ _ this] one Cons.prems(2) show ?thesis by simp
  qed (use Cons in auto)
qed simp

end

lemma planned_wanted:
  "c \<in> set (Diff desired v) \<Longrightarrow> (chSetting c, chValue c) \<in> set desired"
  "c \<in> set (Plan_settings flags v) \<Longrightarrow> (chSetting c, chValue c) \<in> set (desiredSettings flags)"
  "c \<in> set (License license organization v) \<Longrightarrow>
     (chSetting c, chValue c) \<in> {(LicenseSetting, license), (OrganizationSetting, organization)}"
  by (auto simp: Diff_def Plan_settings_def License_def split: if_splits)

context responsive_fleet
begin

lemma pass_succeeds:
  assumes "DataEndpoints cluster (rrApplied (rcData replicas)) = Some data"
    and "CoordinatorEndpoints cluster (rrApplied (rcCoordinators replicas)) = Some coordinators"
    and "readLicense secrets (LicenseSecretOf cluster) = Inr (license, organization)"
    and "AWSCredentialsSecretOf cluster \<noteq> [] \<Longrightarrow> readAWSCredentials secrets (AWSCredentialsSecretOf cluster) = Inr desired"
    and "AWSCredentialsSecretOf cluster = [] \<Longrightarrow> desired = []"
    and "answers w"
    and "\<forall>e \<in> set data. \<forall>(k, v) \<in> {(LicenseSetting, license), (OrganizationSetting, organization)}
           \<union> set (desiredSettings (DataFlags cluster)) \<union> set desired. accepts w (epAddress e) k v"
    and "\<forall>e \<in> set coordinators. \<forall>(k, v) \<in> {(LicenseSetting, license), (OrganizationSetting, organization)}
           \<union> set (desiredSettings (CoordinatorFlags cluster)). accepts w (epAddress e) k v"
  shows "\<exists>condition st1 st2 st3.
     reconcileLicense dl secrets cluster replicas roles \<lparr>psWorld = w, psReads = Map.empty, psEvents = []\<rparr> = Some (condition, st1)
     \<and> reconcileSettings dl cluster replicas roles st1 = Some (noSettingsOutcome, st2)
     \<and> reconcileAWSCredentials dl secrets cluster replicas roles st2 = Some (noSettingsOutcome, st3)
     \<and> cStatus condition = ConditionTrue"
proof -
  let ?st = "\<lparr>psWorld = w, psReads = Map.empty, psEvents = []\<rparr>" and ?acc = "accepts w"
  have r0: "responsive ?acc ?st" using assms(6) by (simp add: responsive_def)
  have licensed: "\<forall>e \<in> set data \<union> set coordinators. \<forall>v. \<forall>c \<in> set (License license organization v).
      ?acc (epAddress e) (chSetting c) (chValue c)"
    using assms(7,8) planned_wanted(3) by fastforce
  have flagged: "\<forall>e \<in> set data. \<forall>v. \<forall>c \<in> set (Plan_settings (DataFlags cluster) v).
      ?acc (epAddress e) (chSetting c) (chValue c)"
    using assms(7) planned_wanted(2) by fastforce
  have flagged': "\<forall>e \<in> set coordinators. \<forall>v. \<forall>c \<in> set (Plan_settings (CoordinatorFlags cluster) v).
      ?acc (epAddress e) (chSetting c) (chValue c)"
    using assms(8) planned_wanted(2) by fastforce
  have credited: "\<forall>e \<in> set data. \<forall>v. \<forall>c \<in> set (Diff desired v). ?acc (epAddress e) (chSetting c) (chValue c)"
    using assms(7) planned_wanted(1) by fastforce
  let ?l = "License license organization"
  obtain a1 b1 where l1: "settleEndpoints dl cluster eventActionSetLicense ?l secretSetting (rPods (rlData roles)) data
      noSettingsOutcome ?st = (a1, b1)" by fastforce
  note l1' = endpoints_settled [OF r0 _ l1]
  obtain a2 b2 where l2: "settleEndpoints dl cluster eventActionSetLicense ?l secretSetting (rPods (rlCoordinators roles))
      coordinators a1 b1 = (a2, b2)" by fastforce
  have l2': "a2 = noSettingsOutcome \<and> responsive ?acc b2"
    using endpoints_settled [OF _ _ l2] l1' licensed by blast
  have step1: "reconcileLicense dl secrets cluster replicas roles ?st = Some (licenseCondition (LicenseSecretOf cluster) noSettingsOutcome, b2)"
    using assms(1-3) l1 l2 l2' by (simp add: reconcileLicense_def Let_def)
  obtain a3 b3 where f1: "settleEndpoints dl cluster eventActionSetRunTimeFlags (Plan_settings (DataFlags cluster)) runTimeSetting
      (rPods (rlData roles)) data noSettingsOutcome b2 = (a3, b3)" by fastforce
  note f1' = endpoints_settled [OF conjunct2 [OF l2'] flagged f1]
  obtain a4 b4 where f2: "settleEndpoints dl cluster eventActionSetRunTimeFlags (Plan_settings (CoordinatorFlags cluster)) runTimeSetting
      (rPods (rlCoordinators roles)) coordinators a3 b3 = (a4, b4)" by fastforce
  note f2' = endpoints_settled [OF conjunct2 [OF f1'] flagged' f2]
  have step2: "reconcileSettings dl cluster replicas roles b2 = Some (noSettingsOutcome, b4)"
    using assms(1,2) f1 f2 f1' f2' by (simp add: reconcileSettings_def)
  obtain a5 b5 where c1: "settleEndpoints dl cluster eventActionSetAWSCredentials (Diff desired) secretSetting
      (rPods (rlData roles)) data noSettingsOutcome b4 = (a5, b5)" by fastforce
  note c1' = endpoints_settled [OF conjunct2 [OF f2'] credited c1]
  have "\<exists>b. reconcileAWSCredentials dl secrets cluster replicas roles b4 = Some (noSettingsOutcome, b)"
    using assms(1,4) c1 c1' by (cases "AWSCredentialsSecretOf cluster = []") (simp_all add: reconcileAWSCredentials_def Let_def)
  with step1 step2 show ?thesis
    by (auto simp: licenseCondition_def noSettingsOutcome_def trueCondition_def newCondition_def)
qed

end

end
