(* ===== verification/Fake_Fleet.thy ===== *)
theory Fake_Fleet
  imports Settings_Pass
begin

text \<open>
  The run-time settings of the repository's in-memory Memgraph, \<open>fake_memgraph_test.go\<close>: one settings
  map per Bolt address, dialing that fails as a whole or for single addresses, SHOW DATABASE SETTINGS,
  SET DATABASE SETTING and SHOW CONFIG. \<open>fakeDialer\<close> is the dialer of this state; it provides
  \<open>instance_fleet\<close>, so what the settings steps of a pass achieve holds of it.

  A connection is used right after it was dialed and closed after its last query, so the \<open>closed\<close> flag
  is never set when a query arrives; the counters of connects and of their TLS mode are kept, the
  passwords the connections were given are not. The map \<open>rejected\<close> is an association list.
\<close>

section \<open>The state and its operations\<close>

record fakeFleet =
  ffConnectErr :: "goerror option"
  ffUnreachable :: "string \<Rightarrow> bool"
  ffConnects :: nat
  ffTLSConnects :: nat
  ffSettings :: "string \<Rightarrow> settingsView option"
  ffSettingsReads :: "string \<Rightarrow> nat"
  ffRejected :: "(string \<times> goerror) list"
  ffExecuted :: "string list"
  ffKnownFlags :: stringMap
  ffConfigUnknown :: bool
  ffConfigByAddress :: "string \<Rightarrow> stringMap option"

definition startupLicense :: string where "startupLicense = ''license-the-pods-started-with''"
definition startupOrganization :: string where "startupOrganization = ''Memgraph Test''"

definition baselineSettings :: stringMap where
  "baselineSettings =
     [(''enterprise.license'', startupLicense), (''organization.name'', startupOrganization),
      (''aws.access_key'', ''''), (''aws.secret_key'', ''''), (''aws.region'', ''''), (''aws.endpoint_url'', ''''),
      (''log.level'', ''INFO''), (''log.to_stderr'', ''true''), (''query.timeout'', ''600''),
      (''storage.snapshot.interval'', ''300'')]"

definition baselineConfig :: stringMap where
  "baselineConfig =
     [(''log_level'', ''INFO''), (''log_retention_days'', ''35''),
      (''log_file'', ''/var/lib/memgraph/logs/memgraph.log''), (''query_execution_timeout_sec'', ''600''),
      (''storage_snapshot_interval'', ''300''), (''storage_snapshot_on_exit'', ''true''), (''memory_limit'', ''0''),
      (''bolt_num_workers'', ''0''), (''query_modules_directory'', ''/usr/lib/memgraph/query_modules''),
      (''experimental_enabled'', ''''), (''bolt_port'', ''7687'')]"

definition newFakeFleet :: fakeFleet where
  "newFakeFleet = \<lparr>ffConnectErr = None, ffUnreachable = (\<lambda>_. False), ffConnects = 0, ffTLSConnects = 0,
     ffSettings = Map.empty, ffSettingsReads = (\<lambda>_. 0), ffRejected = [], ffExecuted = [],
     ffKnownFlags = baselineConfig, ffConfigUnknown = False, ffConfigByAddress = Map.empty\<rparr>"

definition settingsLocked :: "string \<Rightarrow> fakeFleet \<Rightarrow> settingsView \<times> fakeFleet" where
  "settingsLocked address f =
     (case ffSettings f address of
        Some held \<Rightarrow> (held, f)
      | None \<Rightarrow> (map_of baselineSettings, f\<lparr>ffSettings := (ffSettings f)(address \<mapsto> map_of baselineSettings)\<rparr>))"

definition fakeConnect :: "string \<Rightarrow> bool \<Rightarrow> fakeFleet call" where
  "fakeConnect address tls f =
     (let f' = f\<lparr>ffConnects := ffConnects f + 1, ffTLSConnects := ffTLSConnects f + (if tls then 1 else 0)\<rparr> in
      case ffConnectErr f of
        Some e \<Rightarrow> (Some e, f')
      | None \<Rightarrow> (if ffUnreachable f address then Some (''fake memgraph: '' @ address @ '' refused the connection'') else None, f'))"

definition fakeShowSettings :: "string \<Rightarrow> fakeFleet \<Rightarrow> (goerror + settingsView) \<times> fakeFleet" where
  "fakeShowSettings address f =
     (case settingsLocked address (f\<lparr>ffSettingsReads := (ffSettingsReads f)(address := ffSettingsReads f address + 1)\<rparr>) of
        (held, f') \<Rightarrow> (Inr held, f'))"

definition quoted :: "string \<Rightarrow> string" where "quoted s = CHR 0x27 # s @ [CHR 0x27]"

text \<open>\<open>execute\<close> with the closure of \<open>SetSetting\<close>: a refusal after \<open>settingsLocked\<close> keeps its write.\<close>

definition fakeSetSetting :: "string \<Rightarrow> string \<Rightarrow> string \<Rightarrow> fakeFleet call" where
  "fakeSetSetting address name v f =
     (let command = ''SET DATABASE SETTING '' @ goQuote name @ '' TO '' @ goQuote v in
      case find (\<lambda>(prefix, _). hasPrefix command prefix) (ffRejected f) of
        Some (_, e) \<Rightarrow> (Some e, f)
      | None \<Rightarrow> (case settingsLocked address f of
          (held, f') \<Rightarrow>
            if held name = None then (Some (''fake memgraph: Unknown setting name '' @ quoted name), f')
            else if name = ''log.to_stderr'' \<and> v \<noteq> ''true'' \<and> v \<noteq> ''false''
            then (Some (''fake memgraph: Cannot update setting '' @ quoted name @ '': Boolean value supports only ''
                    @ quoted ''false'' @ '' or '' @ quoted ''true'' @ '' as the input.''), f')
            else (None, f'\<lparr>ffSettings := (ffSettings f')(address \<mapsto> held(name \<mapsto> v)),
                    ffExecuted := ffExecuted f' @ [address @ '': '' @ command]\<rparr>)))"

definition fakeShowConfig :: "string \<Rightarrow> fakeFleet \<Rightarrow> (goerror + stringMap) \<times> fakeFleet" where
  "fakeShowConfig address f =
     (if ffConfigUnknown f then Inl (''fake memgraph: '' @ address @ '' does not answer SHOW CONFIG'')
      else case ffConfigByAddress f address of Some config \<Rightarrow> Inr config | None \<Rightarrow> Inr (ffKnownFlags f), f)"

definition fakeDialer :: "fakeFleet dialer" where
  "fakeDialer = \<lparr>dlConnect = fakeConnect, dlShowSettings = fakeShowSettings, dlSetSetting = fakeSetSetting,
     dlShowConfig = fakeShowConfig\<rparr>"

text \<open>\<open>settingsOf\<close>: what an instance holds; the baseline until it is first asked.\<close>

definition settingsOf :: "fakeFleet \<Rightarrow> string \<Rightarrow> settingsView" where
  "settingsOf f address = fst (settingsLocked address f)"

lemma settingsLocked_view:
  "settingsLocked a f = (held, f') \<Longrightarrow> held = settingsOf f a \<and> settingsOf f' = settingsOf f \<and> ffSettings f' a = Some held"
  by (auto simp: settingsOf_def settingsLocked_def fun_eq_iff split: option.splits if_splits)

lemma settingsOf_settings:
  "settingsOf (f\<lparr>ffSettings := (ffSettings f)(a \<mapsto> held)\<rparr>) = (settingsOf f)(a := held)"
  by (auto simp: settingsOf_def settingsLocked_def fun_eq_iff split: option.split)

lemma settingsOf_same: "ffSettings f' = ffSettings f \<Longrightarrow> settingsOf f' = settingsOf f"
  by (auto simp: settingsOf_def settingsLocked_def fun_eq_iff split: option.split)

lemma fakeSetSetting_view:
  assumes "fakeSetSetting a k v f = (r, f')"
  shows "settingsOf f' = (if r = None then (settingsOf f)(a := (settingsOf f a)(k \<mapsto> v)) else settingsOf f)"
proof -
  let ?command = "''SET DATABASE SETTING '' @ goQuote k @ '' TO '' @ goQuote v"
  obtain held f1 where locked: "settingsLocked a f = (held, f1)" by fastforce
  note view = settingsLocked_view [OF locked]
  have wrote: "settingsOf (f1\<lparr>ffSettings := (ffSettings f1)(a \<mapsto> held(k \<mapsto> v)), ffExecuted := e\<rparr>)
      = (settingsOf f)(a := (settingsOf f a)(k \<mapsto> v))" for e
    using view settingsOf_settings [of f1 a] settingsOf_same [of "f1\<lparr>ffSettings := (ffSettings f1)(a \<mapsto> held(k \<mapsto> v)), ffExecuted := e\<rparr>"
        "f1\<lparr>ffSettings := (ffSettings f1)(a \<mapsto> held(k \<mapsto> v))\<rparr>"] by simp
  show ?thesis
  proof (cases "find (\<lambda>(prefix, _). hasPrefix ?command prefix) (ffRejected f)")
    case None
    then have "(\<exists>e. r = Some e \<and> f' = f1) \<or> r = None \<and> (\<exists>e. f' = f1\<lparr>ffSettings := (ffSettings f1)(a \<mapsto> held(k \<mapsto> v)), ffExecuted := e\<rparr>)"
      using assms locked unfolding fakeSetSetting_def Let_def by (simp only: option.case prod.case split: if_splits) blast+
    with view wrote show ?thesis by auto
  next
    case (Some hit)
    then have "r \<noteq> None \<and> f' = f" using assms unfolding fakeSetSetting_def Let_def by (cases hit) auto
    then show ?thesis by auto
  qed
qed

interpretation fake_fleet: instance_fleet fakeDialer settingsOf
proof unfold_locales
  fix a tls w r w' assume "dlConnect fakeDialer a tls w = (r, w')"
  then have "ffSettings w' = ffSettings w"
    by (auto simp: fakeDialer_def fakeConnect_def Let_def split: option.splits)
  then show "settingsOf w' = settingsOf w" by (rule settingsOf_same)
next
  fix a w answer w' assume "dlShowSettings fakeDialer a w = (answer, w')"
  moreover obtain held w1 where
    "settingsLocked a (w\<lparr>ffSettingsReads := (ffSettingsReads w)(a := ffSettingsReads w a + 1)\<rparr>) = (held, w1)" by fastforce
  ultimately have "answer = Inr held \<and> w1 = w' \<and> held = settingsOf w a \<and> settingsOf w1 = settingsOf w"
    using settingsLocked_view settingsOf_same [of "w\<lparr>ffSettingsReads := (ffSettingsReads w)(a := ffSettingsReads w a + 1)\<rparr>" w]
    by (fastforce simp: fakeDialer_def fakeShowSettings_def)
  then show "settingsOf w' = settingsOf w \<and> (\<forall>v. answer = Inr v \<longrightarrow> v = settingsOf w a)" by auto
next
  fix a k v w w' assume "dlSetSetting fakeDialer a k v w = (None, w')"
  then show "settingsOf w' = (settingsOf w)(a := (settingsOf w a)(k \<mapsto> v))"
    using fakeSetSetting_view [of a k v w None w'] by (simp add: fakeDialer_def)
next
  fix a k v w e w' assume "dlSetSetting fakeDialer a k v w = (Some e, w')"
  then show "settingsOf w' = settingsOf w"
    using fakeSetSetting_view [of a k v w "Some e" w'] by (simp add: fakeDialer_def)
qed

text \<open>A fake no test made refuse anything answers, and takes the settings it has.\<close>

definition fakeAnswers :: "fakeFleet \<Rightarrow> bool" where
  "fakeAnswers f \<longleftrightarrow> ffConnectErr f = None \<and> ffUnreachable f = (\<lambda>_. False) \<and> ffRejected f = []"

definition fakeAccepts :: "fakeFleet \<Rightarrow> string \<Rightarrow> string \<Rightarrow> string \<Rightarrow> bool" where
  "fakeAccepts f address name v \<longleftrightarrow> settingsOf f address name \<noteq> None
     \<and> (name = ''log.to_stderr'' \<longrightarrow> v = ''true'' \<or> v = ''false'')"

lemma settingsLocked_kept:
  "settingsLocked a f = (held, f') \<Longrightarrow> ffConnectErr f' = ffConnectErr f \<and> ffUnreachable f' = ffUnreachable f
     \<and> ffRejected f' = ffRejected f"
  by (auto simp: settingsLocked_def split: option.splits)

lemma fakeAccepts_view: "settingsOf f' = settingsOf f \<Longrightarrow> fakeAccepts f' = fakeAccepts f"
  by (simp add: fakeAccepts_def fun_eq_iff)

lemma fakeAccepts_set:
  "settingsOf f a k \<noteq> None \<Longrightarrow> settingsOf f' = (settingsOf f)(a := (settingsOf f a)(k \<mapsto> v)) \<Longrightarrow> fakeAccepts f' = fakeAccepts f"
  by (auto simp: fakeAccepts_def fun_eq_iff)

lemma fakeSetSetting_taken:
  assumes "fakeAnswers f" "fakeAccepts f a k v" "fakeSetSetting a k v f = (r, f')"
  shows "r = None \<and> fakeAnswers f'"
proof -
  obtain held f1 where locked: "settingsLocked a f = (held, f1)" by fastforce
  have "held k \<noteq> None" "\<not> (k = ''log.to_stderr'' \<and> v \<noteq> ''true'' \<and> v \<noteq> ''false'')"
    using settingsLocked_view [OF locked] assms(2) by (auto simp: fakeAccepts_def)
  moreover have "ffRejected f = []" using assms(1) by (simp add: fakeAnswers_def)
  ultimately have "r = None \<and> (\<exists>s e. f' = f1\<lparr>ffSettings := s, ffExecuted := e\<rparr>)"
    using assms(3) locked unfolding fakeSetSetting_def Let_def
    by (simp only: find.simps option.case prod.case if_False Pair_inject) blast
  then show ?thesis using settingsLocked_kept [OF locked] assms(1) by (auto simp: fakeAnswers_def)
qed

interpretation fake_responsive: responsive_fleet fakeDialer settingsOf fakeAnswers fakeAccepts
proof unfold_locales
  fix w a tls r w' assume "fakeAnswers w" and run: "dlConnect fakeDialer a tls w = (r, w')"
  then have "r = None \<and> fakeAnswers w'"
    by (auto simp: fakeDialer_def fakeConnect_def fakeAnswers_def Let_def)
  then show "r = None \<and> fakeAnswers w' \<and> fakeAccepts w' = fakeAccepts w"
    using fakeAccepts_view [OF fake_fleet.connects [OF run]] by simp
next
  fix w a answer w' assume "fakeAnswers w" and run: "dlShowSettings fakeDialer a w = (answer, w')"
  obtain held w1 where
    locked: "settingsLocked a (w\<lparr>ffSettingsReads := (ffSettingsReads w)(a := ffSettingsReads w a + 1)\<rparr>) = (held, w1)" by fastforce
  then have "answer = Inr held" "w1 = w'" using run by (simp_all add: fakeDialer_def fakeShowSettings_def)
  with \<open>fakeAnswers w\<close> settingsLocked_kept [OF locked] have "(\<exists>v. answer = Inr v) \<and> fakeAnswers w'"
    by (simp add: fakeAnswers_def)
  then show "(\<exists>v. answer = Inr v) \<and> fakeAnswers w' \<and> fakeAccepts w' = fakeAccepts w"
    using fakeAccepts_view fake_fleet.shows_view [OF run] by blast
next
  fix w a k v r w' assume "fakeAnswers w" "fakeAccepts w a k v" "dlSetSetting fakeDialer a k v w = (r, w')"
  then have run: "fakeSetSetting a k v w = (r, w')" by (simp add: fakeDialer_def)
  have none: "r = None \<and> fakeAnswers w'" by (rule fakeSetSetting_taken [OF \<open>fakeAnswers w\<close> \<open>fakeAccepts w a k v\<close> run])
  with fakeSetSetting_view [OF run] have "settingsOf w' = (settingsOf w)(a := (settingsOf w a)(k \<mapsto> v))" by simp
  moreover have "settingsOf w a k \<noteq> None" using \<open>fakeAccepts w a k v\<close> by (simp add: fakeAccepts_def)
  ultimately show "r = None \<and> fakeAnswers w' \<and> fakeAccepts w' = fakeAccepts w"
    using none fakeAccepts_set by simp
qed

section \<open>What a pass achieves\<close>

text \<open>
  The wish of a spec and its Secrets for the instances of the ready pods: each holds the license and its
  role's run-time flags, and each data instance the AWS credentials, when the spec names some.
\<close>

definition settingsHold ::
  "secretReader \<Rightarrow> MemgraphDBCluster \<Rightarrow> rolloutRoles \<Rightarrow> Endpoint list \<Rightarrow> Endpoint list \<Rightarrow> (string \<Rightarrow> settingsView) \<Rightarrow> bool" where
  "settingsHold secrets cluster roles data coordinators held \<longleftrightarrow>
     (\<exists>license organization. readLicense secrets (LicenseSecretOf cluster) = Inr (license, organization)
        \<and> (\<forall>e \<in> targeted (rPods (rlData roles)) data \<union> targeted (rPods (rlCoordinators roles)) coordinators.
             License license organization (held (epAddress e)) = []))
     \<and> (\<forall>e \<in> targeted (rPods (rlData roles)) data. Plan_settings (DataFlags cluster) (held (epAddress e)) = []
          \<and> (AWSCredentialsSecretOf cluster \<noteq> [] \<longrightarrow>
               (\<exists>desired. readAWSCredentials secrets (AWSCredentialsSecretOf cluster) = Inr desired
                  \<and> Diff desired (held (epAddress e)) = [])))
     \<and> (\<forall>e \<in> targeted (rPods (rlCoordinators roles)) coordinators.
          Plan_settings (CoordinatorFlags cluster) (held (epAddress e)) = [])"

text \<open>
  C22: The settings verdict of a pass is true on any fleet of instances that obeys Memgraph's contract
  (dialing and reading change nothing, a SET changes its one setting or is refused): when the license
  step reports LicenseApplied and neither the run-time flags nor the AWS credentials report anything
  pending or rejected, every ready pod holds the license of the Secret, the run-time flags of its role
  and, a data pod, the AWS credentials, all at once, although each step planned against one read made
  before the others wrote; and no instance whose pod was not ready was changed.
\<close>

theorem settings_verdict_true:
  assumes "instance_fleet dl view"
    and "DataEndpoints cluster (rrApplied (rcData replicas)) = Some data"
    and "CoordinatorEndpoints cluster (rrApplied (rcCoordinators replicas)) = Some coordinators"
    and "reconcileLicense dl secrets cluster replicas roles \<lparr>psWorld = w, psReads = Map.empty, psEvents = []\<rparr> = Some (condition, st1)"
    and "reconcileSettings dl cluster replicas roles st1 = Some (o2, st2)"
    and "reconcileAWSCredentials dl secrets cluster replicas roles st2 = Some (o3, st3)"
    and "cStatus condition = ConditionTrue" "soPending o2 = []" "soRejected o2 = []" "soPending o3 = []" "soRejected o3 = []"
  shows "settingsHold secrets cluster roles data coordinators (view (psWorld st3))
    \<and> (\<forall>a. a \<notin> epAddress ` (targeted (rPods (rlData roles)) data \<union> targeted (rPods (rlCoordinators roles)) coordinators)
         \<longrightarrow> view (psWorld st3) a = view w a)"
  unfolding settingsHold_def by (intro conjI; insert instance_fleet.settings_of_pass [OF assms]; blast)


subsection \<open>On the fake\<close>

text \<open>One ready pod per role, a license the pods did not start with and new AWS keys.\<close>

definition exSecrets :: secretReader where
  "exSecrets = (\<lambda>_. Found [(lsLicenseKey (LicenseSecretOf exCluster), ''renewed''),
     (lsOrganizationKey (LicenseSecretOf exCluster), ''Memgraph'')])"

definition exReadyPod :: "string \<Rightarrow> Pod" where
  "exReadyPod name = \<lparr>pName = name, pUID = ''u'', pInstance = [], pOrdinal = 0, pRevisionHash = [], pCurrent = True, pReady = True\<rparr>"

definition exRoles :: rolloutRoles where
  "exRoles = (let role = (\<lambda>name. \<lparr>rReplicas = 1, rUpdateRevision = [], rStale = False, rPods = [exReadyPod (PodName name 0)]\<rparr>) in
     \<lparr>rlCoordinators = role (CoordinatorName exCluster), rlData = role (DataName exCluster), rlCoordinatorFlags = [],
      rlDataFlags = [], rlPodFlags = Map.empty, rlCoordinatorTemplate = [], rlDataTemplate = [], rlPodTemplates = Map.empty\<rparr>)"

definition exCounts :: replicaCounts where
  "exCounts = (let role = (\<lambda>name. \<lparr>rrName = name, rrDeclared = 1, rrApplied = 1, rrStatefulSet = None\<rparr>) in
     \<lparr>rcCoordinators = role (CoordinatorName exCluster), rcData = role (DataName exCluster), rcUnseenShrinks = []\<rparr>)"

lemma exCluster_spec:
  "DataFlags exCluster = defaultFlags" "CoordinatorFlags exCluster = defaultFlags" "AWSCredentialsSecretOf exCluster = []"
  "lsLicenseKey (LicenseSecretOf exCluster) \<noteq> lsOrganizationKey (LicenseSecretOf exCluster)"
  by (simp_all add: DataFlags_def CoordinatorFlags_def roleFlags_def AWSCredentialsSecretOf_def LicenseSecretOf_def
      normalize_def normalizeRole_def dataRoleSpec_def coordinatorRoleSpec_def exCluster_def emptySpec_def
      normalizeFlags_def orDefault_def DefaultLicenseSecretKey_def DefaultOrganizationSecretKey_def)

lemma ordinals_one: "ordinals 0 1 = Some [0]"
  using ordinals_Some [of 0 1] by (simp add: int32_max_def)

definition fleetData :: "Endpoint list" where "fleetData = the (DataEndpoints exCluster 1)"
definition fleetCoordinators :: "Endpoint list" where "fleetCoordinators = the (CoordinatorEndpoints exCluster 1)"

lemma exEndpoints:
  "DataEndpoints exCluster 1 = Some fleetData" "CoordinatorEndpoints exCluster 1 = Some fleetCoordinators"
  "map epPod fleetData = [PodName (DataName exCluster) 0]" "map epPod fleetCoordinators = [PodName (CoordinatorName exCluster) 0]"
  by (simp_all add: fleetData_def fleetCoordinators_def DataEndpoints_def CoordinatorEndpoints_def endpoints_def ordinals_one Let_def)

lemma exPods:
  "e \<in> set fleetData \<Longrightarrow> epPod e = PodName (DataName exCluster) 0"
  "e \<in> set fleetCoordinators \<Longrightarrow> epPod e = PodName (CoordinatorName exCluster) 0"
  using arg_cong [OF exEndpoints(3), of set] arg_cong [OF exEndpoints(4), of set] by auto

lemma exTargets:
  "targeted (rPods (rlData exRoles)) fleetData = set fleetData"
  "targeted (rPods (rlCoordinators exRoles)) fleetCoordinators = set fleetCoordinators"
  by (auto simp: targeted_def exRoles_def readyPod_def exReadyPod_def Let_def exPods)

lemma exDesired: "desiredSettings defaultFlags = [(''log.level'', ''INFO''), (''log.to_stderr'', ''true'')]"
  by code_simp

lemma exLicense: "readLicense exSecrets (LicenseSecretOf exCluster) = Inr (''renewed'', ''Memgraph'')"
  using exCluster_spec(4) by (simp add: readLicense_def exSecrets_def get_def)

lemma exAccepts:
  "\<forall>(k, v) \<in> {(LicenseSetting, ''renewed''), (OrganizationSetting, ''Memgraph'')} \<union> set (desiredSettings defaultFlags).
     fakeAccepts newFakeFleet a k v"
  unfolding exDesired
  by (simp add: fakeAccepts_def settingsOf_def settingsLocked_def newFakeFleet_def baselineSettings_def
      LicenseSetting_def OrganizationSetting_def)

lemma exAnswers: "fakeAnswers newFakeFleet"
  by (simp add: fakeAnswers_def newFakeFleet_def)

lemma exFleetPass:
  "\<exists>condition st1 st2 st3.
     reconcileLicense fakeDialer exSecrets exCluster exCounts exRoles \<lparr>psWorld = newFakeFleet, psReads = Map.empty, psEvents = []\<rparr> = Some (condition, st1)
     \<and> reconcileSettings fakeDialer exCluster exCounts exRoles st1 = Some (noSettingsOutcome, st2)
     \<and> reconcileAWSCredentials fakeDialer exSecrets exCluster exCounts exRoles st2 = Some (noSettingsOutcome, st3)
     \<and> cStatus condition = ConditionTrue"
  using fake_responsive.pass_succeeds [of exCluster exCounts fleetData fleetCoordinators exSecrets "''renewed''" "''Memgraph''"
      "[]" newFakeFleet exRoles] exEndpoints(1,2) exLicense exAccepts exAnswers exCluster_spec
  by (auto simp: exCounts_def)

theorem settings_verdict_true_witness:
  "\<exists>st3 :: fakeFleet passState. settingsHold exSecrets exCluster exRoles fleetData fleetCoordinators (settingsOf (psWorld st3))
     \<and> targeted (rPods (rlData exRoles)) fleetData \<noteq> {}"
proof -
  from exFleetPass obtain condition st1 st2 st3 where steps:
    "reconcileLicense fakeDialer exSecrets exCluster exCounts exRoles \<lparr>psWorld = newFakeFleet, psReads = Map.empty, psEvents = []\<rparr> = Some (condition, st1)"
    "reconcileSettings fakeDialer exCluster exCounts exRoles st1 = Some (noSettingsOutcome, st2)"
    "reconcileAWSCredentials fakeDialer exSecrets exCluster exCounts exRoles st2 = Some (noSettingsOutcome, st3)"
    "cStatus condition = ConditionTrue" by blast
  have clean: "soPending noSettingsOutcome = []" "soRejected noSettingsOutcome = []" by (simp_all add: noSettingsOutcome_def)
  have counts: "DataEndpoints exCluster (rrApplied (rcData exCounts)) = Some fleetData"
    "CoordinatorEndpoints exCluster (rrApplied (rcCoordinators exCounts)) = Some fleetCoordinators"
    using exEndpoints(1,2) by (simp_all add: exCounts_def)
  have "settingsHold exSecrets exCluster exRoles fleetData fleetCoordinators (settingsOf (psWorld st3))"
    using settings_verdict_true [OF fake_fleet.instance_fleet_axioms counts steps clean clean] by blast
  moreover have "targeted (rPods (rlData exRoles)) fleetData \<noteq> {}" using exEndpoints(3) by (auto simp: exTargets)
  ultimately show ?thesis by blast
qed


end
