(* ===== verification/Monitoring.thy ===== *)
theory Monitoring
  imports Fake_Fleet
begin

text \<open>
  The monitoring objects of a cluster, \<open>src/internal/resources/monitoring.go\<close>, \<open>vmagent.go\<close> and the
  ConfigMap of \<open>vector.go\<close>, and the controller's \<open>serviceMonitorFailure\<close>. The vmagent Deployment and the
  Vector sidecar are pods and are built in \<open>Pod_Builder\<close>; which of the objects a pass wants and prunes is
  in \<open>Desired_Monitoring\<close>.

  \<open>yaml.Marshal\<close> of the scrape configuration and of Vector's configuration is not under \<open>src/\<close>: the
  ConfigMaps carry its argument, a record of the struct's fields.
\<close>

section \<open>Names and markers\<close>

definition MonitoringLabel :: string where "MonitoringLabel = ''memgraph.com/monitoring''"
definition MonitoringValue :: string where "MonitoringValue = ''true''"
definition monitoringComponent :: string where "monitoringComponent = ''monitoring''"
definition metricsPath :: string where "metricsPath = ''/metrics''"
definition GrafanaDashboardKey :: string where "GrafanaDashboardKey = ''memgraph_openmetrics.json''"
definition grafanaDashboardComponent :: string where "grafanaDashboardComponent = ''grafana-dashboard''"
definition vmagentComponent :: string where "vmagentComponent = ''vmagent''"
definition vmagentJobName :: string where "vmagentJobName = ''memgraph''"
definition VMAgentConfigKey :: string where "VMAgentConfigKey = ''scrape.yml''"
definition vectorComponent :: string where "vectorComponent = ''vector''"
definition VectorConfigKey :: string where "VectorConfigKey = ''vector.yaml''"

definition MonitoringSelector :: "MemgraphDBCluster \<Rightarrow> stringMap" where
  "MonitoringSelector cluster = [(instanceLabel, mcName cluster), (MonitoringLabel, MonitoringValue)]"

definition ServiceMonitorName :: "MemgraphDBCluster \<Rightarrow> string" where
  "ServiceMonitorName cluster = mcName cluster"

definition GrafanaDashboardName :: "MemgraphDBCluster \<Rightarrow> string" where
  "GrafanaDashboardName cluster = mcName cluster @ ''-'' @ grafanaDashboardComponent"

definition VMAgentName :: "MemgraphDBCluster \<Rightarrow> string" where
  "VMAgentName cluster = mcName cluster @ ''-'' @ vmagentComponent"

definition VMAgentConfigName :: "MemgraphDBCluster \<Rightarrow> string" where
  "VMAgentConfigName cluster = VMAgentName cluster @ ''-config''"

definition VectorConfigName :: "MemgraphDBCluster \<Rightarrow> string" where
  "VectorConfigName cluster = mcName cluster @ ''-'' @ vectorComponent @ ''-config''"

definition UsesServiceMonitor :: "MemgraphDBCluster \<Rightarrow> bool" where
  "UsesServiceMonitor cluster \<longleftrightarrow> (case spMonitoring (mcSpec cluster) of
     Some m \<Rightarrow> monServiceMonitor m \<noteq> None | None \<Rightarrow> False)"

definition UsesGrafanaDashboard :: "MemgraphDBCluster \<Rightarrow> bool" where
  "UsesGrafanaDashboard cluster \<longleftrightarrow> (case spMonitoring (mcSpec cluster) of
     Some m \<Rightarrow> monGrafanaDashboard m \<noteq> None | None \<Rightarrow> False)"

definition UsesVMAgent :: "MemgraphDBCluster \<Rightarrow> bool" where
  "UsesVMAgent cluster \<longleftrightarrow> (case spMonitoring (mcSpec cluster) of
     Some m \<Rightarrow> monVMAgentRemote m \<noteq> None | None \<Rightarrow> False)"

definition UsesVector :: "MemgraphDBCluster \<Rightarrow> bool" where
  "UsesVector cluster \<longleftrightarrow> (case spMonitoring (mcSpec cluster) of
     Some m \<Rightarrow> monVectorRemote m \<noteq> None | None \<Rightarrow> False)"

definition monitoringLabels :: "MemgraphDBCluster \<Rightarrow> string \<Rightarrow> stringMap \<Rightarrow> stringMap" where
  "monitoringLabels cluster component custom =
     mapsCopy (labels cluster component custom) [(MonitoringLabel, MonitoringValue)]"

section \<open>ServiceMonitor and dashboard\<close>

record monitorEndpoint =
  mePort :: string
  mePath :: string
  meScheme :: string
  meInterval :: string
  meInsecureSkipVerify :: "bool option"

record ServiceMonitor_ =
  smoName :: string
  smoNamespace :: string
  smoLabels :: stringMap
  smoAnnotations :: stringMap
  smoMatchLabels :: stringMap
  smoEndpoints :: "monitorEndpoint list"

definition metricsEndpoint :: "normalizedSpec \<Rightarrow> normalizedServiceMonitor \<Rightarrow> monitorEndpoint" where
  "metricsEndpoint spec block =
     (let endpoint = \<lparr>mePort = metricsPortName, mePath = metricsPath, meScheme = ''http'',
            meInterval = nsmInterval block, meInsecureSkipVerify = None\<rparr> in
      if nBoltTLSSecret spec \<noteq> [] then endpoint\<lparr>meScheme := ''https'', meInsecureSkipVerify := Some True\<rparr>
      else endpoint)"

text \<open>The builders read their block of the spec; without it they dereference nil, \<^term>\<open>None\<close>.\<close>

definition ServiceMonitor :: "MemgraphDBCluster \<Rightarrow> ServiceMonitor_ option" where
  "ServiceMonitor cluster =
     (let spec = normalize (mcSpec cluster) in
      map_option (\<lambda>block. \<lparr>smoName = ServiceMonitorName cluster, smoNamespace = mcNamespace cluster,
          smoLabels = monitoringLabels cluster monitoringComponent (nsmLabels block),
          smoAnnotations = emptyToNil (nsmAnnotations block),
          smoMatchLabels = [(''app.kubernetes.io/name'', ''memgraph''), (instanceLabel, mcName cluster)],
          smoEndpoints = [metricsEndpoint spec block]\<rparr>) (nmoServiceMonitor (nMonitoring spec)))"

text \<open>The embedded dashboard JSON is an argument.\<close>

definition GrafanaDashboard :: "string \<Rightarrow> MemgraphDBCluster \<Rightarrow> (ConfigMap \<times> stringMap) option" where
  "GrafanaDashboard grafanaDashboardJSON cluster =
     map_option (\<lambda>block. (\<lparr>cmName = GrafanaDashboardName cluster, cmNamespace = mcNamespace cluster,
         cmLabels = monitoringLabels cluster grafanaDashboardComponent (ngdLabels block),
         cmData = [(GrafanaDashboardKey, grafanaDashboardJSON)]\<rparr>, emptyToNil (ngdAnnotations block)))
       (nmoGrafanaDashboard (nMonitoring (normalize (mcSpec cluster))))"

section \<open>The scrape configuration of vmagent\<close>

record scrapeJob =
  sjJobName :: string
  sjMetricsPath :: string
  sjScheme :: string
  sjInsecureSkipVerify :: "bool option"
  sjTargets :: "string list"

record scrapeConfig =
  scScrapeInterval :: string
  scExternalLabels :: stringMap
  scScrapeConfigs :: "scrapeJob list"

record 'c marshalledMap =
  mmName :: string
  mmNamespace :: string
  mmLabels :: stringMap
  mmKey :: string
  mmConfig :: 'c

definition VMAgentConfigMap :: "MemgraphDBCluster \<Rightarrow> int32 \<Rightarrow> int32 \<Rightarrow> scrapeConfig marshalledMap option" where
  "VMAgentConfigMap cluster coordinatorReplicas dataReplicas =
     (let spec = normalize (mcSpec cluster);
          target = (\<lambda>statefulSet ordinal. hostPort (podFQDN cluster statefulSet spec ordinal) MetricsPort);
          job = \<lparr>sjJobName = vmagentJobName, sjMetricsPath = metricsPath, sjScheme = [], sjInsecureSkipVerify = None,
            sjTargets = map (target (CoordinatorName cluster)) [0..coordinatorReplicas - 1]
              @ map (target (DataName cluster)) [0..dataReplicas - 1]\<rparr> in
      if wrap32 (coordinatorReplicas + dataReplicas) < 0 then None
      else map_option (\<lambda>block. \<lparr>mmName = VMAgentConfigName cluster, mmNamespace = mcNamespace cluster,
          mmLabels = monitoringLabels cluster vmagentComponent [], mmKey = VMAgentConfigKey,
          mmConfig = \<lparr>scScrapeInterval = nvmScrapeInterval block, scExternalLabels = nvmExternalLabels block,
            scScrapeConfigs = [if nBoltTLSSecret spec \<noteq> [] then job\<lparr>sjScheme := ''https'', sjInsecureSkipVerify := Some True\<rparr>
              else job]\<rparr>\<rparr>) (nmoVMAgent (nMonitoring spec)))"

section \<open>The configuration of Vector\<close>

definition vectorDataPath :: string where "vectorDataPath = ''/vector-data''"
definition vectorRoleEnv :: string where "vectorRoleEnv = ''ROLE''"
definition vectorPodEnv :: string where "vectorPodEnv = ''POD_NAME''"
definition vectorNamespaceEnv :: string where "vectorNamespaceEnv = ''POD_NAMESPACE''"
definition vectorUsernameEnv :: string where "vectorUsernameEnv = ''LOGS_USERNAME''"
definition vectorPasswordEnv :: string where "vectorPasswordEnv = ''LOGS_PASSWORD''"
definition vectorJob :: string where "vectorJob = ''memgraph''"
definition vectorConnectTimeoutSecs :: int64 where "vectorConnectTimeoutSecs = 86400"

definition vectorRemap :: string where
  \<open>vectorRemap = concat (map (\<lambda>line. line @ [CHR 0x0A])
     [''level = "unknown"'',
      ''parsed, err = parse_json(.message)'',
      ''if err == null && is_object(parsed) {'',
      ''  level = downcase(to_string(parsed.level) ?? "unknown")'',
      ''  .message = to_string(parsed.message) ?? .message'',
      ''}'',
      ''if level == "warning" {'',
      ''  level = "warn"'',
      ''} else if level == "critical" {'',
      ''  level = "fatal"'',
      ''}'',
      ''.level = level''])\<close>

record vectorTLS =
  vtEnabled :: bool
  vtVerifyCertificate :: bool
  vtVerifyHostname :: bool

record vectorWebsocket =
  vwType :: string
  vwURI :: string
  vwConnectTimeoutSecs :: int64
  vwTLS :: "vectorTLS option"

record vectorTransform =
  vfType :: string
  vfInputs :: "string list"
  vfSource :: string

record vectorBasicAuth =
  vbStrategy :: string
  vbUser :: string
  vbPassword :: string

record vectorLoki =
  vlType :: string
  vlInputs :: "string list"
  vlEndpoint :: string
  vlHealthcheck :: bool
  vlAuth :: "vectorBasicAuth option"
  vlCodec :: string
  vlLabels :: stringMap
  vlRemoveLabelFields :: bool

record vectorConfig =
  vcDataDir :: string
  vcSources :: "(string \<times> vectorWebsocket) list"
  vcTransforms :: "(string \<times> vectorTransform) list"
  vcSinks :: "(string \<times> vectorLoki) list"

definition envRef :: "string \<Rightarrow> string" where "envRef name = ''${'' @ name @ ''}''"

definition vectorLabels :: "stringMap \<Rightarrow> stringMap" where
  "vectorLabels extraLabels = mapsCopy (mapsCopy [] extraLabels)
     [(''app'', vectorJob), (''job'', vectorJob), (''role'', envRef vectorRoleEnv),
      (''namespace'', envRef vectorNamespaceEnv), (''pod'', envRef vectorPodEnv), (''level'', ''{{ level }}'')]"

definition vectorSource :: "normalizedSpec \<Rightarrow> vectorWebsocket" where
  "vectorSource spec =
     (if nBoltTLSSecret spec \<noteq> []
      then \<lparr>vwType = ''websocket'', vwURI = ''wss://127.0.0.1:'' @ itoa MonitoringPort,
        vwConnectTimeoutSecs = vectorConnectTimeoutSecs,
        vwTLS = Some \<lparr>vtEnabled = True, vtVerifyCertificate = False, vtVerifyHostname = False\<rparr>\<rparr>
      else \<lparr>vwType = ''websocket'', vwURI = ''ws://127.0.0.1:'' @ itoa MonitoringPort,
        vwConnectTimeoutSecs = vectorConnectTimeoutSecs, vwTLS = None\<rparr>)"

definition vectorSink :: "normalizedVector \<Rightarrow> vectorLoki" where
  "vectorSink block = \<lparr>vlType = ''loki'', vlInputs = [''logs''], vlEndpoint = nveLogsEndpoint block, vlHealthcheck = False,
     vlAuth = (if nveAuthSecret block \<noteq> [] then Some \<lparr>vbStrategy = ''basic'', vbUser = envRef vectorUsernameEnv,
         vbPassword = envRef vectorPasswordEnv\<rparr> else None),
     vlCodec = ''text'', vlLabels = vectorLabels (nveExtraLabels block), vlRemoveLabelFields = True\<rparr>"

definition VectorConfigMap :: "MemgraphDBCluster \<Rightarrow> vectorConfig marshalledMap option" where
  "VectorConfigMap cluster =
     (let spec = normalize (mcSpec cluster) in
      map_option (\<lambda>block. \<lparr>mmName = VectorConfigName cluster, mmNamespace = mcNamespace cluster,
          mmLabels = monitoringLabels cluster vectorComponent [], mmKey = VectorConfigKey,
          mmConfig = \<lparr>vcDataDir = vectorDataPath, vcSources = [(vectorJob, vectorSource spec)],
            vcTransforms = [(''logs'', \<lparr>vfType = ''remap'', vfInputs = [vectorJob], vfSource = vectorRemap\<rparr>)],
            vcSinks = [(''loki'', vectorSink block)]\<rparr>\<rparr>) (nmoVector (nMonitoring spec)))"

section \<open>A kind that is not served\<close>

definition serviceMonitorFailure :: "bool \<Rightarrow> string \<Rightarrow> MemgraphDBCluster \<Rightarrow> string" where
  "serviceMonitorFailure serviceMonitorAPI missing cluster =
     (if \<not> UsesServiceMonitor cluster \<or> serviceMonitorAPI then []
      else ''The ServiceMonitor kind the operator needs is not served by this cluster ('' @ missing
        @ ''): it builds monitoring.coreos.com/v1 ServiceMonitors, which Prometheus Operator installs. ''
        @ ''Install it, then restart the operator'')"

end
