(* ===== verification/Registration_Pass.thy ===== *)
theory Registration_Pass
  imports Monitoring
begin

text \<open>
  \<open>reconcileRegistration\<close> of \<open>src/internal/controller/memgraphdbcluster_controller.go\<close>, the step of a pass
  that acts on the cluster, with the search for the leader (\<open>observeCluster\<close>): wait for the workloads,
  find the leader, plan, then either run the plan, or shed the pods of a finished retirement, or settle
  the settings and restart at most one pod.

  Outside the code are Memgraph behind its Bolt addresses and the API server, an \<open>environment\<close>: what a
  connection does to a state of any type, and what the API server answers. A step returns what it reported
  (\<open>setStatus\<close>), what it did (\<open>regStep\<close>), and when the next pass is due. Closing connections, logging and the
  text of the errors that only reach the log are left out; a panic is \<^term>\<open>None\<close>.
\<close>

section \<open>Environment and outcome\<close>

record 'w environment =
  enDialer :: "'w dialer"
  enClient :: "string \<Rightarrow> 'w Client"
  enShowCoordinatorSettings :: "string \<Rightarrow> 'w \<Rightarrow> (goerror + stringMap) \<times> 'w"
  enSetCoordinatorSetting :: "string \<Rightarrow> string \<Rightarrow> string \<Rightarrow> 'w call"
  enSecrets :: secretReader
  enApplySet :: applySet
  enDeletePod :: "string \<Rightarrow> string \<Rightarrow> answer"
  enMapOrder :: "string list"
  enServiceMonitorAPI :: bool
  enServiceMonitorMissing :: string

datatype regStep = RanPlan "Command list" | ShedRetired | RestartedPod Decision

datatype passOutcome = RequeueAfter int | PassError goerror

record 'w regResult =
  rgReports :: reports
  rgSteps :: "regStep list"
  rgOutcome :: passOutcome
  rgShrinks :: StatefulSets
  rgState :: "'w passState"

definition requeueWhilePending :: int where "requeueWhilePending = 10"
definition requeueAfterRegistration :: int where "requeueAfterRegistration = 10"
definition resyncInterval :: int where "resyncInterval = 30"

section \<open>The leader\<close>

definition observedLeader :: "Instance list \<Rightarrow> string" where
  "observedLeader observed = (case find IsLeader observed of Some i \<Rightarrow> iName i | None \<Rightarrow> [])"

definition leaderAddress :: "Endpoint list \<Rightarrow> Instance list \<Rightarrow> string \<Rightarrow> string option" where
  "leaderAddress eps observed name =
     (case find (\<lambda>e. epName e = name) eps of
        Some e \<Rightarrow> Some (epAddress e)
      | None \<Rightarrow> map_option iBoltServer (find (\<lambda>i. iName i = name \<and> iBoltServer i \<noteq> []) observed))"

definition showInstances ::
  "'w environment \<Rightarrow> string \<Rightarrow> bool \<Rightarrow> 'w \<Rightarrow> (goerror + Instance list) \<times> 'w" where
  "showInstances en address tls w =
     (case dlConnect (enDialer en) address tls w of
        (Some e, w') \<Rightarrow> (Inl e, w')
      | (None, w') \<Rightarrow> (clShowInstances (enClient en address) w', w'))"

text \<open>
  The loop over the coordinators. A leader is the address of the connection to it; a failure is whether
  some coordinator answered without naming a leader (\<open>errNoCoordinatorLeader\<close>).
\<close>

fun observeCoordinators ::
  "'w environment \<Rightarrow> Endpoint list \<Rightarrow> Endpoint list \<Rightarrow> bool \<Rightarrow> 'w \<Rightarrow> (bool + string \<times> Instance list) \<times> 'w" where
  "observeCoordinators en eps [] leaderless w = (Inl leaderless, w)"
| "observeCoordinators en eps (coord # rest) leaderless w =
     (case showInstances en (epAddress coord) (epTLS coord) w of
        (Inl e, w1) \<Rightarrow> observeCoordinators en eps rest leaderless w1
      | (Inr observed, w1) \<Rightarrow>
          let leader = observedLeader observed in
          if leader = epName coord then (Inr (epAddress coord, observed), w1)
          else if leader = [] then observeCoordinators en eps rest True w1
          else case leaderAddress eps observed leader of
              None \<Rightarrow> observeCoordinators en eps rest leaderless w1
            | Some address \<Rightarrow> (case dlConnect (enDialer en) address (epTLS coord) w1 of
                (Some e, w2) \<Rightarrow> observeCoordinators en eps rest leaderless w2
              | (None, w2) \<Rightarrow> (Inr (address, observed), w2)))"

definition observeCluster ::
  "'w environment \<Rightarrow> Endpoint list \<Rightarrow> 'w \<Rightarrow> (bool + string \<times> Instance list) \<times> 'w" where
  "observeCluster en eps w = observeCoordinators en eps eps False w"

section \<open>A converged registration: settings, then one restart\<close>

definition restartPod :: "'w environment \<Rightarrow> Decision \<Rightarrow> goerror option" where
  "restartPod en decision =
     (let failed = (\<lambda>e. Some (''deleting pod '' @ pName (dPod decision) @ '' to restart it: '' @ e)) in
      case enDeletePod en (pName (dPod decision)) (pUID (dPod decision)) of
        Accepted \<Rightarrow> None | GoneOrConflict \<Rightarrow> None | Rejected e \<Rightarrow> failed e | OtherError e \<Rightarrow> failed e)"

definition unclassifiedMessage :: "string list \<Rightarrow> string" where
  "unclassifiedMessage keys = ''Waiting for a coordinator leader to say whether '' @ join '', '' keys
     @ '' are startup flags before restarting any pod for them''"

text \<open>Both views, from the pods and the leader, in the order they are asked.\<close>

definition readFlagClasses ::
  "'w environment \<Rightarrow> MemgraphDBCluster \<Rightarrow> string \<Rightarrow> replicaCounts \<Rightarrow> rolloutRoles \<Rightarrow> 'w \<Rightarrow> (flagClasses \<times> 'w) option" where
  "readFlagClasses en cluster leader replicas roles w =
     map_option (\<lambda>(config, w1). case enShowCoordinatorSettings en leader w1 of
         (settings, w2) \<Rightarrow> (classifyFlags cluster config settings, w2))
       (showConfig (enDialer en) (dlShowConfig (enDialer en) leader) cluster replicas roles w)"

definition rollOrFinish ::
  "'w environment \<Rightarrow> MemgraphDBCluster \<Rightarrow> observation \<Rightarrow> Condition \<Rightarrow> bool \<Rightarrow> StatefulSets \<Rightarrow> Decision
     \<Rightarrow> 'w passState \<Rightarrow> 'w regResult" where
  "rollOrFinish en cluster latest converged owed shrinks decision st =
     (let serving = servingOrNot (obMain latest);
          report = (\<lambda>updated. [(latest, [serving, converged, updated])]) in
      case dAction decision of
        Delete \<Rightarrow>
          let reports = report (notUpdatedCondition (dReason decision) (dMessage decision)) in
          (case restartPod en decision of
             Some e \<Rightarrow> \<lparr>rgReports = reports, rgSteps = [RestartedPod decision], rgOutcome = PassError e,
                 rgShrinks = shrinks, rgState = st\<rparr>
           | None \<Rightarrow> \<lparr>rgReports = reports, rgSteps = [RestartedPod decision],
                 rgOutcome = RequeueAfter requeueWhilePending, rgShrinks = shrinks,
                 rgState = st\<lparr>psEvents := psEvents st @ [event (Some (podRef cluster (pName (dPod decision))))
                   EventReasonPodRestarted eventActionRestart
                   (''Deleted pod '' @ pName (dPod decision) @ '' to restart it: '' @ dMessage decision)]\<rparr>\<rparr>)
      | Wait \<Rightarrow> \<lparr>rgReports = report (notUpdatedCondition (dReason decision) (dMessage decision)), rgSteps = [],
            rgOutcome = RequeueAfter requeueWhilePending, rgShrinks = shrinks, rgState = st\<rparr>
      | Done \<Rightarrow> \<lparr>rgReports = report (trueCondition ConditionUpdated ReasonAllPodsUpdated
              ''All workload pods run the pod template the spec describes''), rgSteps = [],
            rgOutcome = RequeueAfter (if owed then requeueWhilePending else resyncInterval),
            rgShrinks = shrinks, rgState = st\<rparr>)"

text \<open>The branch of an empty plan with nothing retiring.\<close>

definition settleAndRoll ::
  "'w environment \<Rightarrow> MemgraphDBCluster \<Rightarrow> replicaCounts \<Rightarrow> externalAccess \<Rightarrow> rolloutRoles \<Rightarrow> volumeOutcome
     \<Rightarrow> StatefulSets \<Rightarrow> Topology \<Rightarrow> string \<Rightarrow> Instance list \<Rightarrow> ReplicationLag list \<Rightarrow> observation
     \<Rightarrow> 'w passState \<Rightarrow> 'w regResult option" where
  "settleAndRoll en cluster replicas exposure roles claims shrinks topology leader observed lag latest st =
     Option.bind (reconcileSettings (enDialer en) cluster replicas roles st) (\<lambda>(applied, st1).
     Option.bind (reconcileAWSCredentials (enDialer en) (enSecrets en) cluster replicas roles st1) (\<lambda>(credentials, st2).
     Option.bind (readFlagClasses en cluster leader replicas roles (psWorld st2)) (\<lambda>(classes, w').
       let (coordinatorOutcome, st3) = reconcileCoordinatorSettings (enSetCoordinatorSetting en leader) cluster
             (observedLeader observed) classes (st2\<lparr>psWorld := w'\<rparr>);
           outcome = (merge_settings (merge_settings applied credentials) coordinatorOutcome)
             \<lparr>soUnknown := unknownMessage classes\<rparr>;
           converged = convergedCondition
             (serviceMonitorFailure (enServiceMonitorAPI en) (enServiceMonitorMissing en) cluster)
             topology exposure outcome claims in
       (case exemptCurrentPods roles classes of
          (_, Some keys) \<Rightarrow> Some \<lparr>rgReports = [(latest, [servingOrNot (obMain latest), converged,
                notUpdatedCondition ReasonFlagsUnclassified (unclassifiedMessage keys)])],
              rgSteps = [], rgOutcome = RequeueAfter requeueWhilePending, rgShrinks = shrinks, rgState = st3\<rparr>
        | (exempted, None) \<Rightarrow>
            map_option (\<lambda>decision. rollOrFinish en cluster latest converged
                (\<not> done_settings outcome \<or> \<not> done_volumes claims) shrinks decision st3)
              (Next (enMapOrder en) (rlData exempted) (rlCoordinators exempted) observed lag)))))"

section \<open>A retirement whose plan is empty\<close>

definition noSurvivorMessage :: string where
  "noSurvivorMessage = ''Waiting for a surviving data instance that is reachable and caught up with MAIN ''
     @ ''before moving MAIN off the instance being retired''"

definition finishRetirement ::
  "'w environment \<Rightarrow> MemgraphDBCluster \<Rightarrow> replicaCounts \<Rightarrow> StatefulSets \<Rightarrow> Topology \<Rightarrow> Instance list \<Rightarrow> observation
     \<Rightarrow> string \<Rightarrow> 'w passState \<Rightarrow> 'w regResult" where
  "finishRetirement en cluster replicas shrinks topology observed latest retiring st =
     (if \<not> Retired topology observed then
        \<lparr>rgReports = [(latest, [servingOrNot (obMain latest),
             notConvergedCondition ReasonNoCaughtUpSurvivor noSurvivorMessage])],
         rgSteps = [], rgOutcome = RequeueAfter requeueWhilePending, rgShrinks = shrinks, rgState = st\<rparr>
      else case shedRetiredPods (enApplySet en) cluster topology replicas shrinks of
          (Some e, shrinks') \<Rightarrow> \<lparr>rgReports = [], rgSteps = [ShedRetired], rgOutcome = PassError e,
             rgShrinks = shrinks', rgState = st\<rparr>
        | (None, shrinks') \<Rightarrow> \<lparr>rgReports = [(latest, [servingOrNot (obMain latest),
               notConvergedCondition ReasonRetirementInProgress retiring])],
             rgSteps = [ShedRetired], rgOutcome = RequeueAfter requeueAfterRegistration,
             rgShrinks = shrinks', rgState = st\<rparr>)"

section \<open>Running the plan\<close>

definition progressCondition :: "string \<Rightarrow> Command list \<Rightarrow> Condition" where
  "progressCondition retiring commands =
     (let (reason, message) = (if yieldedLeader commands \<noteq> [] then (ReasonLeadershipTransferInProgress,
              ''Retiring coordinator '' @ yieldedLeader commands
                @ '' holds Raft leadership, which cannot be removed: yielding it to another member'')
            else if retiring \<noteq> [] then (ReasonRetirementInProgress, retiring)
            else (ReasonRegistrationInProgress, ''Issuing '' @ itoa (int (length commands))
                @ '' registration command(s) to converge the cluster'')) in
      notConvergedCondition reason message)"

definition commandError :: "Command \<Rightarrow> goerror \<Rightarrow> goerror" where
  "commandError command e = ''executing registration command '' @ goQuote (cmdString command) @ '': '' @ e"

definition issueCommands ::
  "'w environment \<Rightarrow> MemgraphDBCluster \<Rightarrow> StatefulSets \<Rightarrow> string \<Rightarrow> observation \<Rightarrow> string \<Rightarrow> Command list
     \<Rightarrow> 'w passState \<Rightarrow> 'w regResult" where
  "issueCommands en cluster shrinks leader latest retiring commands st =
     (let serving = servingOrNot (obMain latest);
          progress = (latest, [serving, progressCondition retiring commands]) in
      case runCommands (recordingClient cluster (yieldedLeader commands) (enClient en leader)) commands
             (psWorld st, psEvents st) of
        (Some (command, e), (w', evs)) \<Rightarrow>
          \<lparr>rgReports = [progress, (latest, [serving, notConvergedCondition ReasonRegistrationFailed
              (truncateMessage (commandError command e))])],
           rgSteps = [RanPlan commands], rgOutcome = PassError (commandError command e), rgShrinks = shrinks,
           rgState = st\<lparr>psWorld := w', psEvents := evs\<rparr>\<rparr>
      | (None, (w', evs)) \<Rightarrow>
          \<lparr>rgReports = [progress], rgSteps = [RanPlan commands], rgOutcome = RequeueAfter requeueAfterRegistration,
           rgShrinks = shrinks, rgState = st\<lparr>psWorld := w', psEvents := evs\<rparr>\<rparr>)"

section \<open>reconcileRegistration\<close>

definition notReadyMessage :: string where
  "notReadyMessage = ''Waiting for all workload pods to become ready''"

definition blockedReport :: "MemgraphDBCluster \<Rightarrow> externalAccess \<Rightarrow> string \<Rightarrow> string \<Rightarrow> reports" where
  "blockedReport cluster exposure reason message =
     [(exposedAt (lastObserved cluster) exposure,
       [notServingCondition reason message, notConvergedCondition reason message])]"

definition noLeaderReason :: "bool \<Rightarrow> string \<times> string" where
  "noLeaderReason leaderless =
     (if leaderless then (ReasonNoCoordinatorLeader,
        ''No coordinator reported a leader, so the cluster has no Raft quorum'')
      else (ReasonCoordinatorUnreachable, ''No coordinator answered SHOW INSTANCES''))"

definition reconcileRegistration ::
  "'w environment \<Rightarrow> MemgraphDBCluster \<Rightarrow> replicaCounts \<Rightarrow> externalAccess \<Rightarrow> rolloutRoles \<Rightarrow> volumeOutcome
     \<Rightarrow> StatefulSets \<Rightarrow> 'w passState \<Rightarrow> 'w regResult option" where
  "reconcileRegistration en cluster replicas exposure roles claims shrinks st =
     (if \<not> workloadsReady replicas roles then
        Some \<lparr>rgReports = blockedReport cluster exposure ReasonWorkloadsNotReady notReadyMessage, rgSteps = [],
          rgOutcome = RequeueAfter requeueWhilePending, rgShrinks = shrinks, rgState = st\<rparr>
      else
        Option.bind (passTopology cluster (xaAddresses exposure) (rrApplied (rcCoordinators replicas))
          (rrApplied (rcData replicas))) (\<lambda>topology.
        Option.bind (CoordinatorEndpoints cluster (rrApplied (rcCoordinators replicas))) (\<lambda>eps.
        case observeCluster en eps (psWorld st) of
          (Inl leaderless, w') \<Rightarrow> (case noLeaderReason leaderless of (reason, message) \<Rightarrow>
             Some \<lparr>rgReports = blockedReport cluster exposure reason message, rgSteps = [],
               rgOutcome = RequeueAfter requeueWhilePending, rgShrinks = shrinks, rgState = st\<lparr>psWorld := w'\<rparr>\<rparr>)
        | (Inr (leader, observed), w') \<Rightarrow>
            let retiring = retirementMessage topology;
                lag = (case clShowReplicationLag (enClient en leader) w' of Inl e \<Rightarrow> [] | Inr rows \<Rightarrow> rows);
                latest = exposedAt (observe topology observed) exposure;
                st' = st\<lparr>psWorld := w'\<rparr> in
            Option.bind (Plan topology observed lag) (\<lambda>commands.
             if commands \<noteq> [] then
               Some (issueCommands en cluster shrinks leader latest retiring commands st')
             else if retiring \<noteq> [] then
               Some (finishRetirement en cluster replicas shrinks topology observed latest retiring st')
             else settleAndRoll en cluster replicas exposure roles claims shrinks topology leader observed lag latest st'))))"

section \<open>What a pass does to the cluster\<close>

text \<open>What the plan of a pass was made from: the topology, the leader's address, its view and its lag.\<close>

definition planned ::
  "'w environment \<Rightarrow> MemgraphDBCluster \<Rightarrow> replicaCounts \<Rightarrow> externalAccess \<Rightarrow> 'w \<Rightarrow> Topology \<Rightarrow> string
     \<Rightarrow> Instance list \<Rightarrow> ReplicationLag list \<Rightarrow> 'w \<Rightarrow> bool" where
  "planned en cluster replicas exposure w topology leader observed lag w' \<longleftrightarrow>
     passTopology cluster (xaAddresses exposure) (rrApplied (rcCoordinators replicas)) (rrApplied (rcData replicas)) = Some topology
     \<and> (\<exists>eps. CoordinatorEndpoints cluster (rrApplied (rcCoordinators replicas)) = Some eps
          \<and> observeCluster en eps w = (Inr (leader, observed), w'))
     \<and> lag = (case clShowReplicationLag (enClient en leader) w' of Inl e \<Rightarrow> [] | Inr rows \<Rightarrow> rows)"

text \<open>The ways a pass ends, each with the definition that describes it.\<close>

lemma reconcileRegistration_cases:
  assumes "reconcileRegistration en cluster replicas exposure roles claims shrinks st = Some r"
  obtains (blocked) reason message where "rgReports r = blockedReport cluster exposure reason message"
      "reason \<in> {ReasonWorkloadsNotReady, ReasonNoCoordinatorLeader, ReasonCoordinatorUnreachable}"
      "rgSteps r = []" "rgShrinks r = shrinks" "psEvents (rgState r) = psEvents st"
      "reason \<noteq> ReasonWorkloadsNotReady \<longrightarrow> workloadsReady replicas roles"
  | (issues) topology leader observed lag w' commands where
      "workloadsReady replicas roles" "planned en cluster replicas exposure (psWorld st) topology leader observed lag w'"
      "Plan topology observed lag = Some commands" "commands \<noteq> []"
      "r = issueCommands en cluster shrinks leader (exposedAt (observe topology observed) exposure)
             (retirementMessage topology) commands (st\<lparr>psWorld := w'\<rparr>)"
  | (retires) topology leader observed lag w' where
      "workloadsReady replicas roles" "planned en cluster replicas exposure (psWorld st) topology leader observed lag w'"
      "Plan topology observed lag = Some []" "retirementMessage topology \<noteq> []"
      "r = finishRetirement en cluster replicas shrinks topology observed (exposedAt (observe topology observed) exposure)
             (retirementMessage topology) (st\<lparr>psWorld := w'\<rparr>)"
  | (rolls) topology leader observed lag w' where
      "workloadsReady replicas roles" "planned en cluster replicas exposure (psWorld st) topology leader observed lag w'"
      "Plan topology observed lag = Some []" "retirementMessage topology = []"
      "settleAndRoll en cluster replicas exposure roles claims shrinks topology leader observed lag
         (exposedAt (observe topology observed) exposure) (st\<lparr>psWorld := w'\<rparr>) = Some r"
proof (cases "workloadsReady replicas roles")
  case False
  with assms have "r = \<lparr>rgReports = blockedReport cluster exposure ReasonWorkloadsNotReady notReadyMessage, rgSteps = [],
      rgOutcome = RequeueAfter requeueWhilePending, rgShrinks = shrinks, rgState = st\<rparr>"
    by (simp add: reconcileRegistration_def)
  then show thesis by (intro blocked) auto
next
  case True
  from assms True obtain topology eps where top:
    "passTopology cluster (xaAddresses exposure) (rrApplied (rcCoordinators replicas)) (rrApplied (rcData replicas)) = Some topology"
    "CoordinatorEndpoints cluster (rrApplied (rcCoordinators replicas)) = Some eps"
    by (auto simp: reconcileRegistration_def bind_eq_Some_conv)
  obtain found w' where found: "observeCluster en eps (psWorld st) = (found, w')" by fastforce
  show thesis
  proof (cases found)
    case (Inl leaderless)
    obtain reason message where nl: "noLeaderReason leaderless = (reason, message)" by fastforce
    then have "reason \<in> {ReasonNoCoordinatorLeader, ReasonCoordinatorUnreachable}" by (auto simp: noLeaderReason_def split: if_splits)
    with assms True top found Inl nl show thesis by (intro blocked [of reason message]) (auto simp: reconcileRegistration_def)
  next
    case (Inr pair)
    obtain leader observed where pair: "pair = (leader, observed)" by (cases pair)
    define lag where "lag = (case clShowReplicationLag (enClient en leader) w' of Inl e \<Rightarrow> [] | Inr rows \<Rightarrow> rows)"
    have planned: "planned en cluster replicas exposure (psWorld st) topology leader observed lag w'"
      using top found Inr pair by (auto simp: planned_def lag_def)
    from assms True top found Inr pair obtain commands where plan: "Plan topology observed lag = Some commands"
      by (auto simp: reconcileRegistration_def Let_def lag_def bind_eq_Some_conv)
    have run: "(if commands \<noteq> [] then Some (issueCommands en cluster shrinks leader (exposedAt (observe topology observed) exposure)
             (retirementMessage topology) commands (st\<lparr>psWorld := w'\<rparr>))
        else if retirementMessage topology \<noteq> [] then Some (finishRetirement en cluster replicas shrinks topology observed
             (exposedAt (observe topology observed) exposure) (retirementMessage topology) (st\<lparr>psWorld := w'\<rparr>))
        else settleAndRoll en cluster replicas exposure roles claims shrinks topology leader observed lag
             (exposedAt (observe topology observed) exposure) (st\<lparr>psWorld := w'\<rparr>)) = Some r"
      using assms True top found Inr pair by (auto simp: reconcileRegistration_def Let_def lag_def plan [unfolded lag_def] split: if_splits)
    show thesis
    proof (cases "commands = []")
      case False
      with run plan show thesis by (intro issues [OF True planned plan]) auto
    next
      case none: True
      show thesis
      proof (cases "retirementMessage topology = []")
        case False
        with run plan none show thesis by (intro retires [OF True planned]) auto
      next
        case quiet: True
        with run plan none show thesis by (intro rolls [OF True planned]) auto
      qed
    qed
  qed
qed

lemma settleAndRoll_cases:
  assumes "settleAndRoll en cluster replicas exposure roles claims shrinks topology leader observed lag latest st = Some r"
  obtains (waits) converged message where
      "rgReports r = [(latest, [servingOrNot (obMain latest), converged, notUpdatedCondition ReasonFlagsUnclassified message])]"
      "rgSteps r = []" "rgShrinks r = shrinks" "cType converged = ConditionConverged"
  | (decides) classes exempted decision converged owed st' where
      "exemptCurrentPods roles classes = (exempted, None)"
      "Next (enMapOrder en) (rlData exempted) (rlCoordinators exempted) observed lag = Some decision"
      "r = rollOrFinish en cluster latest converged owed shrinks decision st'" "cType converged = ConditionConverged"
proof -
  have converged: "cType (convergedCondition f topology exposure outcome claims) = ConditionConverged" for f outcome
    by (simp add: convergedCondition_def Let_def notConvergedCondition_def trueCondition_def newCondition_def)
  from assms obtain applied st1 credentials st2 classes w' where
    steps: "reconcileSettings (enDialer en) cluster replicas roles st = Some (applied, st1)"
      "reconcileAWSCredentials (enDialer en) (enSecrets en) cluster replicas roles st1 = Some (credentials, st2)"
      "readFlagClasses en cluster leader replicas roles (psWorld st2) = Some (classes, w')"
    by (auto simp: settleAndRoll_def bind_eq_Some_conv)
  obtain coordinatorOutcome st3 where set: "reconcileCoordinatorSettings (enSetCoordinatorSetting en leader) cluster
      (observedLeader observed) classes (st2\<lparr>psWorld := w'\<rparr>) = (coordinatorOutcome, st3)" by fastforce
  obtain exempted keys where ex: "exemptCurrentPods roles classes = (exempted, keys)" by fastforce
  define outcome where "outcome = (merge_settings (merge_settings applied credentials) coordinatorOutcome)
             \<lparr>soUnknown := unknownMessage classes\<rparr>"
  define c where "c = convergedCondition
             (serviceMonitorFailure (enServiceMonitorAPI en) (enServiceMonitorMissing en) cluster)
             topology exposure outcome claims"
  show thesis
  proof (cases keys)
    case None
    with assms steps set ex obtain decision where
      "Next (enMapOrder en) (rlData exempted) (rlCoordinators exempted) observed lag = Some decision"
      "r = rollOrFinish en cluster latest c (\<not> done_settings outcome \<or> \<not> done_volumes claims) shrinks decision st3"
      by (auto simp: settleAndRoll_def Let_def c_def outcome_def)
    with decides ex None converged show thesis unfolding c_def by blast
  next
    case (Some ks)
    with assms steps set ex show thesis
      by (intro waits [of c "unclassifiedMessage ks"]) (auto simp: settleAndRoll_def Let_def c_def outcome_def converged)
  qed
qed

text \<open>The steps of each branch.\<close>

lemma issueCommands_steps:
  "rgSteps (issueCommands en cluster shrinks leader latest retiring commands st) = [RanPlan commands]"
  by (simp add: issueCommands_def Let_def split: prod.split option.split)

lemma finishRetirement_steps:
  "rgSteps (finishRetirement en cluster replicas shrinks topology observed latest retiring st) =
     (if Retired topology observed then [ShedRetired] else [])"
  by (simp add: finishRetirement_def split: prod.split option.split)

lemma rollOrFinish_steps:
  "rgSteps (rollOrFinish en cluster latest converged owed shrinks decision st) =
     (if dAction decision = Delete then [RestartedPod decision] else [])"
  by (simp add: rollOrFinish_def Let_def split: Action.split option.split)

lemma retirementMessage_empty:
  "retirementMessage topology = [] \<longleftrightarrow> tRetiringCoordinators topology = [] \<and> tRetiringDataInstances topology = []"
  by (auto simp: retirementMessage_def coordinatorNames_def instanceNames_def Let_def)

text \<open>
  C23: A pass takes at most one step that changes the cluster, and only after every gate: nothing happens
  before the workloads are ready and a coordinator names a leader. The commands it runs are the whole
  plan for the leader's view, and then nothing else. Pods are shed only when that plan is empty, members
  are retiring, and the view holds none of them. A pod is restarted only when the plan is empty, nothing
  is retiring, every changed flag could be classified, and the rolling restart, run on the pods left
  after the spared ones, picked exactly this pod.
\<close>

theorem registration_pass_guarded:
  assumes "reconcileRegistration en cluster replicas exposure roles claims shrinks st = Some r"
    and "step \<in> set (rgSteps r)"
  shows "rgSteps r = [step] \<and> workloadsReady replicas roles
    \<and> (\<exists>topology leader observed lag w'. planned en cluster replicas exposure (psWorld st) topology leader observed lag w'
        \<and> (case step of
             RanPlan commands \<Rightarrow> Plan topology observed lag = Some commands \<and> commands \<noteq> []
           | ShedRetired \<Rightarrow> Plan topology observed lag = Some [] \<and> Retired topology observed
               \<and> \<not> (tRetiringCoordinators topology = [] \<and> tRetiringDataInstances topology = [])
           | RestartedPod decision \<Rightarrow> Plan topology observed lag = Some []
               \<and> tRetiringCoordinators topology = [] \<and> tRetiringDataInstances topology = []
               \<and> dAction decision = Delete
               \<and> (\<exists>classes exempted. exemptCurrentPods roles classes = (exempted, None)
                    \<and> Next (enMapOrder en) (rlData exempted) (rlCoordinators exempted) observed lag = Some decision)))"
  using assms(1)
proof (cases rule: reconcileRegistration_cases)
  case blocked
  with assms(2) show ?thesis by simp
next
  case (issues topology leader observed lag w' commands)
  then have "rgSteps r = [RanPlan commands]" by (simp add: issueCommands_steps)
  moreover from this assms(2) have "step = RanPlan commands" by simp
  ultimately show ?thesis using issues(1-4) by (simp, blast)
next
  case (retires topology leader observed lag w')
  then have "rgSteps r = (if Retired topology observed then [ShedRetired] else [])" by (simp add: finishRetirement_steps)
  with assms(2) have "rgSteps r = [ShedRetired]" "Retired topology observed" "step = ShedRetired" by (auto split: if_splits)
  with retires(1-4) show ?thesis unfolding retirementMessage_empty by (simp, blast)
next
  case (rolls topology leader observed lag w')
  from rolls(5) show ?thesis
  proof (cases rule: settleAndRoll_cases)
    case waits
    with assms(2) show ?thesis by simp
  next
    case (decides classes exempted decision converged owed st')
    then have "rgSteps r = (if dAction decision = Delete then [RestartedPod decision] else [])" by (simp add: rollOrFinish_steps)
    with assms(2) have "rgSteps r = [RestartedPod decision]" "step = RestartedPod decision" "dAction decision = Delete"
      by (auto split: if_splits)
    with rolls(1-4) decides(1,2) show ?thesis unfolding retirementMessage_empty by (simp, blast)
  qed
qed

section \<open>The leader a plan is made from\<close>

lemma observeCoordinators_leader:
  "observeCoordinators en eps rest leaderless w = (Inr (leader, observed), w') \<Longrightarrow> set rest \<subseteq> set eps \<Longrightarrow>
     [] \<notin> epName ` set eps \<Longrightarrow>
     observedLeader observed \<noteq> []
     \<and> ((\<exists>e \<in> set eps. epName e = observedLeader observed \<and> epAddress e = leader)
        \<or> observedLeader observed \<notin> epName ` set eps
          \<and> (\<exists>i \<in> set observed. iName i = observedLeader observed \<and> iBoltServer i = leader \<and> leader \<noteq> []))"
proof (induction rest arbitrary: leaderless w)
  case (Cons e rest)
  obtain answer w1 where shown: "showInstances en (epAddress e) (epTLS e) w = (answer, w1)" by fastforce
  have later: ?case if "observeCoordinators en eps rest l v = (Inr (leader, observed), w')" for l v
    using Cons.IH [OF that] Cons.prems by simp
  show ?case
  proof (cases answer)
    case (Inl err)
    with Cons.prems(1) shown later show ?thesis by simp
  next
    case (Inr view)
    consider "observedLeader view = epName e" | "observedLeader view \<noteq> epName e" "observedLeader view = []"
      | "observedLeader view \<noteq> epName e" "observedLeader view \<noteq> []" by blast
    then show ?thesis
    proof cases
      case 1
      have "epName e \<noteq> []" using Cons.prems(2,3) by force
      with 1 Cons.prems shown Inr show ?thesis by (auto simp: Let_def)
    next
      case 2
      with Cons.prems(1) shown Inr later show ?thesis by (simp add: Let_def)
    next
      case 3
      show ?thesis
      proof (cases "leaderAddress eps view (observedLeader view)")
        case None
        with Cons.prems(1) shown Inr later 3 show ?thesis by (simp add: Let_def)
      next
        case (Some address)
        obtain c w2 where conn: "dlConnect (enDialer en) address (epTLS e) w1 = (c, w2)" by fastforce
        show ?thesis
        proof (cases c)
          case (Some err)
          with Cons.prems(1) shown Inr later 3 conn \<open>leaderAddress eps view (observedLeader view) = Some address\<close>
          show ?thesis by (simp add: Let_def)
        next
          case None
          with Cons.prems(1) shown Inr 3 conn Some have "leader = address" "observed = view" by (simp_all add: Let_def)
          with Some 3 show ?thesis
            by (auto simp: leaderAddress_def find_Some_iff find_None_iff split: option.splits)
        qed
      qed
    qed
  qed
qed simp

lemma coordinatorName_nonempty: "CoordinatorInstanceName i \<noteq> []"
  by (simp add: CoordinatorInstanceName_def coordinatorNameOf_def csName_def coordinatorPrefix_def)

text \<open>
  The plan of a pass is made from a view that names a leader, over a connection to that leader: to
  the pod of the coordinator of that name when the operator runs it, and otherwise to the address the
  view announces for it. A coordinator that lost its leader is never planned from.
\<close>

theorem planned_from_leader:
  assumes "planned en cluster replicas exposure w topology leader observed lag w'"
  shows "observedLeader observed \<noteq> []
    \<and> (\<exists>eps. CoordinatorEndpoints cluster (rrApplied (rcCoordinators replicas)) = Some eps
        \<and> ((\<exists>e \<in> set eps. epName e = observedLeader observed \<and> epAddress e = leader)
           \<or> observedLeader observed \<notin> epName ` set eps
             \<and> (\<exists>i \<in> set observed. iName i = observedLeader observed \<and> iBoltServer i = leader \<and> leader \<noteq> [])))"
proof -
  from assms obtain eps where eps: "CoordinatorEndpoints cluster (rrApplied (rcCoordinators replicas)) = Some eps"
    "observeCoordinators en eps eps False w = (Inr (leader, observed), w')"
    by (auto simp: planned_def observeCluster_def)
  have "[] \<notin> epName ` set eps"
    using CoordinatorEndpoints_eq [OF eps(1)] by (auto simp: image_iff coordinatorName_nonempty [symmetric])
  from observeCoordinators_leader [OF eps(2) order_refl this] eps(1) show ?thesis by blast
qed

section \<open>A pass always ends\<close>

lemma endpoints_exist:
  "0 \<le> n \<Longrightarrow> n \<le> int32_max \<Longrightarrow> \<exists>eps. DataEndpoints cluster n = Some eps"
  "0 \<le> n \<Longrightarrow> n \<le> int32_max \<Longrightarrow> \<exists>eps. CoordinatorEndpoints cluster n = Some eps"
  using ordinals_Some [of 0 n] by (simp_all add: DataEndpoints_def CoordinatorEndpoints_def endpoints_def Let_def)

lemma settleAndRoll_total:
  assumes "DataEndpoints cluster (rrApplied (rcData replicas)) = Some data"
    and "CoordinatorEndpoints cluster (rrApplied (rcCoordinators replicas)) = Some coordinators"
  shows "\<exists>r. settleAndRoll en cluster replicas exposure roles claims shrinks topology leader observed lag latest st = Some r"
proof -
  from assms obtain applied st1 where s1: "reconcileSettings (enDialer en) cluster replicas roles st = Some (applied, st1)"
    by (fastforce simp: reconcileSettings_def)
  from assms obtain credentials st2 where
    s2: "reconcileAWSCredentials (enDialer en) (enSecrets en) cluster replicas roles st1 = Some (credentials, st2)"
    by (cases "AWSCredentialsSecretOf cluster = []"; fastforce simp: reconcileAWSCredentials_def Let_def split: sum.splits)
  from assms obtain classes w' where s3: "readFlagClasses en cluster leader replicas roles (psWorld st2) = Some (classes, w')"
    by (fastforce simp: readFlagClasses_def showConfig_def)
  obtain o3 st3 where s4: "reconcileCoordinatorSettings (enSetCoordinatorSetting en leader) cluster
      (observedLeader observed) classes (st2\<lparr>psWorld := w'\<rparr>) = (o3, st3)" by fastforce
  obtain exempted keys where ex: "exemptCurrentPods roles classes = (exempted, keys)" by fastforce
  obtain d where "Next (enMapOrder en) (rlData exempted) (rlCoordinators exempted) observed lag = Some d"
    using Next_total by blast
  with s1 s2 s3 s4 ex show ?thesis by (cases keys) (simp_all add: settleAndRoll_def Let_def)
qed

lemma reconcileRegistration_returns:
  assumes "0 < DeclaredCoordinators cluster" and "DeclaredCoordinators cluster \<le> int32_max"
    and "0 \<le> DeclaredDataInstances cluster" and "DeclaredDataInstances cluster \<le> int32_max"
    and "0 \<le> rrApplied (rcCoordinators replicas)" and "rrApplied (rcCoordinators replicas) \<le> int32_max"
    and "0 \<le> rrApplied (rcData replicas)" and "rrApplied (rcData replicas) \<le> int32_max"
  shows "\<exists>r. reconcileRegistration en cluster replicas exposure roles claims shrinks st = Some r"
proof -
  from passTopology_shape [OF assms(1-4,6,8)] obtain topology where
    top: "passTopology cluster (xaAddresses exposure) (rrApplied (rcCoordinators replicas)) (rrApplied (rcData replicas)) = Some topology"
    by blast
  from endpoints_exist(1) [OF assms(7,8)] endpoints_exist(2) [OF assms(5,6)] obtain data eps where
    eps: "DataEndpoints cluster (rrApplied (rcData replicas)) = Some data"
      "CoordinatorEndpoints cluster (rrApplied (rcCoordinators replicas)) = Some eps" by blast
  obtain found w' where found: "observeCluster en eps (psWorld st) = (found, w')" by fastforce
  show ?thesis
  proof (cases found)
    case (Inl leaderless)
    with top eps found show ?thesis by (auto simp: reconcileRegistration_def split: prod.split)
  next
    case (Inr pair)
    obtain leader observed where pair: "pair = (leader, observed)" by (cases pair)
    let ?lag = "case clShowReplicationLag (enClient en leader) w' of Inl e \<Rightarrow> [] | Inr rows \<Rightarrow> rows"
    obtain commands where "Plan topology observed ?lag = Some commands" using Plan_total by blast
    with settleAndRoll_total [OF eps] Inr pair top eps found show ?thesis
      by (auto simp: reconcileRegistration_def Let_def)
  qed
qed

text \<open>
  A pass over the registration always ends with an outcome, whatever Memgraph and the API server
  answer: with a declared topology that admission accepts and applied counts in range, no slice is made
  with a negative length and no nil is dereferenced on any path.
\<close>

theorem reconcileRegistration_total:
  assumes "0 < DeclaredCoordinators cluster" and "DeclaredCoordinators cluster \<le> int32_max"
    and "0 \<le> DeclaredDataInstances cluster" and "DeclaredDataInstances cluster \<le> int32_max"
    and "0 \<le> rrApplied (rcCoordinators replicas)" and "rrApplied (rcCoordinators replicas) \<le> int32_max"
    and "0 \<le> rrApplied (rcData replicas)" and "rrApplied (rcData replicas) \<le> int32_max"
  shows "\<exists>r. reconcileRegistration en cluster replicas exposure roles claims shrinks st = Some r"
  using assms by (rule reconcileRegistration_returns)

section \<open>A pass on a cluster without registrations\<close>

text \<open>Coordinator 0 names itself leader and nothing else is registered; every dial succeeds.\<close>

definition exView0 :: "Instance list" where
  "exView0 = [\<lparr>iName = CoordinatorInstanceName 0, iBoltServer = [], iCoordinatorServer = [], iManagementServer = [],
     iHealth = ''up'', iRole = RoleLeader\<rparr>]"

definition exWorld :: fakeMemgraph where
  "exWorld = newFakeMemgraph\<lparr>fStaleViews := (\<lambda>_. Some exView0)\<rparr>"

definition exEnvironment :: "fakeMemgraph environment" where
  "exEnvironment = \<lparr>
     enDialer = \<lparr>dlConnect = (\<lambda>_ _ w. (None, w)), dlShowSettings = (\<lambda>_ w. (Inr (map_of baselineSettings), w)),
       dlSetSetting = (\<lambda>_ _ _ w. (None, w)), dlShowConfig = (\<lambda>_ w. (Inr baselineConfig, w))\<rparr>,
     enClient = fakeClient,
     enShowCoordinatorSettings = (\<lambda>_ w. (Inr [], w)), enSetCoordinatorSetting = (\<lambda>_ _ _ w. (None, w)),
     enSecrets = exSecrets, enApplySet = (\<lambda>_ _. Inr (''u'', 1)), enDeletePod = (\<lambda>_ _. Accepted), enMapOrder = [],
     enServiceMonitorAPI = True, enServiceMonitorMissing = []\<rparr>"

definition exProvisioned :: replicaCounts where
  "exProvisioned = \<lparr>rcCoordinators = exReplicas (CoordinatorName exCluster) 1 1,
     rcData = exReplicas (DataName exCluster) 1 1, rcUnseenShrinks = []\<rparr>"

definition exPassState :: "fakeMemgraph passState" where
  "exPassState = \<lparr>psWorld = exWorld, psReads = Map.empty, psEvents = []\<rparr>"

lemma exWorkloadsReady: "workloadsReady exProvisioned exRoles"
  by (simp add: workloadsReady_def roleReady_def exProvisioned_def exReplicas_def exStatefulSet_def wrap32_def)

lemma exCounts_bounds:
  "0 < DeclaredCoordinators exCluster" "DeclaredCoordinators exCluster \<le> int32_max"
  "0 \<le> DeclaredDataInstances exCluster" "DeclaredDataInstances exCluster \<le> int32_max"
  "0 \<le> rrApplied (rcCoordinators exProvisioned)" "rrApplied (rcCoordinators exProvisioned) \<le> int32_max"
  "0 \<le> rrApplied (rcData exProvisioned)" "rrApplied (rcData exProvisioned) \<le> int32_max"
  by (simp_all add: exCluster_counts int32_max_def exProvisioned_def exReplicas_def)

lemma exPlanned:
  "\<exists>topology leader lag commands. planned exEnvironment exCluster exProvisioned noExternalAccess exWorld topology leader exView0 lag exWorld
     \<and> Plan topology exView0 lag = Some commands \<and> commands \<noteq> []"
proof -
  have found: "observeCluster exEnvironment fleetCoordinators exWorld = (Inr (epAddress (hd fleetCoordinators), exView0), exWorld)"
  proof -
    obtain e where e: "fleetCoordinators = [e]" "epName e = CoordinatorInstanceName 0"
      using CoordinatorEndpoints_eq [OF exEndpoints(2)] by simp
    show ?thesis
      unfolding observeCluster_def e(1)
      by (simp add: e(2) showInstances_def exEnvironment_def fakeClient_def fakeShowInstances_def exWorld_def
          newFakeMemgraph_def observedLeader_def exView0_def IsLeader_def)
  qed
  obtain topology where top: "passTopology exCluster (xaAddresses noExternalAccess) (rrApplied (rcCoordinators exProvisioned))
      (rrApplied (rcData exProvisioned)) = Some topology"
    "wellFormed topology" "length (tCoordinators topology) = 3"
    using passTopology_shape [OF exCounts_bounds(1-4), of "rrApplied (rcCoordinators exProvisioned)" "rrApplied (rcData exProvisioned)"]
      exCounts_bounds exCluster_counts by fastforce
  let ?leader = "epAddress (hd fleetCoordinators)"
  let ?lag = "case clShowReplicationLag (enClient exEnvironment ?leader) exWorld of Inl e \<Rightarrow> [] | Inr rows \<Rightarrow> rows"
  have "planned exEnvironment exCluster exProvisioned noExternalAccess exWorld topology ?leader exView0 ?lag exWorld"
    using top(1) found exEndpoints(2) by (auto simp: planned_def exProvisioned_def exReplicas_def)
  moreover obtain commands where plan: "Plan topology exView0 ?lag = Some commands" using Plan_total by blast
  moreover have "commands \<noteq> []"
  proof
    assume "commands = []"
    with plan top(2) have "settled topology exView0 ?lag"
      by (simp add: Plan_settled_iff [symmetric] namedMembers_def wellFormed_def Ball_def)
    then have "\<forall>c \<in> set (tCoordinators topology). \<exists>r. index exView0 (csName c) = Some r \<and> iBoltServer r \<noteq> []"
      unfolding settled_def by blast
    moreover obtain c where "c \<in> set (tCoordinators topology)" using top(3) by (cases "tCoordinators topology") auto
    ultimately obtain r where "index exView0 (csName c) = Some r" "iBoltServer r \<noteq> []" by blast
    with index_by_SomeD show False by (fastforce simp: index_def exView0_def)
  qed
  ultimately show ?thesis by blast
qed

lemma exRegistrationPass:
  "\<exists>r commands. reconcileRegistration exEnvironment exCluster exProvisioned noExternalAccess exRoles noOutcome (\<lambda>_. None) exPassState = Some r
     \<and> rgSteps r = [RanPlan commands]"
proof -
  from exPlanned obtain topology leader lag commands where p:
    "planned exEnvironment exCluster exProvisioned noExternalAccess exWorld topology leader exView0 lag exWorld"
    "Plan topology exView0 lag = Some commands" "commands \<noteq> []" by blast
  then have "reconcileRegistration exEnvironment exCluster exProvisioned noExternalAccess exRoles noOutcome (\<lambda>_. None) exPassState
      = Some (issueCommands exEnvironment exCluster (\<lambda>_. None) leader (exposedAt (observe topology exView0) noExternalAccess)
          (retirementMessage topology) commands exPassState)"
    using exWorkloadsReady by (auto simp: reconcileRegistration_def planned_def Let_def exPassState_def)
  then show ?thesis using issueCommands_steps by blast
qed

theorem registration_pass_guarded_witness:
  "\<exists>r topology leader observed lag w' commands.
     reconcileRegistration exEnvironment exCluster exProvisioned noExternalAccess exRoles noOutcome (\<lambda>_. None) exPassState = Some r
     \<and> rgSteps r = [RanPlan commands] \<and> planned exEnvironment exCluster exProvisioned noExternalAccess exWorld topology leader observed lag w'
     \<and> Plan topology observed lag = Some commands \<and> commands \<noteq> []"
proof -
  from exRegistrationPass obtain r commands where r:
    "reconcileRegistration exEnvironment exCluster exProvisioned noExternalAccess exRoles noOutcome (\<lambda>_. None) exPassState = Some r"
    "rgSteps r = [RanPlan commands]" by blast
  then have "RanPlan commands \<in> set (rgSteps r)" by simp
  from registration_pass_guarded [OF r(1) this] r show ?thesis by (auto simp: exPassState_def)
qed

theorem planned_from_leader_witness:
  "\<exists>leader. observedLeader exView0 \<noteq> [] \<and> (\<exists>e \<in> set fleetCoordinators. epName e = observedLeader exView0 \<and> epAddress e = leader)"
proof -
  from exPlanned obtain topology leader lag where
    p: "planned exEnvironment exCluster exProvisioned noExternalAccess exWorld topology leader exView0 lag exWorld" by blast
  have counts: "rrApplied (rcCoordinators exProvisioned) = 1" by (simp add: exProvisioned_def exReplicas_def)
  have "observedLeader exView0 = CoordinatorInstanceName 0"
    by (simp add: observedLeader_def exView0_def IsLeader_def)
  moreover have "\<exists>e \<in> set fleetCoordinators. epName e = CoordinatorInstanceName 0"
    unfolding CoordinatorEndpoints_eq [OF exEndpoints(2)] by simp
  ultimately show ?thesis using planned_from_leader [OF p] exEndpoints(2) by (auto simp: counts image_iff)
qed

theorem reconcileRegistration_total_witness:
  "\<exists>r. reconcileRegistration exEnvironment exCluster exProvisioned noExternalAccess exRoles noOutcome (\<lambda>_. None) exPassState = Some r"
  by (rule reconcileRegistration_total [OF exCounts_bounds])

section \<open>What a pass reports\<close>

lemma reportable_simps [simp]:
  "reportable (notConvergedCondition reason message)" "reportable (servingOrNot main)"
  "reportable (notUpdatedCondition reason message)" "reportable (trueCondition ConditionUpdated reason message)"
  "reason \<in> set servingReasons \<Longrightarrow> reportable (notServingCondition reason message)"
  "cType c = ConditionConverged \<Longrightarrow> reportable c"
  by (simp_all add: reportable_def notConvergedCondition_def servingOrNot_def notServingCondition_def notUpdatedCondition_def
      trueCondition_def newCondition_def conditionServing_def condition_defs servingReasons_def)

text \<open>Every pass reports only what the summary of Ready expects, and the serving verdict of what it observed.\<close>

lemma reconcileRegistration_reportable:
  assumes "reconcileRegistration en cluster replicas exposure roles claims shrinks st = Some r"
  shows "\<forall>(ob, cs) \<in> set (rgReports r). \<forall>c \<in> set cs. reportable c"
  using assms
proof (cases rule: reconcileRegistration_cases)
  case (blocked reason message)
  have "reason \<in> set servingReasons" using blocked(2) by (auto simp: servingReasons_def)
  with blocked show ?thesis by (simp add: blockedReport_def)
next
  case issues
  then show ?thesis by (auto simp: issueCommands_def Let_def progressCondition_def split: prod.splits option.splits if_splits)
next
  case retires
  then show ?thesis by (auto simp: finishRetirement_def split: prod.splits option.splits if_splits)
next
  case (rolls topology leader observed lag w')
  from rolls(5) show ?thesis
  proof (cases rule: settleAndRoll_cases)
    case waits
    then show ?thesis by simp
  next
    case decides
    then show ?thesis by (auto simp: rollOrFinish_def Let_def split: Action.splits option.splits)
  qed
qed

end
