(* ===== verification/Pod_Builder.thy ===== *)
theory Pod_Builder
  imports Monitoring
begin

text \<open>
  The pods the operator runs: the two StatefulSets of \<open>src/internal/resources/statefulset.go\<close>, the system
  user's Secrets and volume of \<open>systemuser.go\<close>, the Vector sidecar of \<open>vector.go\<close>, the vmagent Deployment
  of \<open>vmagent.go\<close> and the template hash of \<open>flags.go\<close>.

  Kubernetes objects are records of the fields the builders set. What a spec passes through (containers,
  volumes, mounts, tolerations, constraints, affinity terms) stays an opaque token; the little the
  builders look at in one is the argument \<open>tokens\<close>. The digest of a flag value and the hash of a
  template (JSON and SHA-256) are arguments too.
\<close>

section \<open>Objects\<close>

record securityContext =
  scPrivileged :: "bool option"
  scAllowPrivilegeEscalation :: "bool option"
  scDrop :: "string list"
  scAdd :: "string list"
  scReadOnlyRootFilesystem :: bool
  scRunAsUser :: "int64 option"
  scRunAsNonRoot :: bool
  scSeccomp :: string

datatype envValueFrom = Literal string | FieldRef string | SecretKeyRef string string

datatype mount = Mount string string bool | UserMount k8sobj

datatype probeHandler = TCPSocket int32 | HTTPGet string string

record probe =
  prHandler :: probeHandler
  prTimings :: "normalizedProbe option"

record container =
  coName :: string
  coImage :: string
  coPullPolicy :: PullPolicy
  coCommand :: "string list"
  coArgs :: "string list"
  coEnv :: "(string \<times> envValueFrom) list"
  coEnvFrom :: "string list"
  coPorts :: "(string \<times> int32) list"
  coReadiness :: "probe option"
  coResources :: k8sobj
  coMounts :: "mount list"
  coSecurity :: securityContext

text \<open>A user's container, with the security context the operator fills in when it names none.\<close>

datatype podContainer = Built container | Passed k8sobj "securityContext option"

datatype volumeSource = ConfigMapSource string | SecretSource string "string list" | EmptyDirSource

datatype volume = Volume string volumeSource | UserVolume k8sobj

datatype antiTerm = OperatorTerm stringMap string | UserTerm k8sobj

record antiAffinity =
  anRequired :: "antiTerm list"
  anPreferred :: "antiTerm list"

record tokens =
  tkNoSecurityContext :: "k8sobj \<Rightarrow> bool"
  tkNoLabelSelector :: "k8sobj \<Rightarrow> bool"
  tkRequired :: "k8sobj \<Rightarrow> k8sobj list"
  tkPreferred :: "k8sobj \<Rightarrow> k8sobj list"

record podSpec =
  posTermination :: int64
  posInitContainers :: "podContainer list"
  posContainers :: "podContainer list"
  posSecurity :: normalizedSecurityContext
  posVolumes :: "volume list"
  posNodeSelector :: stringMap
  posTolerations :: "k8sobj list"
  posSpread :: "(k8sobj \<times> stringMap option) list"
  posAffinity :: "antiAffinity option"
  posPriorityClassName :: string

record podTemplate =
  potLabels :: stringMap
  potAnnotations :: stringMap
  potSpec :: podSpec

record claimTemplateOf =
  cloTemplate :: claimTemplate
  cloAccessMode :: PersistentVolumeAccessMode
  cloClass :: "string option"

record builtSet =
  bsName :: string
  bsNamespace :: string
  bsLabels :: stringMap
  bsReplicas :: int32
  bsServiceName :: string
  bsUpdateStrategy :: string
  bsSelector :: stringMap
  bsRetention :: string
  bsClaims :: "claimTemplateOf list"
  bsTemplate :: podTemplate

section \<open>Names and paths\<close>

definition memgraphBinary :: string where "memgraphBinary = ''/usr/lib/memgraph/memgraph''"
definition dataDirectory :: string where "dataDirectory = ''/var/lib/memgraph/mg_data''"
definition logFile :: string where "logFile = ''/var/lib/memgraph/logs/memgraph.log''"
definition libMountPath :: string where "libMountPath = ''/var/lib/memgraph''"
definition tmpMountPath :: string where "tmpMountPath = ''/tmp''"
definition coreDumpsMountPath :: string where "coreDumpsMountPath = ''/var/core/memgraph''"
definition listenAddress :: string where "listenAddress = ''0.0.0.0''"
definition libVolumeName :: string where "libVolumeName = ''lib-storage''"
definition coreDumpsVolumeName :: string where "coreDumpsVolumeName = ''core-dumps''"
definition tmpVolumeName :: string where "tmpVolumeName = ''tmp''"
definition boltTLSVolumeName :: string where "boltTLSVolumeName = ''bolt-tls''"
definition boltTLSMountPath :: string where "boltTLSMountPath = ''/etc/memgraph/ssl''"
definition intraClusterTLSVolumeName :: string where "intraClusterTLSVolumeName = ''intra-cluster-tls''"
definition intraClusterTLSMountPath :: string where "intraClusterTLSMountPath = ''/etc/memgraph/intra_cluster_tls''"
definition caKey :: string where "caKey = ''ca.crt''"
definition containerName :: string where "containerName = ''memgraph''"
definition sysctlContainerName :: string where "sysctlContainerName = ''init-sysctl''"
definition corePatternContainerName :: string where "corePatternContainerName = ''init-core-pattern''"
definition uploaderContainerName :: string where "uploaderContainerName = ''core-dumps-uploader''"
definition fixOwnershipContainerName :: string where "fixOwnershipContainerName = ''init-fix-perms''"
definition terminationGracePeriod :: int64 where "terminationGracePeriod = 300"
definition flagsVolumeName :: string where "flagsVolumeName = ''flags''"
definition flagsMountPath :: string where "flagsMountPath = ''/etc/memgraph-flags''"
definition flagFilePath :: string where "flagFilePath = flagsMountPath @ ''/'' @ FlagFileKey"
definition SystemUserPasswordKey :: string where "SystemUserPasswordKey = ''password''"
definition fipsModeArg :: string where "fipsModeArg = ''--fips-mode=true''"
definition vectorConfigVolume :: string where "vectorConfigVolume = ''vector-config''"
definition vectorConfigPath :: string where "vectorConfigPath = ''/etc/vector/config''"
definition vectorDataVolume :: string where "vectorDataVolume = ''vector-data''"

text \<open>\<open>corev1.TLSCertKey\<close> and \<open>corev1.TLSPrivateKeyKey\<close>, constants of the Kubernetes API.\<close>

definition TLSCertKey :: string where "TLSCertKey = ''tls.crt''"
definition TLSPrivateKeyKey :: string where "TLSPrivateKeyKey = ''tls.key''"

section \<open>The system user\<close>

definition SystemUserSecretName :: "MemgraphDBCluster \<Rightarrow> string" where
  "SystemUserSecretName cluster = mcName cluster @ ''-'' @ systemUserComponent"

definition SystemUserHashSecretName :: "MemgraphDBCluster \<Rightarrow> string" where
  "SystemUserHashSecretName cluster = SystemUserSecretName cluster @ ''-hash''"

record Secret_ =
  seName :: string
  seNamespace :: string
  seLabels :: stringMap
  seData :: stringMap

definition systemUserSecret :: "MemgraphDBCluster \<Rightarrow> string \<Rightarrow> string \<Rightarrow> string \<Rightarrow> Secret_" where
  "systemUserSecret cluster name key content =
     \<lparr>seName = name, seNamespace = mcNamespace cluster, seLabels = labels cluster systemUserComponent [],
      seData = [(key, content)]\<rparr>"

definition SystemUserSecret :: "MemgraphDBCluster \<Rightarrow> string \<Rightarrow> Secret_" where
  "SystemUserSecret cluster password =
     systemUserSecret cluster (SystemUserSecretName cluster) SystemUserPasswordKey password"

definition SystemUserHashSecret :: "MemgraphDBCluster \<Rightarrow> string \<Rightarrow> Secret_" where
  "SystemUserHashSecret cluster hash = systemUserSecret cluster (SystemUserHashSecretName cluster) SystemUserHashKey hash"

definition systemUserVolume :: "MemgraphDBCluster \<Rightarrow> volume" where
  "systemUserVolume cluster = Volume systemUserComponent (SecretSource (SystemUserHashSecretName cluster) [SystemUserHashKey])"

definition systemUserVolumeMount :: mount where
  "systemUserVolumeMount = Mount systemUserComponent systemUserMountPath True"

definition flagsVolume :: "string \<Rightarrow> volume" where
  "flagsVolume name = Volume flagsVolumeName (ConfigMapSource name)"

section \<open>Security contexts\<close>

definition runtimeDefault :: string where "runtimeDefault = ''RuntimeDefault''"

definition restrictedSecurityContext :: securityContext where
  "restrictedSecurityContext = \<lparr>scPrivileged = None, scAllowPrivilegeEscalation = Some False, scDrop = [''ALL''], scAdd = [],
     scReadOnlyRootFilesystem = True, scRunAsUser = None, scRunAsNonRoot = True, scSeccomp = runtimeDefault\<rparr>"

definition privilegedRootSecurityContext :: securityContext where
  "privilegedRootSecurityContext = \<lparr>scPrivileged = Some True, scAllowPrivilegeEscalation = Some True, scDrop = [], scAdd = [],
     scReadOnlyRootFilesystem = True, scRunAsUser = Some 0, scRunAsNonRoot = False, scSeccomp = runtimeDefault\<rparr>"

definition chownSecurityContext :: securityContext where
  "chownSecurityContext = \<lparr>scPrivileged = None, scAllowPrivilegeEscalation = Some False, scDrop = [''ALL''], scAdd = [''CHOWN''],
     scReadOnlyRootFilesystem = True, scRunAsUser = Some 0, scRunAsNonRoot = False, scSeccomp = runtimeDefault\<rparr>"

section \<open>Containers\<close>

definition shellCommand :: "string \<Rightarrow> string list" where
  "shellCommand script = [''/bin/sh'', ''-ec'', script]"

definition tcpProbe :: "int32 \<Rightarrow> normalizedProbe \<Rightarrow> probe" where
  "tcpProbe port timings = \<lparr>prHandler = TCPSocket port, prTimings = Some timings\<rparr>"

definition commonArgs :: "normalizedSpec \<Rightarrow> normalizedRole \<Rightarrow> string list" where
  "commonArgs spec role =
     [''--flag-file='' @ flagFilePath,
      ''--bolt-port='' @ itoa BoltPort,
      ''--bolt-address='' @ listenAddress,
      ''--management-port='' @ itoa ManagementPort,
      ''--metrics-port='' @ itoa MetricsPort,
      ''--metrics-format=OpenMetrics'',
      ''--monitoring-address='' @ listenAddress,
      ''--monitoring-port='' @ itoa MonitoringPort,
      ''--data-directory='' @ dataDirectory,
      ''--log-file='' @ (if nstFileLogging (nroStorage role) then logFile else [])]
     @ (if nBoltTLSSecret spec \<noteq> [] then
          [''--bolt-cert-file='' @ boltTLSMountPath @ ''/'' @ TLSCertKey,
           ''--bolt-key-file='' @ boltTLSMountPath @ ''/'' @ TLSPrivateKeyKey] else [])
     @ (if nIntraClusterTLSSecret spec \<noteq> [] then
          [''--cluster-cert-file='' @ intraClusterTLSMountPath @ ''/'' @ TLSCertKey,
           ''--cluster-key-file='' @ intraClusterTLSMountPath @ ''/'' @ TLSPrivateKeyKey,
           ''--cluster-ca-file='' @ intraClusterTLSMountPath @ ''/'' @ caKey] else [])
     @ (if nFIPS spec then [fipsModeArg] else [])"

definition volumeMounts :: "normalizedSpec \<Rightarrow> normalizedRole \<Rightarrow> mount list" where
  "volumeMounts spec role =
     [Mount libVolumeName libMountPath False, Mount flagsVolumeName flagsMountPath True, systemUserVolumeMount,
      Mount tmpVolumeName tmpMountPath False]
     @ (if ncdEnabled (nroCoreDumps role) then [Mount coreDumpsVolumeName coreDumpsMountPath False] else [])
     @ (if nBoltTLSSecret spec \<noteq> [] then [Mount boltTLSVolumeName boltTLSMountPath True] else [])
     @ (if nIntraClusterTLSSecret spec \<noteq> [] then [Mount intraClusterTLSVolumeName intraClusterTLSMountPath True] else [])
     @ map UserMount (nroExtraMounts role)"

definition literals :: "stringMap \<Rightarrow> (string \<times> envValueFrom) list" where
  "literals env = map (\<lambda>(name, v). (name, Literal v)) env"

definition memgraphContainer :: "normalizedSpec \<Rightarrow> normalizedRole \<Rightarrow> container" where
  "memgraphContainer spec role = \<lparr>coName = containerName, coImage = nImage spec, coPullPolicy = nPullPolicy spec,
     coCommand = [], coArgs = [], coEnv = literals (nroEnv role), coEnvFrom = [], coPorts = [], coReadiness = None,
     coResources = nroResources role, coMounts = volumeMounts spec role, coSecurity = restrictedSecurityContext\<rparr>"

text \<open>A line of a script ends in a newline; a continued one in a backslash before it.\<close>

definition newline :: string where "newline = [CHR 0x0A]"
definition continued :: string where "continued = [CHR 0x5C, CHR 0x0A]"

definition coordinatorStartScript :: "MemgraphDBCluster \<Rightarrow> normalizedSpec \<Rightarrow> string" where
  \<open>coordinatorStartScript cluster spec =
     ''ordinal="${POD_NAME##*-}"'' @ newline
     @ ''exec '' @ memgraphBinary @ '' '' @ continued
     @ ''  --coordinator-id="$ordinal" '' @ continued
     @ ''  --coordinator-hostname="${POD_NAME}.'' @ podFQDNSuffix cluster (CoordinatorName cluster) spec @ ''" '' @ continued
     @ ''  --coordinator-port='' @ itoa CoordinatorPort @ '' '' @ continued
     @ ''  "$@"''\<close>

definition sysctlInitContainer :: "normalizedSpec \<Rightarrow> container" where
  \<open>sysctlInitContainer spec = (let script =
     ''want='' @ itoa (nMaxMapCount spec) @ ''; have=$(cat /proc/sys/vm/max_map_count)'' @ newline
     @ ''if [ "$have" -lt "$want" ]; then echo "$want" | tee /proc/sys/vm/max_map_count; ''
     @ ''else echo "vm.max_map_count is $have, keeping it"; fi'' in
     \<lparr>coName = sysctlContainerName, coImage = nImage spec, coPullPolicy = nPullPolicy spec,
      coCommand = shellCommand script, coArgs = [], coEnv = [], coEnvFrom = [], coPorts = [], coReadiness = None,
      coResources = [], coMounts = [], coSecurity = privilegedRootSecurityContext\<rparr>)\<close>

definition corePatternInitContainer :: "normalizedSpec \<Rightarrow> container" where
  "corePatternInitContainer spec = (let pattern = coreDumpsMountPath @ ''/core.%e.%p.%t.%s'' in
     \<lparr>coName = corePatternContainerName, coImage = nImage spec, coPullPolicy = nPullPolicy spec,
      coCommand = [''/bin/sh'', ''-ec'', ''echo '' @ quoted pattern @ '' | tee /proc/sys/kernel/core_pattern''],
      coArgs = [], coEnv = [], coEnvFrom = [], coPorts = [], coReadiness = None, coResources = [], coMounts = [],
      coSecurity = privilegedRootSecurityContext\<rparr>)"

definition fixOwnershipInitContainer :: "normalizedSpec \<Rightarrow> normalizedRole \<Rightarrow> int64 \<Rightarrow> int64 \<Rightarrow> container" where
  "fixOwnershipInitContainer spec role uid gid =
     (let mounts = [(libVolumeName, libMountPath)]
            @ (if ncdEnabled (nroCoreDumps role) then [(coreDumpsVolumeName, coreDumpsMountPath)] else []);
          script = join newline (map (\<lambda>(_, path). ''chown -R '' @ itoa uid @ '':'' @ itoa gid @ '' '' @ path) mounts) in
      \<lparr>coName = fixOwnershipContainerName, coImage = nImage spec, coPullPolicy = nPullPolicy spec,
       coCommand = shellCommand script, coArgs = [], coEnv = [], coEnvFrom = [], coPorts = [], coReadiness = None,
       coResources = [], coMounts = map (\<lambda>(name, path). Mount name path False) mounts,
       coSecurity = chownSecurityContext\<rparr>)"

definition uploaderSidecar :: "CoreDumpsUploaderSpec \<Rightarrow> container" where
  "uploaderSidecar uploader = \<lparr>coName = uploaderContainerName, coImage = cduImage uploader,
     coPullPolicy = orDefault (cduPullPolicy uploader) DefaultImagePullPolicy,
     coCommand = cduCommand uploader, coArgs = cduArgs uploader,
     coEnv = (EnvCoreDumpsDir, Literal coreDumpsMountPath) # literals (normalizeEnv (cduEnv uploader)),
     coEnvFrom = cduEnvFromSecrets uploader, coPorts = [], coReadiness = None, coResources = cduResources uploader,
     coMounts = [Mount coreDumpsVolumeName coreDumpsMountPath True, Mount tmpVolumeName tmpMountPath False],
     coSecurity = restrictedSecurityContext\<rparr>"

definition vectorSidecar :: "string \<Rightarrow> normalizedVector \<Rightarrow> container" where
  "vectorSidecar component block = \<lparr>coName = vectorComponent, coImage = nveImage block, coPullPolicy = nvePullPolicy block,
     coCommand = [], coArgs = [''--config'', vectorConfigPath @ ''/'' @ VectorConfigKey],
     coEnv = [(vectorRoleEnv, Literal component), (vectorPodEnv, FieldRef ''metadata.name''),
         (vectorNamespaceEnv, FieldRef ''metadata.namespace'')]
       @ (if nveAuthSecret block \<noteq> [] then
            [(vectorUsernameEnv, SecretKeyRef (nveAuthSecret block) BasicAuthUsernameKey),
             (vectorPasswordEnv, SecretKeyRef (nveAuthSecret block) BasicAuthPasswordKey)] else []),
     coEnvFrom = [], coPorts = [], coReadiness = None, coResources = nveResources block,
     coMounts = [Mount vectorConfigVolume vectorConfigPath True, Mount vectorDataVolume vectorDataPath False],
     coSecurity = restrictedSecurityContext\<rparr>"

definition vectorVolumes :: "MemgraphDBCluster \<Rightarrow> volume list" where
  "vectorVolumes cluster =
     [Volume vectorConfigVolume (ConfigMapSource (VectorConfigName cluster)), Volume vectorDataVolume EmptyDirSource]"

section \<open>The pod of a role\<close>

definition podVolumes :: "MemgraphDBCluster \<Rightarrow> normalizedSpec \<Rightarrow> normalizedRole \<Rightarrow> string \<Rightarrow> volume list" where
  "podVolumes cluster spec role flagsName =
     [flagsVolume flagsName, systemUserVolume cluster, Volume tmpVolumeName EmptyDirSource]
     @ (if nBoltTLSSecret spec \<noteq> [] then
          [Volume boltTLSVolumeName (SecretSource (nBoltTLSSecret spec) [TLSCertKey, TLSPrivateKeyKey])] else [])
     @ (if nIntraClusterTLSSecret spec \<noteq> [] then
          [Volume intraClusterTLSVolumeName (SecretSource (nIntraClusterTLSSecret spec) [TLSCertKey, TLSPrivateKeyKey, caKey])]
        else [])
     @ (if nmoVector (nMonitoring spec) \<noteq> None then vectorVolumes cluster else [])
     @ map UserVolume (nroExtraVolumes role)"

definition volumeClaimTemplate ::
  "string \<Rightarrow> Quantity \<Rightarrow> PersistentVolumeAccessMode \<Rightarrow> string option \<Rightarrow> claimTemplateOf" where
  "volumeClaimTemplate name claim_size accessMode class_name =
     \<lparr>cloTemplate = \<lparr>ctName = name, ctRequests = [(ResourceStorage, claim_size)]\<rparr>, cloAccessMode = accessMode,
      cloClass = class_name\<rparr>"

definition volumeClaimTemplates :: "normalizedRole \<Rightarrow> claimTemplateOf list" where
  "volumeClaimTemplates role =
     (let storage = nroStorage role; dumps = nroCoreDumps role in
      volumeClaimTemplate libVolumeName (nstLibSize storage) (nstLibAccessMode storage) (nstLibClass storage)
      # (if ncdEnabled dumps then [volumeClaimTemplate coreDumpsVolumeName (ncdSize dumps) DefaultStorageAccessMode (ncdClass dumps)]
         else []))"

definition userContainer :: "tokens \<Rightarrow> k8sobj \<Rightarrow> podContainer" where
  "userContainer tk c = Passed c (if tkNoSecurityContext tk c then Some restrictedSecurityContext else None)"

definition podContainers ::
  "tokens \<Rightarrow> string \<Rightarrow> normalizedSpec \<Rightarrow> normalizedRole \<Rightarrow> container \<Rightarrow> podContainer list" where
  "podContainers tk component spec role memgraph =
     [Built memgraph]
     @ (if ncdEnabled (nroCoreDumps role) then (case ncdUploader (nroCoreDumps role) of
          Some uploader \<Rightarrow> [Built (uploaderSidecar uploader)] | None \<Rightarrow> []) else [])
     @ (case nmoVector (nMonitoring spec) of Some block \<Rightarrow> [Built (vectorSidecar component block)] | None \<Rightarrow> [])
     @ map (userContainer tk) (nroUserContainers role)"

definition podInitContainers :: "tokens \<Rightarrow> normalizedSpec \<Rightarrow> normalizedRole \<Rightarrow> podContainer list" where
  "podInitContainers tk spec role =
     (if nMaxMapCount spec > 0 then [Built (sysctlInitContainer spec)] else [])
     @ (if ncdEnabled (nroCoreDumps role) \<and> ncdConfigurePattern (nroCoreDumps role)
        then [Built (corePatternInitContainer spec)] else [])
     @ (case chownTarget (nSecurityContext spec) of
          Some (uid, gid) \<Rightarrow> if nFixOwnership spec then [Built (fixOwnershipInitContainer spec role uid gid)] else []
        | None \<Rightarrow> [])
     @ map (userContainer tk) (nroInitContainers role)"

definition podAffinity ::
  "tokens \<Rightarrow> MemgraphDBCluster \<Rightarrow> string \<Rightarrow> normalizedSpec \<Rightarrow> normalizedRole \<Rightarrow> antiAffinity option" where
  "podAffinity tk cluster component spec role =
     (let own_terms = (case nPodAntiAffinity spec of
            None \<Rightarrow> \<lparr>anRequired = [], anPreferred = []\<rparr>
          | Some rule \<Rightarrow>
              let selector = (if npaScope rule = PodAntiAffinityScopeCluster
                    then filter (\<lambda>(k, _). k \<noteq> componentLabel) (selectorLabels cluster component)
                    else selectorLabels cluster component);
                  term = OperatorTerm selector (npaTopologyKey rule) in
              if npaTyp rule = PodAntiAffinityRequired then \<lparr>anRequired = [term], anPreferred = []\<rparr>
              else \<lparr>anRequired = [], anPreferred = [term]\<rparr>);
          anti = (case rscPodAntiAffinity (nroScheduling role) of
            None \<Rightarrow> own_terms
          | Some own \<Rightarrow> \<lparr>anRequired = anRequired own_terms @ map UserTerm (tkRequired tk own),
              anPreferred = anPreferred own_terms @ map UserTerm (tkPreferred tk own)\<rparr>) in
      if anRequired anti = [] \<and> anPreferred anti = [] then None else Some anti)"

definition spreadConstraints ::
  "tokens \<Rightarrow> MemgraphDBCluster \<Rightarrow> string \<Rightarrow> normalizedRole \<Rightarrow> (k8sobj \<times> stringMap option) list" where
  "spreadConstraints tk cluster component role =
     map (\<lambda>c. (c, if tkNoLabelSelector tk c then Some (selectorLabels cluster component) else None))
       (rscTopologySpreadConstraints (nroScheduling role))"

definition retentionType :: "StorageRetentionPolicy \<Rightarrow> string" where
  "retentionType policy = (if policy = RetentionPolicyDelete then ''Delete'' else ''Retain'')"

definition PodTemplateHash :: "(podTemplate \<Rightarrow> string) \<Rightarrow> podTemplate \<Rightarrow> string" where
  "PodTemplateHash hash template = hash (template\<lparr>potAnnotations :=
     filter (\<lambda>(k, _). k \<noteq> FlagsAnnotation \<and> k \<noteq> TemplateHashAnnotation) (potAnnotations template)\<rparr>)"

section \<open>The StatefulSets\<close>

definition statefulSet ::
  "tokens \<Rightarrow> (string \<Rightarrow> string) \<Rightarrow> (podTemplate \<Rightarrow> string) \<Rightarrow> MemgraphDBCluster \<Rightarrow> string \<Rightarrow> string \<Rightarrow> normalizedSpec
     \<Rightarrow> normalizedRole \<Rightarrow> int32 \<Rightarrow> container \<Rightarrow> builtSet" where
  "statefulSet tk digest hash cluster component name spec role replicas container =
     (let template = \<lparr>potLabels = labels cluster component (nroPodLabels role),
            potAnnotations = [(FlagsAnnotation, flagsDigests digest (roleFlags role))],
            potSpec = \<lparr>posTermination = terminationGracePeriod,
              posInitContainers = podInitContainers tk spec role,
              posContainers = podContainers tk component spec role container,
              posSecurity = nSecurityContext spec,
              posVolumes = podVolumes cluster spec role (name @ ''-'' @ flagsComponent),
              posNodeSelector = rscNodeSelector (nroScheduling role),
              posTolerations = rscTolerations (nroScheduling role),
              posSpread = spreadConstraints tk cluster component role,
              posAffinity = podAffinity tk cluster component spec role,
              posPriorityClassName = rscPriorityClassName (nroScheduling role)\<rparr>\<rparr> in
      \<lparr>bsName = name, bsNamespace = mcNamespace cluster,
       bsLabels = labels cluster component (nroStatefulSetLabels role), bsReplicas = replicas, bsServiceName = name,
       bsUpdateStrategy = ''OnDelete'', bsSelector = selectorLabels cluster component,
       bsRetention = retentionType (nRetentionPolicy spec), bsClaims = volumeClaimTemplates role,
       bsTemplate = template\<lparr>potAnnotations := potAnnotations template
         @ [(TemplateHashAnnotation, PodTemplateHash hash template)]\<rparr>\<rparr>)"

definition coordinatorContainer :: "MemgraphDBCluster \<Rightarrow> normalizedSpec \<Rightarrow> container" where
  "coordinatorContainer cluster spec =
     (let role = nCoordinatorRole spec; container = memgraphContainer spec role in
      container\<lparr>coCommand := shellCommand (coordinatorStartScript cluster spec),
        coArgs := containerName # commonArgs spec role,
        coEnv := (EnvPodName, FieldRef ''metadata.name'') # coEnv container,
        coPorts := [(boltPortName, BoltPort), (managementPortName, ManagementPort),
          (coordinatorPortName, CoordinatorPort), (metricsPortName, MetricsPort)],
        coReadiness := Some (tcpProbe CoordinatorPort (nReadinessProbe spec))\<rparr>)"

definition CoordinatorStatefulSet ::
  "tokens \<Rightarrow> (string \<Rightarrow> string) \<Rightarrow> (podTemplate \<Rightarrow> string) \<Rightarrow> MemgraphDBCluster \<Rightarrow> int32 \<Rightarrow> builtSet" where
  "CoordinatorStatefulSet tk digest hash cluster replicas =
     (let spec = normalize (mcSpec cluster) in
      statefulSet tk digest hash cluster coordinatorComponent (CoordinatorName cluster) spec (nCoordinatorRole spec)
        replicas (coordinatorContainer cluster spec))"

definition dataContainer :: "normalizedSpec \<Rightarrow> container" where
  "dataContainer spec =
     (memgraphContainer spec (nDataRole spec))\<lparr>coArgs := commonArgs spec (nDataRole spec),
        coPorts := [(boltPortName, BoltPort), (managementPortName, ManagementPort),
          (replicationPortName, ReplicationPort), (metricsPortName, MetricsPort)],
        coReadiness := Some (tcpProbe BoltPort (nReadinessProbe spec))\<rparr>"

definition DataStatefulSet ::
  "tokens \<Rightarrow> (string \<Rightarrow> string) \<Rightarrow> (podTemplate \<Rightarrow> string) \<Rightarrow> MemgraphDBCluster \<Rightarrow> int32 \<Rightarrow> builtSet" where
  "DataStatefulSet tk digest hash cluster replicas =
     (let spec = normalize (mcSpec cluster) in
      statefulSet tk digest hash cluster dataComponent (DataName cluster) spec (nDataRole spec) replicas (dataContainer spec))"

definition RunsInFIPSMode :: "container list \<Rightarrow> bool" where
  "RunsInFIPSMode containers = (case find (\<lambda>c. coName c = containerName) containers of
     Some c \<Rightarrow> fipsModeArg \<in> set (coArgs c) | None \<Rightarrow> False)"

section \<open>The vmagent Deployment\<close>

definition vmagentConfigVolume :: string where "vmagentConfigVolume = ''config''"
definition vmagentConfigPath :: string where "vmagentConfigPath = ''/etc/vmagent/config''"
definition vmagentDataVolume :: string where "vmagentDataVolume = ''data''"
definition vmagentDataPath :: string where "vmagentDataPath = ''/tmpData''"
definition vmagentAuthVolume :: string where "vmagentAuthVolume = ''basic-auth''"
definition vmagentAuthPath :: string where "vmagentAuthPath = ''/etc/vmagent/basic-auth''"
definition vmagentPortName :: string where "vmagentPortName = ''http''"
definition vmagentUsernameEnv :: string where "vmagentUsernameEnv = ''VMAGENT_BASIC_AUTH_USERNAME''"
definition vmagentConfigCheckInterval :: string where "vmagentConfigCheckInterval = ''1m''"
definition vmagentUserID :: int64 where "vmagentUserID = 65534"

record deployment =
  deName :: string
  deNamespace :: string
  deLabels :: stringMap
  deSelector :: stringMap
  deUser :: int64
  deContainer :: container
  deVolumes :: "volume list"

definition VMAgentDeployment :: "MemgraphDBCluster \<Rightarrow> deployment option" where
  "VMAgentDeployment cluster =
     map_option (\<lambda>block.
       let auth = (nvmBasicAuthSecret block \<noteq> []);
           labels = monitoringLabels cluster vmagentComponent [] in
       \<lparr>deName = VMAgentName cluster, deNamespace = mcNamespace cluster, deLabels = labels,
        deSelector = selectorLabels cluster vmagentComponent, deUser = vmagentUserID,
        deContainer = \<lparr>coName = vmagentComponent, coImage = nvmImage block, coPullPolicy = nvmPullPolicy block, coCommand = [],
          coArgs = [''-promscrape.config='' @ vmagentConfigPath @ ''/'' @ VMAgentConfigKey,
              ''-promscrape.configCheckInterval='' @ vmagentConfigCheckInterval,
              ''-remoteWrite.url='' @ nvmRemoteWriteURL block,
              ''-remoteWrite.tmpDataPath='' @ vmagentDataPath,
              ''-httpListenAddr=:'' @ itoa VMAgentPort]
            @ (if auth then [''-remoteWrite.basicAuth.username=$('' @ vmagentUsernameEnv @ '')'',
                ''-remoteWrite.basicAuth.passwordFile='' @ vmagentAuthPath @ ''/'' @ BasicAuthPasswordKey] else []),
          coEnv = (if auth then [(vmagentUsernameEnv, SecretKeyRef (nvmBasicAuthSecret block) BasicAuthUsernameKey)] else []),
          coEnvFrom = [], coPorts = [(vmagentPortName, VMAgentPort)],
          coReadiness = Some \<lparr>prHandler = HTTPGet ''/health'' vmagentPortName, prTimings = None\<rparr>,
          coResources = nvmResources block,
          coMounts = [Mount vmagentConfigVolume vmagentConfigPath True, Mount vmagentDataVolume vmagentDataPath False]
            @ (if auth then [Mount vmagentAuthVolume vmagentAuthPath True] else []),
          coSecurity = restrictedSecurityContext\<rparr>,
        deVolumes = [Volume vmagentConfigVolume (ConfigMapSource (VMAgentConfigName cluster)),
            Volume vmagentDataVolume EmptyDirSource]
          @ (if auth then [Volume vmagentAuthVolume (SecretSource (nvmBasicAuthSecret block) [BasicAuthPasswordKey])] else [])\<rparr>)
       (nmoVMAgent (nMonitoring (normalize (mcSpec cluster))))"

section \<open>Pods are well formed\<close>

lemmas volume_names = libVolumeName_def coreDumpsVolumeName_def tmpVolumeName_def boltTLSVolumeName_def
  intraClusterTLSVolumeName_def flagsVolumeName_def systemUserComponent_def vectorConfigVolume_def vectorDataVolume_def

lemmas mount_paths = libMountPath_def tmpMountPath_def coreDumpsMountPath_def boltTLSMountPath_def intraClusterTLSMountPath_def
  flagsMountPath_def systemUserMountPath_def vectorConfigPath_def vectorDataPath_def

text \<open>The names a pod can mount, and the mounts the operator puts into its containers.\<close>

definition podVolumeNames :: "builtSet \<Rightarrow> string list" where
  "podVolumeNames sts = map (\<lambda>c. ctName (cloTemplate c)) (bsClaims sts)
     @ List.map_filter (\<lambda>v. case v of Volume name _ \<Rightarrow> Some name | UserVolume _ \<Rightarrow> None) (posVolumes (potSpec (bsTemplate sts)))"

definition operatorContainers :: "builtSet \<Rightarrow> container list" where
  "operatorContainers sts = List.map_filter (\<lambda>c. case c of Built b \<Rightarrow> Some b | Passed _ _ \<Rightarrow> None)
     (posInitContainers (potSpec (bsTemplate sts)) @ posContainers (potSpec (bsTemplate sts)))"

definition operatorMounts :: "container \<Rightarrow> (string \<times> string) list" where
  "operatorMounts c = List.map_filter (\<lambda>m. case m of Mount name path _ \<Rightarrow> Some (name, path) | UserMount _ \<Rightarrow> None) (coMounts c)"

definition roleSet ::
  "tokens \<Rightarrow> (string \<Rightarrow> string) \<Rightarrow> (podTemplate \<Rightarrow> string) \<Rightarrow> MemgraphDBCluster \<Rightarrow> bool \<Rightarrow> int32 \<Rightarrow> builtSet" where
  "roleSet tk digest hash cluster data replicas =
     (if data then DataStatefulSet tk digest hash cluster replicas else CoordinatorStatefulSet tk digest hash cluster replicas)"

abbreviation roleOf :: "MemgraphDBCluster \<Rightarrow> bool \<Rightarrow> normalizedRole" where
  "roleOf cluster data \<equiv> (if data then nDataRole else nCoordinatorRole) (normalize (mcSpec cluster))"

lemma roleSet_fields:
  fixes cluster data
  defines "spec \<equiv> normalize (mcSpec cluster)" and "role \<equiv> roleOf cluster data"
    and "component \<equiv> (if data then dataComponent else coordinatorComponent)"
    and "memgraph \<equiv> (if data then dataContainer (normalize (mcSpec cluster)) else coordinatorContainer cluster (normalize (mcSpec cluster)))"
  shows "posInitContainers (potSpec (bsTemplate (roleSet tk digest hash cluster data n))) = podInitContainers tk spec role"
    and "posContainers (potSpec (bsTemplate (roleSet tk digest hash cluster data n))) = podContainers tk component spec role memgraph"
    and "\<exists>flags. posVolumes (potSpec (bsTemplate (roleSet tk digest hash cluster data n))) = podVolumes cluster spec role flags"
    and "bsClaims (roleSet tk digest hash cluster data n) = volumeClaimTemplates role"
    and "coMounts memgraph = volumeMounts spec role" "coSecurity memgraph = restrictedSecurityContext"
  by (auto simp: assms roleSet_def DataStatefulSet_def CoordinatorStatefulSet_def statefulSet_def Let_def
      dataContainer_def coordinatorContainer_def memgraphContainer_def)

lemma map_filter_user: "List.map_filter (\<lambda>v. case v of Volume name _ \<Rightarrow> Some name | UserVolume _ \<Rightarrow> None) (map UserVolume us) = []"
  "List.map_filter (\<lambda>c. case c of Built b \<Rightarrow> Some b | Passed _ _ \<Rightarrow> None) (map (userContainer tk) cs) = []"
  "List.map_filter (\<lambda>m. case m of Mount name path _ \<Rightarrow> Some (name, path) | UserMount _ \<Rightarrow> None) (map UserMount ms) = []"
  by (auto simp: List.map_filter_def userContainer_def filter_empty_conv)

lemma map_filter_append: "List.map_filter f (xs @ ys) = List.map_filter f xs @ List.map_filter f ys"
  by (simp add: List.map_filter_def)

lemma podInitContainers_Built:
  "Built c \<in> set (podInitContainers tk spec role) \<longleftrightarrow>
     nMaxMapCount spec > 0 \<and> c = sysctlInitContainer spec
     \<or> ncdEnabled (nroCoreDumps role) \<and> ncdConfigurePattern (nroCoreDumps role) \<and> c = corePatternInitContainer spec
     \<or> nFixOwnership spec \<and> (\<exists>uid gid. chownTarget (nSecurityContext spec) = Some (uid, gid)
          \<and> c = fixOwnershipInitContainer spec role uid gid)"
  by (cases "chownTarget (nSecurityContext spec)") (auto simp: podInitContainers_def userContainer_def)

lemma Built_option: "Built c \<in> set (case u of None \<Rightarrow> [] | Some x \<Rightarrow> [Built (f x)]) \<longleftrightarrow> c \<in> f ` set_option u"
  by (cases u) simp_all

lemma Built_user: "Built c \<notin> set (map (userContainer tk) cs)"
  by (induction cs) (simp_all add: userContainer_def)

lemma podContainers_Built:
  "Built c \<in> set (podContainers tk component spec role memgraph) \<longleftrightarrow>
     c = memgraph
     \<or> ncdEnabled (nroCoreDumps role) \<and> c \<in> uploaderSidecar ` set_option (ncdUploader (nroCoreDumps role))
     \<or> c \<in> vectorSidecar component ` set_option (nmoVector (nMonitoring spec))"
  unfolding podContainers_def set_append Un_iff Built_option
  by (cases "ncdEnabled (nroCoreDumps role)") (simp_all only: if_True if_False Built_user Built_option list.set insert_iff
      empty_iff podContainer.inject simp_thms)

lemma operatorContainers_Built:
  "c \<in> set (operatorContainers sts) \<longleftrightarrow>
     Built c \<in> set (posInitContainers (potSpec (bsTemplate sts))) \<or> Built c \<in> set (posContainers (potSpec (bsTemplate sts)))"
proof -
  have "c \<in> set (List.map_filter (\<lambda>c. case c of Built b \<Rightarrow> Some b | Passed _ _ \<Rightarrow> None) cs) \<longleftrightarrow> Built c \<in> set cs" for cs
    by (induction cs) (auto simp: List.map_filter_simps split: podContainer.splits)
  then show ?thesis by (simp add: operatorContainers_def)
qed

lemma operatorContainers_mem:
  "c \<in> set (operatorContainers (roleSet tk digest hash cluster data n)) \<longleftrightarrow>
     Built c \<in> set (podInitContainers tk (normalize (mcSpec cluster)) (roleOf cluster data))
     \<or> Built c \<in> set (podContainers tk (if data then dataComponent else coordinatorComponent) (normalize (mcSpec cluster))
          (roleOf cluster data)
          (if data then dataContainer (normalize (mcSpec cluster)) else coordinatorContainer cluster (normalize (mcSpec cluster))))"
  unfolding operatorContainers_Built roleSet_fields(1,2) ..

lemma operatorMounts_of:
  "operatorMounts (sysctlInitContainer spec) = []" "operatorMounts (corePatternInitContainer spec) = []"
  "operatorMounts (fixOwnershipInitContainer spec role uid gid) = (libVolumeName, libMountPath)
     # (if ncdEnabled (nroCoreDumps role) then [(coreDumpsVolumeName, coreDumpsMountPath)] else [])"
  "operatorMounts (uploaderSidecar u) = [(coreDumpsVolumeName, coreDumpsMountPath), (tmpVolumeName, tmpMountPath)]"
  "operatorMounts (vectorSidecar component b) = [(vectorConfigVolume, vectorConfigPath), (vectorDataVolume, vectorDataPath)]"
  by (simp_all add: operatorMounts_def sysctlInitContainer_def corePatternInitContainer_def fixOwnershipInitContainer_def
      uploaderSidecar_def vectorSidecar_def Let_def List.map_filter_simps)

lemma operatorMounts_memgraph:
  "coMounts c = volumeMounts spec role \<Longrightarrow> operatorMounts c =
     [(libVolumeName, libMountPath), (flagsVolumeName, flagsMountPath), (systemUserComponent, systemUserMountPath),
      (tmpVolumeName, tmpMountPath)]
     @ (if ncdEnabled (nroCoreDumps role) then [(coreDumpsVolumeName, coreDumpsMountPath)] else [])
     @ (if nBoltTLSSecret spec \<noteq> [] then [(boltTLSVolumeName, boltTLSMountPath)] else [])
     @ (if nIntraClusterTLSSecret spec \<noteq> [] then [(intraClusterTLSVolumeName, intraClusterTLSMountPath)] else [])"
  by (simp add: operatorMounts_def volumeMounts_def map_filter_append map_filter_user List.map_filter_simps systemUserVolumeMount_def)

text \<open>
  What Kubernetes reads of a pod: the name of a volume and of a mount with its path, users' too. How the
  user's own objects are read is an argument, \<open>vn\<close> of a volume and \<open>mn\<close> of a mount.
\<close>

definition volumeName :: "(k8sobj \<Rightarrow> string) \<Rightarrow> volume \<Rightarrow> string" where
  "volumeName vn v = (case v of Volume name _ \<Rightarrow> name | UserVolume u \<Rightarrow> vn u)"

definition allVolumeNames :: "(k8sobj \<Rightarrow> string) \<Rightarrow> builtSet \<Rightarrow> string list" where
  "allVolumeNames vn sts = map (\<lambda>c. ctName (cloTemplate c)) (bsClaims sts)
     @ map (volumeName vn) (posVolumes (potSpec (bsTemplate sts)))"

definition containerMounts :: "(k8sobj \<Rightarrow> string \<times> string) \<Rightarrow> container \<Rightarrow> (string \<times> string) list" where
  "containerMounts mn c = map (\<lambda>m. case m of Mount name path _ \<Rightarrow> (name, path) | UserMount u \<Rightarrow> mn u) (coMounts c)"

text \<open>Every mount names a volume of the pod, and no two are at one path.\<close>

definition mountable :: "string list \<Rightarrow> (string \<times> string) list \<Rightarrow> bool" where
  "mountable names mounts \<longleftrightarrow> set (map fst mounts) \<subseteq> set names \<and> distinct (map snd mounts)"

lemma mountable_append:
  assumes "mountable owned xs" "set owned \<subseteq> set names"
  shows "mountable names (xs @ ys) \<longleftrightarrow> mountable names ys \<and> set (map snd xs) \<inter> set (map snd ys) = {}"
  using assms by (auto simp: mountable_def)

lemma containerMounts_split:
  "coMounts c = map (\<lambda>(name, path, ro). Mount name path ro) xs @ map UserMount us
     \<Longrightarrow> containerMounts mn c = operatorMounts c @ map mn us"
  by (induction xs arbitrary: c) (auto simp: containerMounts_def operatorMounts_def map_filter_append map_filter_user
      List.map_filter_def comp_def split_beta)

lemma added_containers:
  "containerMounts mn (sysctlInitContainer spec) = operatorMounts (sysctlInitContainer spec)"
  "containerMounts mn (corePatternInitContainer spec) = operatorMounts (corePatternInitContainer spec)"
  "containerMounts mn (fixOwnershipInitContainer spec role uid gid) = operatorMounts (fixOwnershipInitContainer spec role uid gid)"
  "containerMounts mn (uploaderSidecar u) = operatorMounts (uploaderSidecar u)"
  "containerMounts mn (vectorSidecar component b) = operatorMounts (vectorSidecar component b)"
  "coName (sysctlInitContainer spec) = containerName \<longleftrightarrow> False" "coName (corePatternInitContainer spec) = containerName \<longleftrightarrow> False"
  "coName (fixOwnershipInitContainer spec role uid gid) = containerName \<longleftrightarrow> False"
  "coName (uploaderSidecar u) = containerName \<longleftrightarrow> False" "coName (vectorSidecar component b) = containerName \<longleftrightarrow> False"
  unfolding operatorMounts_of
  by (simp_all add: containerMounts_def sysctlInitContainer_def corePatternInitContainer_def fixOwnershipInitContainer_def
      uploaderSidecar_def vectorSidecar_def Let_def containerName_def sysctlContainerName_def corePatternContainerName_def
      fixOwnershipContainerName_def uploaderContainerName_def vectorComponent_def)

lemma operatorContainers_mounts:
  assumes "c \<in> set (operatorContainers (roleSet tk digest hash cluster data n))"
  shows "containerMounts mn c = operatorMounts c @ (if coName c = containerName then map mn (nroExtraMounts (roleOf cluster data)) else [])"
proof -
  let ?memgraph = "if data then dataContainer (normalize (mcSpec cluster)) else coordinatorContainer cluster (normalize (mcSpec cluster))"
  have memgraph: "coName ?memgraph = containerName"
    by (simp add: dataContainer_def coordinatorContainer_def memgraphContainer_def Let_def)
  have shape: "\<exists>xs. volumeMounts spec role = map (\<lambda>(name, path, ro). Mount name path ro) xs @ map UserMount (nroExtraMounts role)"
    for spec role
    by (intro exI [of _ "[(libVolumeName, libMountPath, False), (flagsVolumeName, flagsMountPath, True),
            (systemUserComponent, systemUserMountPath, True), (tmpVolumeName, tmpMountPath, False)]
          @ (if ncdEnabled (nroCoreDumps role) then [(coreDumpsVolumeName, coreDumpsMountPath, False)] else [])
          @ (if nBoltTLSSecret spec \<noteq> [] then [(boltTLSVolumeName, boltTLSMountPath, True)] else [])
          @ (if nIntraClusterTLSSecret spec \<noteq> [] then [(intraClusterTLSVolumeName, intraClusterTLSMountPath, True)] else [])"])
      (simp add: volumeMounts_def systemUserVolumeMount_def)
  have own: "containerMounts mn ?memgraph = operatorMounts ?memgraph @ map mn (nroExtraMounts (roleOf cluster data))"
    using shape [of "normalize (mcSpec cluster)" "roleOf cluster data"]
    unfolding roleSet_fields(5) [of data cluster, symmetric] by (elim exE) (rule containerMounts_split)
  note which = assms [unfolded operatorContainers_mem podInitContainers_Built podContainers_Built]
  have other: "containerMounts mn c = operatorMounts c \<and> coName c \<noteq> containerName" if "c \<noteq> ?memgraph"
    using which that by (elim disjE exE conjE imageE) (simp_all only: added_containers not_False_eq_True simp_thms)
  show ?thesis
  proof (cases "c = ?memgraph")
    case True
    with own memgraph show ?thesis by (simp only: if_True simp_thms)
  next
    case False
    with other show ?thesis by simp
  qed
qed

lemma roleSet_volume_names:
  fixes cluster data
  defines "spec \<equiv> normalize (mcSpec cluster)" and "role \<equiv> roleOf cluster data"
  shows "podVolumeNames (roleSet tk digest hash cluster data n) =
      libVolumeName # (if ncdEnabled (nroCoreDumps role) then [coreDumpsVolumeName] else [])
      @ [flagsVolumeName, systemUserComponent, tmpVolumeName]
      @ (if nBoltTLSSecret spec \<noteq> [] then [boltTLSVolumeName] else [])
      @ (if nIntraClusterTLSSecret spec \<noteq> [] then [intraClusterTLSVolumeName] else [])
      @ (if nmoVector (nMonitoring spec) \<noteq> None then [vectorConfigVolume, vectorDataVolume] else [])"
    and "allVolumeNames vn (roleSet tk digest hash cluster data n)
      = podVolumeNames (roleSet tk digest hash cluster data n) @ map vn (nroExtraVolumes role)"
    and "distinct (podVolumeNames (roleSet tk digest hash cluster data n))"
proof -
  from roleSet_fields(3) obtain flags where
    vols: "posVolumes (potSpec (bsTemplate (roleSet tk digest hash cluster data n))) = podVolumes cluster spec role flags"
    unfolding spec_def role_def by blast
  note fields = roleSet_fields(4) [where tk = tk and digest = digest and hash = hash and cluster = cluster and data = data and n = n, folded role_def] vols
  show names: "podVolumeNames (roleSet tk digest hash cluster data n) =
      libVolumeName # (if ncdEnabled (nroCoreDumps role) then [coreDumpsVolumeName] else [])
      @ [flagsVolumeName, systemUserComponent, tmpVolumeName]
      @ (if nBoltTLSSecret spec \<noteq> [] then [boltTLSVolumeName] else [])
      @ (if nIntraClusterTLSSecret spec \<noteq> [] then [intraClusterTLSVolumeName] else [])
      @ (if nmoVector (nMonitoring spec) \<noteq> None then [vectorConfigVolume, vectorDataVolume] else [])"
    by (simp add: podVolumeNames_def fields podVolumes_def volumeClaimTemplates_def volumeClaimTemplate_def Let_def
        map_filter_append map_filter_user List.map_filter_simps flagsVolume_def systemUserVolume_def vectorVolumes_def)
  then show "distinct (podVolumeNames (roleSet tk digest hash cluster data n))" by (auto simp: volume_names)
  have "allVolumeNames vn (roleSet tk digest hash cluster data n) =
      (libVolumeName # (if ncdEnabled (nroCoreDumps role) then [coreDumpsVolumeName] else [])
      @ [flagsVolumeName, systemUserComponent, tmpVolumeName]
      @ (if nBoltTLSSecret spec \<noteq> [] then [boltTLSVolumeName] else [])
      @ (if nIntraClusterTLSSecret spec \<noteq> [] then [intraClusterTLSVolumeName] else [])
      @ (if nmoVector (nMonitoring spec) \<noteq> None then [vectorConfigVolume, vectorDataVolume] else [])) @ map vn (nroExtraVolumes role)"
    by (simp add: allVolumeNames_def fields podVolumes_def volumeClaimTemplates_def volumeClaimTemplate_def Let_def
        flagsVolume_def systemUserVolume_def vectorVolumes_def volumeName_def comp_def)
  then show "allVolumeNames vn (roleSet tk digest hash cluster data n)
      = podVolumeNames (roleSet tk digest hash cluster data n) @ map vn (nroExtraVolumes role)" by (simp only: names)
qed

lemma operatorMounts_owned:
  assumes "c \<in> set (operatorContainers (roleSet tk digest hash cluster data n))"
  shows "mountable (podVolumeNames (roleSet tk digest hash cluster data n)) (operatorMounts c)"
proof -
  note which = assms [unfolded operatorContainers_mem podInitContainers_Built podContainers_Built]
  note memgraph = operatorMounts_memgraph [OF roleSet_fields(5)]
  show ?thesis
    using which unfolding mountable_def
    by (elim disjE exE conjE imageE)
      (auto simp: memgraph operatorMounts_of roleSet_volume_names(1) volume_names mount_paths)
qed

text \<open>A Secret among the volumes of a pod.\<close>

definition mountsSecret :: "volume list \<Rightarrow> string \<Rightarrow> bool" where
  "mountsSecret volumes secret \<longleftrightarrow> (\<exists>name keys. Volume name (SecretSource secret keys) \<in> set volumes)"

lemma roleSet_secrets:
  assumes "mountsSecret (posVolumes (potSpec (bsTemplate (roleSet tk digest hash cluster data n)))) (SystemUserSecretName cluster)"
  shows "SystemUserSecretName cluster \<in> {nBoltTLSSecret (normalize (mcSpec cluster)), nIntraClusterTLSSecret (normalize (mcSpec cluster))}"
proof -
  obtain flags where vols: "posVolumes (potSpec (bsTemplate (roleSet tk digest hash cluster data n)))
      = podVolumes cluster (normalize (mcSpec cluster)) (roleOf cluster data) flags" using roleSet_fields(3) by blast
  have "SystemUserSecretName cluster \<noteq> SystemUserHashSecretName cluster" by (simp add: SystemUserHashSecretName_def)
  with assms show ?thesis unfolding vols mountsSecret_def
    by (auto simp: podVolumes_def flagsVolume_def systemUserVolume_def vectorVolumes_def split: if_splits)
qed

lemma vmagent_pod:
  assumes "VMAgentDeployment cluster = Some d"
  shows "distinct (map (volumeName vn) (deVolumes d))" "mountable (map (volumeName vn) (deVolumes d)) (containerMounts mn (deContainer d))"
    and "mountsSecret (deVolumes d) secret \<Longrightarrow> map_option nvmBasicAuthSecret (nmoVMAgent (nMonitoring (normalize (mcSpec cluster)))) = Some secret"
proof -
  from assms obtain block where "nmoVMAgent (nMonitoring (normalize (mcSpec cluster))) = Some block" by (auto simp: VMAgentDeployment_def)
  then have "distinct (map (volumeName vn) (deVolumes d)) \<and> mountable (map (volumeName vn) (deVolumes d)) (containerMounts mn (deContainer d))
      \<and> (mountsSecret (deVolumes d) secret \<longrightarrow> map_option nvmBasicAuthSecret (nmoVMAgent (nMonitoring (normalize (mcSpec cluster)))) = Some secret)"
    using assms by (auto simp: VMAgentDeployment_def Let_def mountable_def volumeName_def containerMounts_def mountsSecret_def
        vmagentConfigVolume_def vmagentDataVolume_def vmagentAuthVolume_def vmagentConfigPath_def vmagentDataPath_def
        vmagentAuthPath_def split: if_splits)
  then show "distinct (map (volumeName vn) (deVolumes d))" "mountable (map (volumeName vn) (deVolumes d)) (containerMounts mn (deContainer d))"
    "mountsSecret (deVolumes d) secret \<Longrightarrow> map_option nvmBasicAuthSecret (nmoVMAgent (nMonitoring (normalize (mcSpec cluster)))) = Some secret"
    by blast+
qed

text \<open>
  C24: Whether a pod of a role can be mounted is up to the user's extra volumes and mounts alone, whichever
  of core dumps, an uploader, Bolt TLS, intra-cluster TLS, log shipping and ownership fixing the spec
  combines. The names of the claims and of the operator's own volumes are distinct; with the extra volumes
  the pod's names stay distinct exactly when the extra ones are distinct and none is a name the operator
  owns. Each mount of the operator's names one of the operator's volumes, no two at one path; with the
  extra mounts, which only the Memgraph container gets, a container's mounts can be made exactly when the
  extra ones name volumes of the pod, at paths of their own. The vmagent pod takes nothing of the user's,
  and its volumes are distinct and its mounts resolve. And no volume the operator adds carries the Secret
  with the system user's password, unless the spec names that very Secret for a certificate or, in the
  vmagent pod, as the Secret of its remote write. Users' own containers are theirs.
\<close>

theorem operator_mounts_resolve:
  "let sts = roleSet tk digest hash cluster data n; role = roleOf cluster data; spec = normalize (mcSpec cluster) in
     distinct (podVolumeNames sts)
    \<and> (distinct (allVolumeNames vn sts) \<longleftrightarrow> distinct (map vn (nroExtraVolumes role))
         \<and> vn ` set (nroExtraVolumes role) \<inter> set (podVolumeNames sts) = {})
    \<and> (\<forall>c \<in> set (operatorContainers sts). mountable (podVolumeNames sts) (operatorMounts c)
         \<and> (let extra = (if coName c = containerName then map mn (nroExtraMounts role) else []) in
            mountable (allVolumeNames vn sts) (containerMounts mn c) \<longleftrightarrow>
              mountable (allVolumeNames vn sts) extra \<and> set (map snd (operatorMounts c)) \<inter> set (map snd extra) = {}))
    \<and> (\<forall>d \<in> set_option (VMAgentDeployment cluster). distinct (map (volumeName vn) (deVolumes d))
         \<and> mountable (map (volumeName vn) (deVolumes d)) (containerMounts mn (deContainer d))
         \<and> (mountsSecret (deVolumes d) (SystemUserSecretName cluster)
              \<longrightarrow> map_option nvmBasicAuthSecret (nmoVMAgent (nMonitoring spec)) = Some (SystemUserSecretName cluster)))
    \<and> (mountsSecret (posVolumes (potSpec (bsTemplate sts))) (SystemUserSecretName cluster)
         \<longrightarrow> SystemUserSecretName cluster \<in> {nBoltTLSSecret spec, nIntraClusterTLSSecret spec})"
proof -
  let ?sts = "roleSet tk digest hash cluster data n" and ?role = "roleOf cluster data"
  note names = roleSet_volume_names [where tk = tk and digest = digest and hash = hash and cluster = cluster and data = data and n = n]
  have names_all: "distinct (allVolumeNames vn ?sts) \<longleftrightarrow> distinct (map vn (nroExtraVolumes ?role))
         \<and> vn ` set (nroExtraVolumes ?role) \<inter> set (podVolumeNames ?sts) = {}"
    unfolding names(2) distinct_append using names(3) by (simp only: set_map) blast
  have mounts: "mountable (podVolumeNames ?sts) (operatorMounts c)
         \<and> (let extra = (if coName c = containerName then map mn (nroExtraMounts ?role) else []) in
            mountable (allVolumeNames vn ?sts) (containerMounts mn c) \<longleftrightarrow>
              mountable (allVolumeNames vn ?sts) extra \<and> set (map snd (operatorMounts c)) \<inter> set (map snd extra) = {})"
    if "c \<in> set (operatorContainers ?sts)" for c
  proof -
    note own = operatorMounts_owned [OF that]
    have "set (podVolumeNames ?sts) \<subseteq> set (allVolumeNames vn ?sts)" by (simp only: names(2) set_append Un_upper1)
    from own mountable_append [OF own this] show ?thesis
      unfolding operatorContainers_mounts [OF that] Let_def by blast
  qed
  note vmagent = vmagent_pod [where cluster = cluster]
  show ?thesis unfolding Let_def [of "roleSet tk digest hash cluster data n"] Let_def [of ?role] Let_def [of "normalize (mcSpec cluster)"]
    using names(3) names_all
    by (intro conjI ballI impI mounts vmagent roleSet_secrets [where tk = tk and digest = digest and hash = hash and cluster = cluster and data = data and n = n]) (auto simp only: elem_set)
qed

text \<open>The witness: on the default cluster, whatever users' volumes and mounts would be read as.\<close>

definition exTokens :: tokens where
  "exTokens = \<lparr>tkNoSecurityContext = (\<lambda>_. True), tkNoLabelSelector = (\<lambda>_. True), tkRequired = (\<lambda>_. []), tkPreferred = (\<lambda>_. [])\<rparr>"

lemma operator_mounts_resolve_witness:
  "mountable (podVolumeNames (roleSet exTokens id (\<lambda>_. []) exCluster True 2)) (operatorMounts (dataContainer (normalize (mcSpec exCluster))))"
proof -
  have "dataContainer (normalize (mcSpec exCluster)) \<in> set (operatorContainers (roleSet exTokens id (\<lambda>_. []) exCluster True 2))"
    unfolding operatorContainers_mem podContainers_Built by simp
  with operator_mounts_resolve [where tk = exTokens and digest = id and hash = "\<lambda>_. []" and cluster = exCluster and data = True and n = 2]
  show ?thesis unfolding Let_def by blast
qed

section \<open>Privileges\<close>

lemma operator_contexts:
  "coSecurity (sysctlInitContainer spec) = privilegedRootSecurityContext"
  "coSecurity (corePatternInitContainer spec) = privilegedRootSecurityContext"
  "coSecurity (fixOwnershipInitContainer spec role uid gid) = chownSecurityContext"
  "coSecurity (uploaderSidecar u) = restrictedSecurityContext"
  "coSecurity (vectorSidecar component b) = restrictedSecurityContext"
  by (simp_all add: sysctlInitContainer_def corePatternInitContainer_def fixOwnershipInitContainer_def
      uploaderSidecar_def vectorSidecar_def Let_def)

text \<open>The security contexts of the operator's own containers.\<close>

definition builtContexts :: "podContainer list \<Rightarrow> securityContext set" where
  "builtContexts cs = set (List.map_filter (\<lambda>c. case c of Built b \<Rightarrow> Some (coSecurity b) | Passed _ _ \<Rightarrow> None) cs)"

lemma contexts_simps:
  "builtContexts [] = {}" "builtContexts (Built b # cs) = insert (coSecurity b) (builtContexts cs)"
  "builtContexts (xs @ ys) = builtContexts xs \<union> builtContexts ys"
  by (simp_all add: builtContexts_def map_filter_append List.map_filter_simps)

lemma contexts_user:
  "builtContexts (map (userContainer tk) cs) = {}"
  by (induction cs) (auto simp: builtContexts_def List.map_filter_simps userContainer_def split: if_splits)

lemma contexts_if:
  "builtContexts (if b then xs else ys) = (if b then builtContexts xs else builtContexts ys)"
  by simp

lemma podContainers_contexts:
  assumes "coSecurity memgraph = restrictedSecurityContext"
  shows "builtContexts (podContainers tk component spec role memgraph) = {restrictedSecurityContext}"
  by (simp add: podContainers_def contexts_simps contexts_user contexts_if operator_contexts assms
      split: option.split del: Un_insert_left Un_insert_right)

lemma podInitContainers_contexts:
  "builtContexts (podInitContainers tk spec role) =
     (if nMaxMapCount spec > 0 \<or> ncdEnabled (nroCoreDumps role) \<and> ncdConfigurePattern (nroCoreDumps role)
      then {privilegedRootSecurityContext} else {})
     \<union> (if nFixOwnership spec \<and> chownTarget (nSecurityContext spec) \<noteq> None then {chownSecurityContext} else {})"
  by (simp add: podInitContainers_def contexts_simps contexts_user contexts_if operator_contexts insert_commute
      split: option.split prod.split)

lemma Passed_user:
  "Passed c ctx \<in> set (map (userContainer tk) cs) \<longleftrightarrow>
     (c, ctx) \<in> (\<lambda>c. (c, if tkNoSecurityContext tk c then Some restrictedSecurityContext else None)) ` set cs"
  by (auto simp: userContainer_def)

lemma Passed_option: "Passed c ctx \<notin> set (case u of None \<Rightarrow> [] | Some x \<Rightarrow> [Built (f x)])"
  by (cases u) simp_all

lemma Passed_guarded: "Passed c ctx \<notin> set (if b then (case u of None \<Rightarrow> [] | Some x \<Rightarrow> [Built (f x)]) else [])"
  using Passed_option [of c ctx f u] by (cases b) (simp_all only: if_True if_False list.set empty_iff simp_thms)

lemma Passed_if: "Passed c ctx \<notin> set (if b then [Built x] else [])"
  by simp

lemma Passed_target: "Passed c ctx \<notin> set (case t of Some (uid, gid) \<Rightarrow> if b then [Built (f uid gid)] else [] | None \<Rightarrow> [])"
  by (simp split: option.split prod.split)

lemma Passed_containers:
  "Passed c ctx \<in> set (podContainers tk component spec role memgraph) \<longleftrightarrow>
     (c, ctx) \<in> (\<lambda>c. (c, if tkNoSecurityContext tk c then Some restrictedSecurityContext else None)) ` set (nroUserContainers role)"
  "Passed c ctx \<in> set (podInitContainers tk spec role) \<longleftrightarrow>
     (c, ctx) \<in> (\<lambda>c. (c, if tkNoSecurityContext tk c then Some restrictedSecurityContext else None)) ` set (nroInitContainers role)"
proof -
  show "Passed c ctx \<in> set (podContainers tk component spec role memgraph) \<longleftrightarrow>
     (c, ctx) \<in> (\<lambda>c. (c, if tkNoSecurityContext tk c then Some restrictedSecurityContext else None)) ` set (nroUserContainers role)"
    unfolding podContainers_def set_append Un_iff Passed_user
    by (simp only: Passed_option Passed_guarded list.set insert_iff empty_iff podContainer.distinct simp_thms)
  show "Passed c ctx \<in> set (podInitContainers tk spec role) \<longleftrightarrow>
     (c, ctx) \<in> (\<lambda>c. (c, if tkNoSecurityContext tk c then Some restrictedSecurityContext else None)) ` set (nroInitContainers role)"
    unfolding podInitContainers_def set_append Un_iff Passed_user by (simp only: Passed_if Passed_target simp_thms)
qed

lemma vmagent_security:
  "(\<lambda>d. (coSecurity (deContainer d), deUser d)) ` set_option (VMAgentDeployment cluster) \<subseteq> {(restrictedSecurityContext, vmagentUserID)}"
  by (auto simp: VMAgentDeployment_def Let_def)

text \<open>
  C25: The containers the operator builds run without privileges except where the spec asks for one. Every
  one beside the init containers is restricted, the vmagent's too, which runs as the user 65534. A user's
  container or init container that names no security context gets the restricted one, and one that names
  its own keeps it as written, whatever it allows. An init container of the operator's is privileged
  exactly when the spec raises \<open>vm.max_map_count\<close> or configures the core pattern of dumps that are on, one
  runs as root exactly when it also or instead fixes ownership for a known user, and the one that fixes
  ownership has no capability but \<open>CHOWN\<close>.
\<close>

theorem pod_privileges:
  "let pod = potSpec (bsTemplate (roleSet tk digest hash cluster data n)); role = roleOf cluster data;
       spec = normalize (mcSpec cluster); dumps = nroCoreDumps role;
       written = (\<lambda>c. (c, if tkNoSecurityContext tk c then Some restrictedSecurityContext else None)) in
     builtContexts (posContainers pod) = {restrictedSecurityContext}
    \<and> {(c, ctx). Passed c ctx \<in> set (posContainers pod)} = written ` set (nroUserContainers role)
    \<and> {(c, ctx). Passed c ctx \<in> set (posInitContainers pod)} = written ` set (nroInitContainers role)
    \<and> (\<lambda>d. (coSecurity (deContainer d), deUser d)) ` set_option (VMAgentDeployment cluster)
         \<subseteq> {(restrictedSecurityContext, vmagentUserID)}
    \<and> (Some True \<in> scPrivileged ` builtContexts (posInitContainers pod)) =
        (nMaxMapCount spec > 0 \<or> ncdEnabled dumps \<and> ncdConfigurePattern dumps)
    \<and> (Some 0 \<in> scRunAsUser ` builtContexts (posInitContainers pod)) =
        ((nMaxMapCount spec > 0 \<or> ncdEnabled dumps \<and> ncdConfigurePattern dumps)
         \<or> nFixOwnership spec \<and> chownTarget (nSecurityContext spec) \<noteq> None)
    \<and> (\<lambda>ctx. (scDrop ctx, scAdd ctx, scAllowPrivilegeEscalation ctx))
          ` {ctx \<in> builtContexts (posInitContainers pod). scPrivileged ctx \<noteq> Some True} \<subseteq> {([''ALL''], [''CHOWN''], Some False)}"
proof -
  let ?pod = "potSpec (bsTemplate (roleSet tk digest hash cluster data n))"
    and ?spec = "normalize (mcSpec cluster)" and ?dumps = "nroCoreDumps (roleOf cluster data)"
  note fields = roleSet_fields
  have inits: "posInitContainers ?pod = podInitContainers tk ?spec (roleOf cluster data)"
    by (rule fields(1))
  have privileged: "(Some True \<in> scPrivileged ` builtContexts (posInitContainers ?pod)) =
      (nMaxMapCount ?spec > 0 \<or> ncdEnabled ?dumps \<and> ncdConfigurePattern ?dumps)"
    and root: "(Some 0 \<in> scRunAsUser ` builtContexts (posInitContainers ?pod)) =
      ((nMaxMapCount ?spec > 0 \<or> ncdEnabled ?dumps \<and> ncdConfigurePattern ?dumps)
       \<or> nFixOwnership ?spec \<and> chownTarget (nSecurityContext ?spec) \<noteq> None)"
    unfolding inits podInitContainers_contexts
    by (simp_all add: image_Un privilegedRootSecurityContext_def chownSecurityContext_def)
  have "builtContexts (posInitContainers ?pod) \<subseteq> {privilegedRootSecurityContext, chownSecurityContext}"
    unfolding inits podInitContainers_contexts by simp
  then have capabilities: "(\<lambda>ctx. (scDrop ctx, scAdd ctx, scAllowPrivilegeEscalation ctx))
        ` {ctx \<in> builtContexts (posInitContainers ?pod). scPrivileged ctx \<noteq> Some True} \<subseteq> {([''ALL''], [''CHOWN''], Some False)}"
    by (auto simp: privilegedRootSecurityContext_def chownSecurityContext_def)
  have built: "builtContexts (posContainers ?pod) = {restrictedSecurityContext}"
    unfolding fields(2) by (rule podContainers_contexts(1) [OF fields(6)])
  from privileged root capabilities built vmagent_security show ?thesis
    unfolding Let_def fields(2) inits Passed_containers case_prod_eta Collect_mem_eq by blast
qed

section \<open>Run-time flags leave the template alone\<close>

definition withFlags :: "FlagsSpec \<Rightarrow> MemgraphDBCluster \<Rightarrow> MemgraphDBCluster" where
  "withFlags fl cluster = cluster\<lparr>mcSpec := (mcSpec cluster)\<lparr>spFlags := fl\<rparr>\<rparr>"

definition startupFlags :: "(string \<times> FlagValue) list \<Rightarrow> stringMap" where
  "startupFlags flags = sort_key fst (filter (\<lambda>(key, _). \<not> IsRuntime key) flags)"

lemma filter_update:
  "filter (\<lambda>(k, _). P k) (AList.update key v al) =
     (if P key then AList.update key v (filter (\<lambda>(k, _). P k) al) else filter (\<lambda>(k, _). P k) al)"
  by (induction al) auto

lemma IsRuntime_Normalize: "IsRuntime (Normalize key) = IsRuntime key"
  by (simp add: IsRuntime_def Setting_def Normalize_id [OF Normalize_no_dash])

lemma filter_fold_update:
  "filter (\<lambda>(k, _). \<not> IsRuntime k) (fold (\<lambda>(key, flag). AList.update (Normalize key) flag) flags al) =
     fold (\<lambda>(key, flag). AList.update (Normalize key) flag) (filter (\<lambda>(k, _). \<not> IsRuntime k) flags)
       (filter (\<lambda>(k, _). \<not> IsRuntime k) al)"
  by (induction flags arbitrary: al) (auto simp: filter_update IsRuntime_Normalize)

lemma flagsDigests_filter:
  "flagsDigests digest flags = flagsDigests digest (filter (\<lambda>(k, _). \<not> IsRuntime k) flags)"
proof -
  have "concat [key @ ''='' @ digest flag @ [CHR 0x0A]. (key, flag) \<leftarrow> kvs, \<not> IsRuntime key] =
      concat [key @ ''='' @ digest flag @ [CHR 0x0A]. (key, flag) \<leftarrow> filter (\<lambda>(k, _). \<not> IsRuntime k) kvs, \<not> IsRuntime key]" for kvs
    by (induction kvs) auto
  then show ?thesis by (simp add: flagsDigests_def filter_sort [symmetric])
qed

lemma flagsDigests_startup:
  assumes "startupFlags (nroFlags role) = startupFlags (nroFlags role')"
  shows "flagsDigests digest (roleFlags role) = flagsDigests digest (roleFlags role')"
  using assms unfolding flagsDigests_filter [of digest "roleFlags role"] flagsDigests_filter [of digest "roleFlags role'"]
  by (simp add: roleFlags_def filter_fold_update startupFlags_def filter_sort)

lemma normalize_withFlags:
  "normalize (mcSpec (withFlags fl cluster)) = (normalize (mcSpec cluster))
     \<lparr>nCoordinatorRole := (nCoordinatorRole (normalize (mcSpec cluster)))\<lparr>nroFlags := normalizeFlags (flCoordinators fl)\<rparr>,
      nDataRole := (nDataRole (normalize (mcSpec cluster)))\<lparr>nroFlags := normalizeFlags (flData fl)\<rparr>\<rparr>"
  by (simp add: withFlags_def normalize_def coordinatorRoleSpec_def dataRoleSpec_def normalizeRole_def)

lemma withFlags_fields: "mcName (withFlags fl cluster) = mcName cluster" "mcNamespace (withFlags fl cluster) = mcNamespace cluster"
  by (simp_all add: withFlags_def)

lemma builders_withFlags:
  "labels (withFlags fl cluster) = labels cluster" "selectorLabels (withFlags fl cluster) = selectorLabels cluster"
  "podFQDNSuffix (withFlags fl cluster) name spec = podFQDNSuffix cluster name spec"
  "podVolumes (withFlags fl cluster) = podVolumes cluster" "CoordinatorName (withFlags fl cluster) = CoordinatorName cluster"
  "DataName (withFlags fl cluster) = DataName cluster"
  by (simp_all add: fun_eq_iff labels_def selectorLabels_def podFQDNSuffix_def podVolumes_def CoordinatorName_def DataName_def
      withFlags_fields systemUserVolume_def SystemUserHashSecretName_def SystemUserSecretName_def vectorVolumes_def VectorConfigName_def)

lemma PodTemplateHash_flags:
  "PodTemplateHash hash \<lparr>potLabels = l, potAnnotations = [(FlagsAnnotation, d)], potSpec = s\<rparr> =
     hash \<lparr>potLabels = l, potAnnotations = [], potSpec = s\<rparr>"
  by (simp add: PodTemplateHash_def)

lemma pod_parts_flags:
  "podInitContainers tk spec (role\<lparr>nroFlags := f\<rparr>) = podInitContainers tk spec role"
  "podContainers tk component spec (role\<lparr>nroFlags := f\<rparr>) c = podContainers tk component spec role c"
  "podVolumes cluster spec (role\<lparr>nroFlags := f\<rparr>) name = podVolumes cluster spec role name"
  "spreadConstraints tk cluster component (role\<lparr>nroFlags := f\<rparr>) = spreadConstraints tk cluster component role"
  "podAffinity tk cluster component spec (role\<lparr>nroFlags := f\<rparr>) = podAffinity tk cluster component spec role"
  "volumeClaimTemplates (role\<lparr>nroFlags := f\<rparr>) = volumeClaimTemplates role"
  "memgraphContainer spec (role\<lparr>nroFlags := f\<rparr>) = memgraphContainer spec role"
  "commonArgs spec (role\<lparr>nroFlags := f\<rparr>) = commonArgs spec role"
  by (simp_all add: podInitContainers_def fixOwnershipInitContainer_def podContainers_def podVolumes_def spreadConstraints_def
      podAffinity_def volumeClaimTemplates_def memgraphContainer_def volumeMounts_def commonArgs_def split: option.split)

lemma pod_parts_roles:
  fixes spec :: normalizedSpec
  defines "roles \<equiv> \<lambda>c d. spec\<lparr>nCoordinatorRole := c, nDataRole := d\<rparr>"
  shows "podInitContainers tk (roles c d) role = podInitContainers tk spec role"
    "podContainers tk component (roles c d) role mg = podContainers tk component spec role mg"
    "podVolumes cluster (roles c d) role name = podVolumes cluster spec role name"
    "podAffinity tk cluster component (roles c d) role = podAffinity tk cluster component spec role"
    "memgraphContainer (roles c d) role = memgraphContainer spec role"
    "commonArgs (roles c d) role = commonArgs spec role"
    "coordinatorStartScript cluster (roles c d) = coordinatorStartScript cluster spec"
  by (simp_all add: roles_def podInitContainers_def sysctlInitContainer_def corePatternInitContainer_def fixOwnershipInitContainer_def
      podContainers_def podVolumes_def podAffinity_def memgraphContainer_def volumeMounts_def commonArgs_def
      coordinatorStartScript_def podFQDNSuffix_def split: option.split)

lemma cluster_parts_withFlags:
  "podAffinity tk (withFlags fl cluster) = podAffinity tk cluster"
  "spreadConstraints tk (withFlags fl cluster) = spreadConstraints tk cluster"
  "coordinatorStartScript (withFlags fl cluster) = coordinatorStartScript cluster"
  unfolding fun_eq_iff podAffinity_def spreadConstraints_def coordinatorStartScript_def builders_withFlags by simp_all

lemma annotations_distinct: "FlagsAnnotation \<noteq> TemplateHashAnnotation" "TemplateHashAnnotation \<noteq> FlagsAnnotation"
  by (simp_all add: FlagsAnnotation_def TemplateHashAnnotation_def)

text \<open>What a StatefulSet has of the role's flags is the digests of the start-up ones.\<close>

lemma roleSet_withFlags:
  "roleSet tk digest hash (withFlags fl cluster) data n =
     (let sts = roleSet tk digest hash cluster data n in
      sts\<lparr>bsTemplate := (bsTemplate sts)\<lparr>potAnnotations :=
        [(FlagsAnnotation, flagsDigests digest (roleFlags (roleOf (withFlags fl cluster) data))),
         (TemplateHashAnnotation, the (map_of (potAnnotations (bsTemplate sts)) TemplateHashAnnotation))]\<rparr>\<rparr>)"
  by (cases data) (simp_all add: roleSet_def DataStatefulSet_def CoordinatorStatefulSet_def statefulSet_def Let_def
      dataContainer_def coordinatorContainer_def PodTemplateHash_flags normalize_withFlags builders_withFlags withFlags_fields
      cluster_parts_withFlags pod_parts_flags pod_parts_roles annotations_distinct)

text \<open>
  C26: Run-time flags leave a running pod alone: whatever the flags of the spec, the hash of the pod
  template is the same, and two specs that agree on a role's start-up flags (up to their order) get the
  same StatefulSet for it, so an edit of run-time flags changes the flag file and no revision.
\<close>

theorem runtime_flags_keep_template:
  "map_of (potAnnotations (bsTemplate (roleSet tk digest hash (withFlags fl cluster) data n))) TemplateHashAnnotation =
     map_of (potAnnotations (bsTemplate (roleSet tk digest hash (withFlags fl' cluster) data n))) TemplateHashAnnotation
   \<and> (startupFlags ((if data then flData else flCoordinators) fl) = startupFlags ((if data then flData else flCoordinators) fl')
      \<longrightarrow> roleSet tk digest hash (withFlags fl cluster) data n = roleSet tk digest hash (withFlags fl' cluster) data n)"
proof (intro conjI impI)
  show "map_of (potAnnotations (bsTemplate (roleSet tk digest hash (withFlags fl cluster) data n))) TemplateHashAnnotation =
      map_of (potAnnotations (bsTemplate (roleSet tk digest hash (withFlags fl' cluster) data n))) TemplateHashAnnotation"
    unfolding roleSet_withFlags [where fl = fl] roleSet_withFlags [where fl = fl'] by (simp add: Let_def annotations_distinct)
  assume agree: "startupFlags ((if data then flData else flCoordinators) fl) = startupFlags ((if data then flData else flCoordinators) fl')"
  have "normalizeFlags flags = flags" for flags by (simp add: normalizeFlags_def)
  then have "startupFlags (nroFlags (roleOf (withFlags fl cluster) data)) = startupFlags (nroFlags (roleOf (withFlags fl' cluster) data))"
    using agree by (cases data) (simp_all add: normalize_withFlags)
  from flagsDigests_startup [OF this, of digest]
  show "roleSet tk digest hash (withFlags fl cluster) data n = roleSet tk digest hash (withFlags fl' cluster) data n"
    unfolding roleSet_withFlags [where fl = fl] roleSet_withFlags [where fl = fl'] by simp
qed

lemma runtime_flags_keep_template_witness:
  "roleSet exTokens id (\<lambda>_. []) (withFlags \<lparr>flCoordinators = [], flData = [(''log-level'', ''TRACE'')]\<rparr> exCluster) True 2 =
     roleSet exTokens id (\<lambda>_. []) (withFlags \<lparr>flCoordinators = [], flData = []\<rparr> exCluster) True 2"
proof -
  have "startupFlags [(''log-level'', ''TRACE'')] = startupFlags []"
    by (simp add: startupFlags_def IsRuntime_def Setting_def runtimeSettings_def Normalize_def)
  with runtime_flags_keep_template [where fl = "\<lparr>flCoordinators = [], flData = [(''log-level'', ''TRACE'')]\<rparr>"
      and fl' = "\<lparr>flCoordinators = [], flData = []\<rparr>" and data = True and tk = exTokens and digest = id
      and hash = "\<lambda>_. []" and cluster = exCluster and n = 2]
  show ?thesis by simp
qed

end
