(* ===== verification/Desired_Monitoring.thy ===== *)
theory Desired_Monitoring
  imports Pod_Builder
begin

text \<open>
  The monitoring objects a pass builds and prunes, \<open>desiredMonitoring\<close> and \<open>pruneMonitoring\<close> of
  \<open>src/internal/controller/memgraphdbcluster_controller.go\<close>, over the builders of \<open>Monitoring\<close> and
  \<open>Pod_Builder\<close>. A builder that panics panics the pass: the list is an option.
\<close>

section \<open>What a pass wants\<close>

datatype monitoringObject =
    ServiceMonitorObject ServiceMonitor_
  | DashboardObject "ConfigMap \<times> stringMap"
  | ScrapeConfigObject "scrapeConfig marshalledMap"
  | VMAgentObject deployment
  | VectorConfigObject "vectorConfig marshalledMap"

fun monitoringKind :: "monitoringObject \<Rightarrow> string" where
  "monitoringKind (ServiceMonitorObject _) = ''ServiceMonitor''"
| "monitoringKind (DashboardObject _) = ''ConfigMap''"
| "monitoringKind (ScrapeConfigObject _) = ''ConfigMap''"
| "monitoringKind (VMAgentObject _) = ''Deployment''"
| "monitoringKind (VectorConfigObject _) = ''ConfigMap''"

fun monitoringName :: "monitoringObject \<Rightarrow> string" where
  "monitoringName (ServiceMonitorObject s) = smoName s"
| "monitoringName (DashboardObject d) = cmName (fst d)"
| "monitoringName (ScrapeConfigObject c) = mmName c"
| "monitoringName (VMAgentObject d) = deName d"
| "monitoringName (VectorConfigObject c) = mmName c"

text \<open>An object that is built only when it is wanted; \<^term>\<open>None\<close> when its builder panics.\<close>

definition builtIf :: "bool \<Rightarrow> ('a \<Rightarrow> monitoringObject) \<Rightarrow> 'a option \<Rightarrow> monitoringObject list option" where
  "builtIf wanted obj built = (if wanted then map_option (\<lambda>x. [obj x]) built else Some [])"

definition desiredMonitoring ::
  "bool \<Rightarrow> string \<Rightarrow> MemgraphDBCluster \<Rightarrow> int32 \<Rightarrow> int32 \<Rightarrow> monitoringObject list option" where
  "desiredMonitoring serviceMonitorAPI grafanaDashboardJSON cluster coordinatorReplicas dataReplicas =
     Option.bind (builtIf (UsesServiceMonitor cluster \<and> serviceMonitorAPI) ServiceMonitorObject (ServiceMonitor cluster)) (\<lambda>monitors.
     Option.bind (builtIf (UsesGrafanaDashboard cluster) DashboardObject (GrafanaDashboard grafanaDashboardJSON cluster)) (\<lambda>dashboards.
     Option.bind (builtIf (UsesVMAgent cluster) ScrapeConfigObject (VMAgentConfigMap cluster coordinatorReplicas dataReplicas)) (\<lambda>configs.
     Option.bind (builtIf (UsesVMAgent cluster) VMAgentObject (VMAgentDeployment cluster)) (\<lambda>agents.
     Option.bind (builtIf (UsesVector cluster) VectorConfigObject (VectorConfigMap cluster)) (\<lambda>vectors.
     Some (monitors @ dashboards @ configs @ agents @ vectors))))))"

section \<open>What a pass prunes\<close>

definition pruneMonitoring ::
  "bool \<Rightarrow> pruneServer \<Rightarrow> MemgraphDBCluster \<Rightarrow> string \<Rightarrow> monitoringObject list \<Rightarrow> goerror option \<times> deletion list" where
  "pruneMonitoring serviceMonitorAPI srv cluster clusterUID desired =
     pruneKinds srv cluster clusterUID
       ([''ConfigMap'', ''Deployment''] @ (if serviceMonitorAPI then [''ServiceMonitor''] else []))
       (MonitoringSelector cluster) (set (map (\<lambda>obj. monitoringKind obj @ ''/'' @ monitoringName obj) desired))"

section \<open>When the builders panic\<close>

text \<open>The counts of pods fit the capacity of the list of scrape targets, an \<open>int32\<close>.\<close>

definition scrapable :: "MemgraphDBCluster \<Rightarrow> int32 \<Rightarrow> int32 \<Rightarrow> bool" where
  "scrapable cluster coordinatorReplicas dataReplicas \<longleftrightarrow>
     (UsesVMAgent cluster \<longrightarrow> 0 \<le> wrap32 (coordinatorReplicas + dataReplicas))"

lemma wanted_blocks:
  "UsesServiceMonitor cluster \<longleftrightarrow> nmoServiceMonitor (nMonitoring (normalize (mcSpec cluster))) \<noteq> None"
  "UsesGrafanaDashboard cluster \<longleftrightarrow> nmoGrafanaDashboard (nMonitoring (normalize (mcSpec cluster))) \<noteq> None"
  "UsesVMAgent cluster \<longleftrightarrow> nmoVMAgent (nMonitoring (normalize (mcSpec cluster))) \<noteq> None"
  "UsesVector cluster \<longleftrightarrow> nmoVector (nMonitoring (normalize (mcSpec cluster))) \<noteq> None"
  by (auto simp: UsesServiceMonitor_def UsesGrafanaDashboard_def UsesVMAgent_def UsesVector_def normalize_def
      normalizeMonitoring_def split: option.split)

lemma builtIf_simps [simp]:
  "builtIf False obj built = Some []" "builtIf True obj (Some x) = Some [obj x]" "builtIf True obj None = None"
  by (simp_all add: builtIf_def)

text \<open>The objects by kind and name, when nothing panics.\<close>

lemma desiredMonitoring_names:
  assumes "desiredMonitoring sm json cluster coordinators data = Some objs"
  shows "map (\<lambda>obj. (monitoringKind obj, monitoringName obj)) objs =
      (if UsesServiceMonitor cluster \<and> sm then [(''ServiceMonitor'', ServiceMonitorName cluster)] else [])
      @ (if UsesGrafanaDashboard cluster then [(''ConfigMap'', GrafanaDashboardName cluster)] else [])
      @ (if UsesVMAgent cluster then [(''ConfigMap'', VMAgentConfigName cluster), (''Deployment'', VMAgentName cluster)] else [])
      @ (if UsesVector cluster then [(''ConfigMap'', VectorConfigName cluster)] else [])"
proof -
  from assms obtain a b c d e where parts:
    "builtIf (UsesServiceMonitor cluster \<and> sm) ServiceMonitorObject (ServiceMonitor cluster) = Some a"
    "builtIf (UsesGrafanaDashboard cluster) DashboardObject (GrafanaDashboard json cluster) = Some b"
    "builtIf (UsesVMAgent cluster) ScrapeConfigObject (VMAgentConfigMap cluster coordinators data) = Some c"
    "builtIf (UsesVMAgent cluster) VMAgentObject (VMAgentDeployment cluster) = Some d"
    "builtIf (UsesVector cluster) VectorConfigObject (VectorConfigMap cluster) = Some e" "objs = a @ b @ c @ d @ e"
    by (auto simp: desiredMonitoring_def bind_eq_Some_conv)
  have "map (\<lambda>obj. (monitoringKind obj, monitoringName obj)) a =
      (if UsesServiceMonitor cluster \<and> sm then [(''ServiceMonitor'', ServiceMonitorName cluster)] else [])"
    using parts(1) by (auto simp: builtIf_def ServiceMonitor_def Let_def split: if_splits)
  moreover have "map (\<lambda>obj. (monitoringKind obj, monitoringName obj)) b =
      (if UsesGrafanaDashboard cluster then [(''ConfigMap'', GrafanaDashboardName cluster)] else [])"
    using parts(2) by (auto simp: builtIf_def GrafanaDashboard_def split: if_splits)
  moreover have "map (\<lambda>obj. (monitoringKind obj, monitoringName obj)) c =
      (if UsesVMAgent cluster then [(''ConfigMap'', VMAgentConfigName cluster)] else [])"
    using parts(3) by (auto simp: builtIf_def VMAgentConfigMap_def Let_def split: if_splits)
  moreover have "map (\<lambda>obj. (monitoringKind obj, monitoringName obj)) d =
      (if UsesVMAgent cluster then [(''Deployment'', VMAgentName cluster)] else [])"
    using parts(4) by (auto simp: builtIf_def VMAgentDeployment_def Let_def split: if_splits)
  moreover have "map (\<lambda>obj. (monitoringKind obj, monitoringName obj)) e =
      (if UsesVector cluster then [(''ConfigMap'', VectorConfigName cluster)] else [])"
    using parts(5) by (auto simp: builtIf_def VectorConfigMap_def Let_def split: if_splits)
  ultimately show ?thesis by (simp add: parts(6))
qed

text \<open>The builders return exactly when the scrape targets fit: every block that is read is there.\<close>

lemma desiredMonitoring_returns:
  "(\<exists>objs. desiredMonitoring sm json cluster coordinators data = Some objs) \<longleftrightarrow> scrapable cluster coordinators data"
proof -
  have "UsesServiceMonitor cluster \<and> sm \<Longrightarrow> ServiceMonitor cluster \<noteq> None"
    by (auto simp: wanted_blocks ServiceMonitor_def Let_def)
  moreover have "UsesGrafanaDashboard cluster \<Longrightarrow> GrafanaDashboard json cluster \<noteq> None"
    by (auto simp: wanted_blocks GrafanaDashboard_def)
  moreover have "UsesVMAgent cluster \<Longrightarrow> VMAgentDeployment cluster \<noteq> None"
    by (auto simp: wanted_blocks VMAgentDeployment_def Let_def)
  moreover have "UsesVector cluster \<Longrightarrow> VectorConfigMap cluster \<noteq> None"
    by (auto simp: wanted_blocks VectorConfigMap_def Let_def)
  ultimately have parts: "\<exists>a. builtIf (UsesServiceMonitor cluster \<and> sm) ServiceMonitorObject (ServiceMonitor cluster) = Some a"
    "\<exists>b. builtIf (UsesGrafanaDashboard cluster) DashboardObject (GrafanaDashboard json cluster) = Some b"
    "\<exists>d. builtIf (UsesVMAgent cluster) VMAgentObject (VMAgentDeployment cluster) = Some d"
    "\<exists>e. builtIf (UsesVector cluster) VectorConfigObject (VectorConfigMap cluster) = Some e"
    by (auto simp: builtIf_def)
  have "(\<exists>c. builtIf (UsesVMAgent cluster) ScrapeConfigObject (VMAgentConfigMap cluster coordinators data) = Some c)
      \<longleftrightarrow> scrapable cluster coordinators data"
    by (auto simp: builtIf_def scrapable_def wanted_blocks VMAgentConfigMap_def Let_def not_less)
  with parts show ?thesis by (auto simp: desiredMonitoring_def bind_eq_Some_conv)
qed

lemma scrapable_small:
  assumes "0 \<le> coordinators" "0 \<le> data" "coordinators + data \<le> int32_max"
  shows "scrapable cluster coordinators data"
proof -
  have "wrap32 (coordinators + data) = coordinators + data"
    using assms by (intro wrap32_id) (simp add: is_int32_def int32_min_def)
  with assms show ?thesis by (simp add: scrapable_def)
qed

end
