(* ===== verification/System_User.thy ===== *)
theory System_User
  imports Desired_Monitoring "HOL-Library.Word"
begin

text \<open>
  The system user the operator logs in as: \<open>src/internal/controller/systemuser.go\<close>, and the server-side
  apply every step of a pass goes through, \<open>applyDesired\<close> of \<open>memgraphdbcluster_controller.go\<close>.

  Outside the code are the API server, what it answers to get, create and apply and how its state of any
  type changes (\<open>secretAPI\<close>), and the cryptography (\<open>crypto\<close>): the random source, PBKDF2 and bcrypt. The
  hex and base64 encodings of Go's library are written out. \<open>controllerutil.SetControllerReference\<close> fails
  on a programming error only and is left out.
\<close>

section \<open>Applying objects\<close>

datatype desiredObject =
    ServiceOf Service_ | ConfigMapOf ConfigMap | StatefulSetOf builtSet | SecretOf Secret_
  | ExternalOf extObject | MonitoringOf monitoringObject

fun desiredKind :: "desiredObject \<Rightarrow> string" where
  "desiredKind (ServiceOf _) = ''Service''"
| "desiredKind (ConfigMapOf _) = ''ConfigMap''"
| "desiredKind (StatefulSetOf _) = ''StatefulSet''"
| "desiredKind (SecretOf _) = ''Secret''"
| "desiredKind (ExternalOf obj) = objectKind obj"
| "desiredKind (MonitoringOf obj) = monitoringKind obj"

fun desiredName :: "desiredObject \<Rightarrow> string" where
  "desiredName (ServiceOf s) = svName s"
| "desiredName (ConfigMapOf c) = cmName c"
| "desiredName (StatefulSetOf s) = bsName s"
| "desiredName (SecretOf s) = seName s"
| "desiredName (ExternalOf obj) = objectName obj"
| "desiredName (MonitoringOf obj) = monitoringName obj"

definition appliedKey :: "desiredObject \<Rightarrow> string" where
  "appliedKey obj = desiredKind obj @ ''/'' @ desiredName obj"

type_synonym appliedObjects = "string \<Rightarrow> written option"

type_synonym 's applyCall = "desiredObject \<Rightarrow> 's \<Rightarrow> (goerror + written) \<times> 's"

text \<open>\<open>%T\<close> prints the Go type, and every package of the API types is named \<open>v1\<close>.\<close>

definition applyError :: "desiredObject \<Rightarrow> goerror \<Rightarrow> goerror" where
  "applyError obj e = ''applying *v1.'' @ desiredKind obj @ '' '' @ desiredName obj @ '': '' @ e"

definition applyFailedReport :: "MemgraphDBCluster \<Rightarrow> goerror \<Rightarrow> reports" where
  "applyFailedReport cluster e =
     [(lastObserved cluster, [notServingCondition ReasonApplyFailed (truncateMessage e),
        notConvergedCondition ReasonApplyFailed (truncateMessage e)])]"

text \<open>The result of an apply: the objects as the server answered, the report of a refusal, what was sent.\<close>

fun applyObjects ::
  "'s applyCall \<Rightarrow> MemgraphDBCluster \<Rightarrow> desiredObject list \<Rightarrow> appliedObjects \<Rightarrow> 's
     \<Rightarrow> (goerror + appliedObjects) \<times> reports \<times> desiredObject list \<times> 's" where
  "applyObjects call cluster [] applied s = (Inr applied, [], [], s)"
| "applyObjects call cluster (obj # objs) applied s =
     (case call obj s of
        (Inl e, s') \<Rightarrow> (Inl (applyError obj e), applyFailedReport cluster (applyError obj e), [obj], s')
      | (Inr w, s') \<Rightarrow> (case applyObjects call cluster objs (applied(appliedKey obj \<mapsto> w)) s' of
          (result, reports, sent, s'') \<Rightarrow> (result, reports, obj # sent, s'')))"

definition applyDesired ::
  "'s applyCall \<Rightarrow> MemgraphDBCluster \<Rightarrow> desiredObject list \<Rightarrow> 's
     \<Rightarrow> (goerror + appliedObjects) \<times> reports \<times> desiredObject list \<times> 's" where
  "applyDesired call cluster desired s = applyObjects call cluster desired Map.empty s"

definition appliedSet :: "appliedObjects \<Rightarrow> string \<Rightarrow> int64" where
  "appliedSet applied name = (case applied (''StatefulSet/'' @ name) of Some w \<Rightarrow> wGeneration w | None \<Rightarrow> 0)"

section \<open>Encodings\<close>

text \<open>\<open>hex.EncodeToString\<close> and \<open>hex.DecodeString\<close>, which reads upper case too.\<close>

definition hexEncode :: "8 word list \<Rightarrow> string" where
  "hexEncode bytes = concat (map (\<lambda>b. [hexDigit (unat b div 16), hexDigit (unat b mod 16)]) bytes)"

definition fromHexChar :: "char \<Rightarrow> nat option" where
  "fromHexChar c = (let n = of_char c :: nat in
     if 48 \<le> n \<and> n \<le> 57 then Some (n - 48)
     else if 97 \<le> n \<and> n \<le> 102 then Some (n - 87)
     else if 65 \<le> n \<and> n \<le> 70 then Some (n - 55) else None)"

fun hexDecode :: "string \<Rightarrow> 8 word list option" where
  "hexDecode [] = Some []"
| "hexDecode [c] = None"
| "hexDecode (a # b # cs) = (case (fromHexChar a, fromHexChar b) of
     (Some x, Some y) \<Rightarrow> map_option (\<lambda>bs. word_of_nat (16 * x + y) # bs) (hexDecode cs)
   | _ \<Rightarrow> None)"

text \<open>\<open>base64.RawURLEncoding.EncodeToString\<close>: four characters per three bytes, no padding.\<close>

definition base64Alphabet :: string where
  "base64Alphabet = ''ABCDEFGHIJKLMNOPQRSTUVWXYZabcdefghijklmnopqrstuvwxyz0123456789-_''"

definition base64Char :: "nat \<Rightarrow> char" where
  "base64Char n = base64Alphabet ! (n mod 64)"

fun rawURLEncode :: "8 word list \<Rightarrow> string" where
  "rawURLEncode [] = []"
| "rawURLEncode [a] = [base64Char (unat a div 4), base64Char (unat a * 16)]"
| "rawURLEncode [a, b] = [base64Char (unat a div 4), base64Char (unat a * 16 + unat b div 16), base64Char (unat b * 4)]"
| "rawURLEncode (a # b # c # bytes) = base64Char (unat a div 4) # base64Char (unat a * 16 + unat b div 16)
     # base64Char (unat b * 4 + unat c div 64) # base64Char (unat c) # rawURLEncode bytes"

section \<open>Hashing\<close>

record crypto =
  cyRandom :: "nat \<Rightarrow> goerror + 8 word list"
  cyPBKDF2 :: "string \<Rightarrow> 8 word list \<Rightarrow> goerror + 8 word list"
  cyBcrypt :: "string \<Rightarrow> goerror + string"
  cyCompare :: "string \<Rightarrow> string \<Rightarrow> bool"

definition systemUserBcryptPasswordBytes :: nat where "systemUserBcryptPasswordBytes = 32"
definition bcryptPrefix :: string where "bcryptPrefix = ''bcrypt:''"
definition pbkdf2Prefix :: string where "pbkdf2Prefix = ''pbkdf2-sha256:''"
definition pbkdf2Iterations :: int where "pbkdf2Iterations = 600000"
definition pbkdf2SaltBytes :: nat where "pbkdf2SaltBytes = 16"
definition SystemUserName :: string where "SystemUserName = ''memgraph_internal''"

definition pbkdf2Literal :: "8 word list \<Rightarrow> 8 word list \<Rightarrow> string" where
  "pbkdf2Literal salt key = pbkdf2Prefix @ itoa pbkdf2Iterations @ '':'' @ hexEncode salt @ '':'' @ hexEncode key"

definition trimPrefix :: "string \<Rightarrow> string \<Rightarrow> string" where
  "trimPrefix s p = (case cutPrefix s p of Some rest \<Rightarrow> rest | None \<Rightarrow> s)"

definition pbkdf2HashMatches :: "crypto \<Rightarrow> string \<Rightarrow> string \<Rightarrow> bool" where
  "pbkdf2HashMatches cy hash password =
     (case cut (trimPrefix hash (pbkdf2Prefix @ itoa pbkdf2Iterations @ '':'')) '':'' of
        None \<Rightarrow> False
      | Some (saltHex, keyHex) \<Rightarrow> (case (hexDecode saltHex, hexDecode keyHex) of
          (Some salt, Some key) \<Rightarrow>
            if length salt \<noteq> pbkdf2SaltBytes \<or> pbkdf2Literal salt key \<noteq> hash then False
            else cyPBKDF2 cy password salt = Inr key
        | _ \<Rightarrow> False))"

definition systemUserHashMatches :: "crypto \<Rightarrow> string \<Rightarrow> string \<Rightarrow> bool \<Rightarrow> bool" where
  "systemUserHashMatches cy hash password fips =
     (if fips then pbkdf2HashMatches cy hash password
      else case cutPrefix hash bcryptPrefix of Some bcryptHash \<Rightarrow> cyCompare cy bcryptHash password | None \<Rightarrow> False)"

definition hashSystemUserPassword :: "crypto \<Rightarrow> string \<Rightarrow> bool \<Rightarrow> goerror + string" where
  "hashSystemUserPassword cy password fips =
     (if fips then
        case cyRandom cy pbkdf2SaltBytes of
          Inl e \<Rightarrow> Inl (''generating the system user's salt: '' @ e)
        | Inr salt \<Rightarrow> (case cyPBKDF2 cy password salt of
            Inl e \<Rightarrow> Inl (''hashing the system user's password: '' @ e)
          | Inr key \<Rightarrow> Inr (pbkdf2Literal salt key))
      else case cyBcrypt cy password of
          Inl e \<Rightarrow> Inl (''hashing the system user's password: '' @ e)
        | Inr hash \<Rightarrow> Inr (bcryptPrefix @ hash))"

definition systemUserHashAlgorithm :: "bool \<Rightarrow> string" where
  "systemUserHashAlgorithm fips = (if fips then ''pbkdf2-sha256'' else ''bcrypt'')"

section \<open>The two Secrets\<close>

datatype createAnswer = Created | AlreadyExists | CreateFailed goerror

record 's secretAPI =
  saGet :: "string \<Rightarrow> 's \<Rightarrow> stringMap getResult"
  saCreate :: "Secret_ \<Rightarrow> 's \<Rightarrow> createAnswer \<times> 's"
  saApply :: "'s applyCall"

type_synonym podLister = "stringMap \<Rightarrow> goerror + container list list"

definition EventReasonSystemUserCreated :: string where "EventReasonSystemUserCreated = ''SystemUserCreated''"
definition EventReasonSystemUserHashCreated :: string where "EventReasonSystemUserHashCreated = ''SystemUserHashCreated''"
definition EventReasonSystemUserHashUpdated :: string where "EventReasonSystemUserHashUpdated = ''SystemUserHashUpdated''"

definition secretRef :: "Secret_ \<Rightarrow> objectRef" where
  "secretRef secret = (''Secret'', seNamespace secret, seName secret)"

text \<open>The API server's error for an object that is gone.\<close>

definition secretNotFound :: "string \<Rightarrow> goerror" where
  "secretNotFound name = ''secrets '' @ goQuote name @ '' not found''"

definition createSystemUserSecret ::
  "crypto \<Rightarrow> 's secretAPI \<Rightarrow> MemgraphDBCluster \<Rightarrow> 's \<Rightarrow> (goerror + stringMap) \<times> Event list \<times> 's" where
  "createSystemUserSecret cy api cluster s =
     (case cyRandom cy systemUserBcryptPasswordBytes of
        Inl e \<Rightarrow> (Inl (''generating the system user's password: '' @ e), [], s)
      | Inr random \<Rightarrow>
          let secret = SystemUserSecret cluster (rawURLEncode random) in
          case saCreate api secret s of
            (AlreadyExists, s') \<Rightarrow> (case saGet api (seName secret) s' of
                Found existing \<Rightarrow> (Inr existing, [], s')
              | NotFound \<Rightarrow> (Inl (secretNotFound (seName secret)), [], s')
              | Failed e \<Rightarrow> (Inl e, [], s'))
          | (CreateFailed e, s') \<Rightarrow> (Inl (''creating Secret '' @ seName secret @ '': '' @ e), [], s')
          | (Created, s') \<Rightarrow> (Inr (seData secret), [event (Some (secretRef secret)) EventReasonSystemUserCreated
              ''CreateSystemUser'' (''Generated the password of system user '' @ SystemUserName @ '' in Secret ''
                @ seName secret)], s'))"

definition systemUserPassword ::
  "crypto \<Rightarrow> 's secretAPI \<Rightarrow> MemgraphDBCluster \<Rightarrow> 's \<Rightarrow> (goerror + string) \<times> Event list \<times> 's" where
  "systemUserPassword cy api cluster s =
     (let name = SystemUserSecretName cluster;
          (read, events, s') = (case saGet api name s of
              NotFound \<Rightarrow> createSystemUserSecret cy api cluster s
            | Found secret \<Rightarrow> (Inr secret, [], s)
            | Failed e \<Rightarrow> (Inl e, [], s)) in
      case read of
        Inl e \<Rightarrow> (Inl (''reading Secret '' @ name @ '': '' @ e), events, s')
      | Inr secret \<Rightarrow>
          let password = get secret SystemUserPasswordKey in
          if password = [] then (Inl (''secret '' @ name @ '' holds no '' @ goQuote SystemUserPasswordKey
            @ '' key; delete it and the operator generates a new password''), events, s')
          else (Inr password, events, s'))"

fun anyRunsFIPS :: "podLister \<Rightarrow> stringMap list \<Rightarrow> goerror + bool" where
  "anyRunsFIPS lister [] = Inr False"
| "anyRunsFIPS lister (selector # selectors) =
     (case lister selector of
        Inl e \<Rightarrow> Inl (''listing pods: '' @ e)
      | Inr pods \<Rightarrow> if \<exists>pod \<in> set pods. RunsInFIPSMode pod then Inr True else anyRunsFIPS lister selectors)"

definition systemUserNeedsPBKDF2 :: "podLister \<Rightarrow> MemgraphDBCluster \<Rightarrow> goerror + bool" where
  "systemUserNeedsPBKDF2 lister cluster =
     (if spFIPS (mcSpec cluster) \<noteq> None then Inr True
      else anyRunsFIPS lister [CoordinatorPodSelector cluster, DataPodSelector cluster])"

text \<open>A step of the pass on the Secrets: the password, what was reported and sent, the Events, the state.\<close>

record 's userResult =
  urPassword :: "goerror + string"
  urReports :: reports
  urSent :: "desiredObject list"
  urEvents :: "Event list"
  urState :: 's

text \<open>The Event of a hash that has landed, by what the hash Secret was before.\<close>

definition hashEvent :: "MemgraphDBCluster \<Rightarrow> bool \<Rightarrow> stringMap getResult \<Rightarrow> string \<Rightarrow> Event" where
  "hashEvent cluster fips current hash =
     (let ref = Some (secretRef (SystemUserHashSecret cluster hash)); name = SystemUserHashSecretName cluster in
      if current = NotFound then event ref EventReasonSystemUserHashCreated ''CreateSystemUserHash''
        (''Wrote a '' @ systemUserHashAlgorithm fips @ '' hash of the password of system user ''
          @ SystemUserName @ '' into the new Secret '' @ name)
      else event ref EventReasonSystemUserHashUpdated ''UpdateSystemUserHash''
        (''Updated the hash of system user '' @ SystemUserName @ '' in Secret '' @ name @ '' to a ''
          @ systemUserHashAlgorithm fips @ '' hash of its password''))"

definition userFailed :: "goerror \<Rightarrow> Event list \<Rightarrow> 's \<Rightarrow> 's userResult" where
  "userFailed e events s = \<lparr>urPassword = Inl e, urReports = [], urSent = [], urEvents = events, urState = s\<rparr>"

definition storeHash ::
  "'s secretAPI \<Rightarrow> MemgraphDBCluster \<Rightarrow> string \<Rightarrow> Event list \<Rightarrow> 's \<Rightarrow> string \<Rightarrow> Event list \<Rightarrow> 's userResult" where
  "storeHash api cluster password events s hash landed =
     (case applyDesired (saApply api) cluster [SecretOf (SystemUserHashSecret cluster hash)] s of
        (Inl e, reports, sent, s') \<Rightarrow>
          \<lparr>urPassword = Inl e, urReports = reports, urSent = sent, urEvents = events, urState = s'\<rparr>
      | (Inr _, reports, sent, s') \<Rightarrow>
          \<lparr>urPassword = Inr password, urReports = reports, urSent = sent, urEvents = events @ landed, urState = s'\<rparr>)"

definition hashReadError :: "MemgraphDBCluster \<Rightarrow> goerror \<Rightarrow> goerror" where
  "hashReadError cluster e = ''reading Secret '' @ SystemUserHashSecretName cluster @ '': '' @ e"

definition reconcileSystemUser ::
  "crypto \<Rightarrow> 's secretAPI \<Rightarrow> podLister \<Rightarrow> MemgraphDBCluster \<Rightarrow> 's \<Rightarrow> 's userResult" where
  "reconcileSystemUser cy api lister cluster s =
     (case systemUserPassword cy api cluster s of
        (Inl e, events, s1) \<Rightarrow> userFailed e events s1
      | (Inr password, events, s1) \<Rightarrow>
      (case systemUserNeedsPBKDF2 lister cluster of
        Inl e \<Rightarrow> userFailed e events s1
      | Inr fips \<Rightarrow>
          let current = saGet api (SystemUserHashSecretName cluster) s1;
              rewrite = (case hashSystemUserPassword cy password fips of
                Inl e \<Rightarrow> userFailed e events s1
              | Inr hash \<Rightarrow> storeHash api cluster password events s1 hash [hashEvent cluster fips current hash]) in
          case current of
            Failed e \<Rightarrow> userFailed (hashReadError cluster e) events s1
          | NotFound \<Rightarrow> rewrite
          | Found secret \<Rightarrow>
              if systemUserHashMatches cy (get secret SystemUserHashKey) password fips
              then storeHash api cluster password events s1 (get secret SystemUserHashKey) [] else rewrite))"

section \<open>The encodings\<close>

lemma hexDigits: "\<forall>n \<in> set [0..<16]. fromHexChar (hexDigit n) = Some n \<and> CHR '':'' \<noteq> hexDigit n"
  by code_simp

lemma hexDigit_round_trip: "n < 16 \<Longrightarrow> fromHexChar (hexDigit n) = Some n"
  and hexDigit_not_colon: "n < 16 \<Longrightarrow> CHR '':'' \<noteq> hexDigit n"
  using hexDigits by simp_all

lemma unat_byte: "unat (b :: 8 word) < 256"
  using unsigned_less [of b, where 'a = nat] by simp

lemma hexEncode_Cons: "hexEncode (b # bs) = hexDigit (unat b div 16) # hexDigit (unat b mod 16) # hexEncode bs"
  by (simp add: hexEncode_def)

lemma hexDecode_hexEncode: "hexDecode (hexEncode bytes) = Some bytes"
proof (induction bytes)
  case (Cons b bs)
  have "unat b div 16 < 16" using unat_byte [of b] by simp
  moreover have "word_of_nat (16 * (unat b div 16) + unat b mod 16) = b" by simp
  ultimately show ?case using Cons by (simp add: hexEncode_Cons hexDigit_round_trip del: mult_div_mod_eq)
qed (simp add: hexEncode_def)

lemma hexEncode_no_colon: "CHR '':'' \<notin> set (hexEncode bytes)"
proof (induction bytes)
  case (Cons b bs)
  have "unat b div 16 < 16" using unat_byte [of b] by simp
  with Cons show ?case by (simp add: hexEncode_Cons hexDigit_not_colon)
qed (simp add: hexEncode_def)

lemma rawURLEncode_length: "length (rawURLEncode bytes) = (4 * length bytes + 2) div 3"
  by (induction bytes rule: rawURLEncode.induct) simp_all

section \<open>A hash and its password\<close>

definition lawfulCrypto :: "crypto \<Rightarrow> bool" where
  "lawfulCrypto cy \<longleftrightarrow> (\<forall>password hash. cyBcrypt cy password = Inr hash \<longrightarrow> cyCompare cy hash password)
     \<and> (\<forall>n bytes. cyRandom cy n = Inr bytes \<longrightarrow> length bytes = n)"

lemma pbkdf2HashMatches_iff:
  "pbkdf2HashMatches cy hash password \<longleftrightarrow>
     (\<exists>salt key. length salt = pbkdf2SaltBytes \<and> hash = pbkdf2Literal salt key \<and> cyPBKDF2 cy password salt = Inr key)"
proof
  assume "pbkdf2HashMatches cy hash password"
  then obtain saltHex keyHex where
    "(case (hexDecode saltHex, hexDecode keyHex) of (Some salt, Some key) \<Rightarrow>
        if length salt \<noteq> pbkdf2SaltBytes \<or> pbkdf2Literal salt key \<noteq> hash then False else cyPBKDF2 cy password salt = Inr key
      | _ \<Rightarrow> False)"
    unfolding pbkdf2HashMatches_def by (metis (no_types, lifting) option.case_eq_if prod.case_eq_if)
  then obtain salt key where "hexDecode saltHex = Some salt" "hexDecode keyHex = Some key"
    "length salt = pbkdf2SaltBytes" "pbkdf2Literal salt key = hash" "cyPBKDF2 cy password salt = Inr key"
    by (cases "hexDecode saltHex"; cases "hexDecode keyHex") (auto split: if_splits)
  then show "\<exists>salt key. length salt = pbkdf2SaltBytes \<and> hash = pbkdf2Literal salt key \<and> cyPBKDF2 cy password salt = Inr key"
    by blast
next
  assume "\<exists>salt key. length salt = pbkdf2SaltBytes \<and> hash = pbkdf2Literal salt key \<and> cyPBKDF2 cy password salt = Inr key"
  then obtain salt key where h: "length salt = pbkdf2SaltBytes" "hash = pbkdf2Literal salt key" "cyPBKDF2 cy password salt = Inr key"
    by blast
  have "trimPrefix hash (pbkdf2Prefix @ itoa pbkdf2Iterations @ '':'') = hexEncode salt @ CHR '':'' # hexEncode key"
    using cutPrefix_append [of "pbkdf2Prefix @ itoa pbkdf2Iterations @ '':''" "hexEncode salt @ CHR '':'' # hexEncode key"]
    by (simp add: trimPrefix_def h(2) pbkdf2Literal_def)
  moreover have "cut (hexEncode salt @ CHR '':'' # hexEncode key) '':'' = Some (hexEncode salt, hexEncode key)"
    by (rule cut_at [OF hexEncode_no_colon])
  ultimately show "pbkdf2HashMatches cy hash password"
    using h by (simp add: pbkdf2HashMatches_def hexDecode_hexEncode)
qed

lemma literal_not_bcrypt: "cutPrefix (pbkdf2Literal salt key) bcryptPrefix = None"
  by (simp add: pbkdf2Literal_def pbkdf2Prefix_def bcryptPrefix_def)

lemma hash_matches:
  assumes "lawfulCrypto cy" and "hashSystemUserPassword cy password fips = Inr hash"
  shows "systemUserHashMatches cy hash password fips" and "\<not> systemUserHashMatches cy hash password (\<not> fips)"
proof -
  have "systemUserHashMatches cy hash password fips \<and> \<not> systemUserHashMatches cy hash password (\<not> fips)"
  proof (cases fips)
    case True
    with assms(2) obtain salt key where "cyRandom cy pbkdf2SaltBytes = Inr salt" "cyPBKDF2 cy password salt = Inr key"
      "hash = pbkdf2Literal salt key" by (auto simp: hashSystemUserPassword_def split: sum.splits)
    moreover from this(1) assms(1) have "length salt = pbkdf2SaltBytes" by (simp add: lawfulCrypto_def)
    ultimately have "pbkdf2HashMatches cy hash password" unfolding pbkdf2HashMatches_iff by blast
    with True \<open>hash = pbkdf2Literal salt key\<close> show ?thesis by (simp add: systemUserHashMatches_def literal_not_bcrypt)
  next
    case False
    with assms(2) obtain h where h: "cyBcrypt cy password = Inr h" "hash = bcryptPrefix @ h"
      by (auto simp: hashSystemUserPassword_def split: sum.splits)
    have "hash \<noteq> pbkdf2Literal salt key" for salt key
      using literal_not_bcrypt [of salt key] cutPrefix_append [of bcryptPrefix h] h(2) by (metis option.distinct(1))
    with assms(1) False h show ?thesis by (auto simp: systemUserHashMatches_def lawfulCrypto_def pbkdf2HashMatches_iff)
  qed
  then show "systemUserHashMatches cy hash password fips" "\<not> systemUserHashMatches cy hash password (\<not> fips)" by blast+
qed

text \<open>
  C27: The hash the operator writes for the system user is accepted by its own check of that algorithm and
  refused by the check of the other one, so the hash is rewritten exactly when FIPS mode comes or goes. A
  literal in a Secret is taken for a PBKDF2 hash exactly when it is spelled as the operator writes one,
  with a salt of the full length, and its key derives from the password. The generated password has 43
  characters, inside the 72 bytes bcrypt reads.
\<close>

theorem system_user_hash_round_trip:
  assumes "lawfulCrypto cy"
  shows "(hashSystemUserPassword cy password fips = Inr hash \<longrightarrow>
        systemUserHashMatches cy hash password fips \<and> \<not> systemUserHashMatches cy hash password (\<not> fips))
    \<and> pbkdf2HashMatches cy literal password =
        (\<exists>salt key. length salt = pbkdf2SaltBytes \<and> literal = pbkdf2Literal salt key \<and> cyPBKDF2 cy password salt = Inr key)
    \<and> (cyRandom cy systemUserBcryptPasswordBytes = Inr random \<longrightarrow> length (rawURLEncode random) = 43)"
proof (intro conjI impI)
  assume "hashSystemUserPassword cy password fips = Inr hash"
  from hash_matches [OF assms this] show "systemUserHashMatches cy hash password fips"
    "\<not> systemUserHashMatches cy hash password (\<not> fips)" by blast+
next
  show "pbkdf2HashMatches cy literal password =
        (\<exists>salt key. length salt = pbkdf2SaltBytes \<and> literal = pbkdf2Literal salt key \<and> cyPBKDF2 cy password salt = Inr key)"
    by (rule pbkdf2HashMatches_iff)
next
  assume "cyRandom cy systemUserBcryptPasswordBytes = Inr random"
  with assms have "length random = 32" by (auto simp: lawfulCrypto_def systemUserBcryptPasswordBytes_def)
  then show "length (rawURLEncode random) = 43" by (simp add: rawURLEncode_length)
qed

text \<open>Deterministic stand-ins: zero bytes, a key that is the salt, and a hash that is the password.\<close>

definition exCrypto :: crypto where
  "exCrypto = \<lparr>cyRandom = (\<lambda>n. Inr (replicate n 0)), cyPBKDF2 = (\<lambda>_ salt. Inr salt), cyBcrypt = (\<lambda>password. Inr password),
     cyCompare = (\<lambda>hash password. hash = password)\<rparr>"

lemma exCrypto_lawful: "lawfulCrypto exCrypto"
  by (simp add: lawfulCrypto_def exCrypto_def)

lemma system_user_hash_round_trip_witness:
  "\<exists>hash. hashSystemUserPassword exCrypto ''secret'' True = Inr hash \<and> systemUserHashMatches exCrypto hash ''secret'' True
     \<and> \<not> systemUserHashMatches exCrypto hash ''secret'' False"
proof -
  have "hashSystemUserPassword exCrypto ''secret'' True = Inr (pbkdf2Literal (replicate pbkdf2SaltBytes 0) (replicate pbkdf2SaltBytes 0))"
    by (simp add: hashSystemUserPassword_def exCrypto_def)
  with system_user_hash_round_trip [OF exCrypto_lawful, where password = "''secret''" and fips = True] show ?thesis by auto
qed

section \<open>One password, and its hash in place\<close>

text \<open>
  What is relied on of the API server: \<open>stored\<close> is what its state holds. A get that answers tells it; a
  create never touches a Secret that is there; an apply that is accepted leaves the applied keys in the
  Secret, and no apply touches an object of another name.
\<close>

definition lawfulSecrets :: "'s secretAPI \<Rightarrow> (string \<Rightarrow> 's \<Rightarrow> stringMap option) \<Rightarrow> bool" where
  "lawfulSecrets api stored \<longleftrightarrow>
     (\<forall>name s data. saGet api name s = Found data \<longrightarrow> stored name s = Some data)
     \<and> (\<forall>name s. saGet api name s = NotFound \<longrightarrow> stored name s = None)
     \<and> (\<forall>secret s s'. saCreate api secret s = (Created, s') \<longrightarrow> stored (seName secret) s' = Some (seData secret))
     \<and> (\<forall>secret s name data. stored name s = Some data \<longrightarrow> stored name (snd (saCreate api secret s)) = Some data)
     \<and> (\<forall>secret s w s'. saApply api (SecretOf secret) s = (Inr w, s') \<longrightarrow> distinct (map fst (seData secret)) \<longrightarrow>
          (\<exists>data. stored (seName secret) s' = Some data \<and> (\<forall>(k, v) \<in> set (seData secret). get data k = v)))
     \<and> (\<forall>secret s name. name \<noteq> seName secret \<longrightarrow> stored name (snd (saApply api (SecretOf secret) s)) = stored name s)"

lemma lawfulSecrets_D:
  assumes "lawfulSecrets api stored"
  shows "saGet api name s = Found data \<Longrightarrow> stored name s = Some data"
    and "saGet api name s = NotFound \<Longrightarrow> stored name s = None"
    and "saCreate api secret s = (Created, s') \<Longrightarrow> stored (seName secret) s' = Some (seData secret)"
    and "saCreate api secret s = (answer, s') \<Longrightarrow> stored name s = Some data \<Longrightarrow> stored name s' = Some data"
    and "saApply api (SecretOf secret) s = (Inr w, s') \<Longrightarrow> distinct (map fst (seData secret)) \<Longrightarrow> (k, v) \<in> set (seData secret) \<Longrightarrow>
      \<exists>data. stored (seName secret) s' = Some data \<and> get data k = v"
    and "saApply api (SecretOf secret) s = (result, s') \<Longrightarrow> name \<noteq> seName secret \<Longrightarrow> stored name s' = stored name s"
proof -
  note law = assms [unfolded lawfulSecrets_def]
  note laws = law [THEN conjunct1] law [THEN conjunct2, THEN conjunct1] law [THEN conjunct2, THEN conjunct2, THEN conjunct1]
    law [THEN conjunct2, THEN conjunct2, THEN conjunct2, THEN conjunct1]
    law [THEN conjunct2, THEN conjunct2, THEN conjunct2, THEN conjunct2, THEN conjunct1]
    law [THEN conjunct2, THEN conjunct2, THEN conjunct2, THEN conjunct2, THEN conjunct2]
  show "saGet api name s = Found data \<Longrightarrow> stored name s = Some data" by (rule laws(1) [rule_format])
  show "saGet api name s = NotFound \<Longrightarrow> stored name s = None" by (rule laws(2) [rule_format])
  show "saCreate api secret s = (Created, s') \<Longrightarrow> stored (seName secret) s' = Some (seData secret)" by (rule laws(3) [rule_format])
  show "stored name s' = Some data" if "saCreate api secret s = (answer, s')" "stored name s = Some data"
    using laws(4) [rule_format, OF that(2), of secret] that(1) by simp
  show "\<exists>data. stored (seName secret) s' = Some data \<and> get data k = v"
    if sent: "saApply api (SecretOf secret) s = (Inr w, s')" and keys: "distinct (map fst (seData secret))" and kv: "(k, v) \<in> set (seData secret)"
  proof -
    from laws(5) [rule_format, OF sent keys] obtain data where data: "stored (seName secret) s' = Some data"
      "\<forall>(k, v) \<in> set (seData secret). get data k = v" by (elim exE conjE)
    from data(2) kv have "get data k = v" by (auto dest: bspec)
    with data(1) show ?thesis by (intro exI conjI)
  qed
  show "stored name s' = stored name s" if "saApply api (SecretOf secret) s = (result, s')" "name \<noteq> seName secret"
    using laws(6) [rule_format, OF that(2), of s] that(1) by simp
qed

lemma secret_names: "SystemUserSecretName cluster \<noteq> SystemUserHashSecretName cluster"
  unfolding SystemUserHashSecretName_def by simp

lemma secret_fields:
  "seName (SystemUserSecret cluster p) = SystemUserSecretName cluster"
  "seName (SystemUserHashSecret cluster h) = SystemUserHashSecretName cluster"
  "seData (SystemUserSecret cluster p) = [(SystemUserPasswordKey, p)]"
  "seData (SystemUserHashSecret cluster h) = [(SystemUserHashKey, h)]"
  by (simp_all add: SystemUserSecret_def SystemUserHashSecret_def systemUserSecret_def)

lemma createSystemUserSecret_stored:
  assumes "lawfulSecrets api stored" and "createSystemUserSecret cy api cluster s = (result, events, s')"
  shows "stored name s = Some data \<Longrightarrow> stored name s' = Some data"
    and "result = Inr secret \<Longrightarrow> stored (SystemUserSecretName cluster) s' = Some secret"
proof -
  have "(stored name s = Some data \<longrightarrow> stored name s' = Some data)
      \<and> (result = Inr secret \<longrightarrow> stored (SystemUserSecretName cluster) s' = Some secret)"
  proof (cases "cyRandom cy systemUserBcryptPasswordBytes")
    case (Inl e)
    with assms(2) show ?thesis by (auto simp: createSystemUserSecret_def)
  next
    case (Inr random)
    let ?new = "SystemUserSecret cluster (rawURLEncode random)"
    obtain answer s1 where sent: "saCreate api ?new s = (answer, s1)" by fastforce
    from assms(2) Inr sent have "s' = s1"
      by (simp add: createSystemUserSecret_def Let_def split: createAnswer.splits getResult.splits)
    moreover note lawfulSecrets_D(4) [OF assms(1) sent]
    moreover have "stored (SystemUserSecretName cluster) s1 = Some secret" if "result = Inr secret"
    proof (cases answer)
      case Created
      with assms(2) Inr sent that have "secret = seData ?new" by (simp add: createSystemUserSecret_def Let_def)
      moreover from Created sent have "saCreate api ?new s = (createAnswer.Created, s1)" by simp
      from lawfulSecrets_D(3) [OF assms(1) this] have "stored (SystemUserSecretName cluster) s1 = Some (seData ?new)"
        by (simp add: secret_fields)
      ultimately show ?thesis by simp
    next
      case AlreadyExists
      with assms(2) Inr sent that have "saGet api (seName ?new) s1 = Found secret"
        by (simp add: createSystemUserSecret_def Let_def split: getResult.splits)
      from lawfulSecrets_D(1) [OF assms(1) this] show ?thesis by (simp add: secret_fields)
    next
      case (CreateFailed e)
      with assms(2) Inr sent that show ?thesis by (simp add: createSystemUserSecret_def Let_def)
    qed
    ultimately show ?thesis by blast
  qed
  then show "stored name s = Some data \<Longrightarrow> stored name s' = Some data"
    and "result = Inr secret \<Longrightarrow> stored (SystemUserSecretName cluster) s' = Some secret" by blast+
qed

lemma systemUserPassword_stored:
  assumes "lawfulSecrets api stored" and "systemUserPassword cy api cluster s = (result, events, s')"
  shows "stored name s = Some data \<Longrightarrow> stored name s' = Some data"
    and "result = Inr password \<Longrightarrow>
      password \<noteq> [] \<and> (\<exists>secret. stored (SystemUserSecretName cluster) s' = Some secret \<and> get secret SystemUserPasswordKey = password)"
proof -
  have found: "\<lbrakk>password \<noteq> []; stored (SystemUserSecretName cluster) t = Some secret; get secret SystemUserPasswordKey = password\<rbrakk> \<Longrightarrow>
      password \<noteq> [] \<and> (\<exists>secret. stored (SystemUserSecretName cluster) t = Some secret \<and> get secret SystemUserPasswordKey = password)"
    for t secret by blast
  obtain read evs s1 where create: "createSystemUserSecret cy api cluster s = (read, evs, s1)" by (metis prod_cases3)
  note created = createSystemUserSecret_stored [OF assms(1) create]
  have "(stored name s = Some data \<longrightarrow> stored name s' = Some data) \<and> (result = Inr password \<longrightarrow>
      password \<noteq> [] \<and> (\<exists>secret. stored (SystemUserSecretName cluster) s' = Some secret \<and> get secret SystemUserPasswordKey = password))"
  proof (cases "saGet api (SystemUserSecretName cluster) s")
    case (Found secret)
    with assms(2) lawfulSecrets_D(1) [OF assms(1) Found] show ?thesis by (auto simp: systemUserPassword_def Let_def split: if_splits)
  next
    case NotFound
    with assms(2) create created show ?thesis
      by (auto simp: systemUserPassword_def Let_def split: sum.splits if_splits)
  next
    case (Failed e)
    with assms(2) show ?thesis by (auto simp: systemUserPassword_def Let_def)
  qed
  then show "stored name s = Some data \<Longrightarrow> stored name s' = Some data"
    and "result = Inr password \<Longrightarrow>
      password \<noteq> [] \<and> (\<exists>secret. stored (SystemUserSecretName cluster) s' = Some secret \<and> get secret SystemUserPasswordKey = password)"
    by blast+
qed

lemma applyDesired_one:
  "applyDesired call cluster [obj] s = (case call obj s of
     (Inl e, s') \<Rightarrow> (Inl (applyError obj e), applyFailedReport cluster (applyError obj e), [obj], s')
   | (Inr w, s') \<Rightarrow> (Inr [appliedKey obj \<mapsto> w], [], [obj], s'))"
  by (simp add: applyDesired_def split: prod.split sum.split)

text \<open>How a step ends: before the hash is sent, or with an apply of a hash that is kept or new.\<close>

lemma reconcileSystemUser_cases:
  fixes cy api lister cluster and s :: 's
  defines "r \<equiv> reconcileSystemUser cy api lister cluster s"
  obtains (fails) e read events s1 where "systemUserPassword cy api cluster s = (read, events, s1)" "r = userFailed e events s1"
  | (sends) password events s1 fips hash landed where
      "systemUserPassword cy api cluster s = (Inr password, events, s1)" "systemUserNeedsPBKDF2 lister cluster = Inr fips"
      "r = storeHash api cluster password events s1 hash landed"
      "landed = [] \<and> (\<exists>secret. saGet api (SystemUserHashSecretName cluster) s1 = Found secret
           \<and> hash = get secret SystemUserHashKey \<and> systemUserHashMatches cy hash password fips)
       \<or> landed \<noteq> [] \<and> hashSystemUserPassword cy password fips = Inr hash
         \<and> (\<forall>secret. saGet api (SystemUserHashSecretName cluster) s1 = Found secret \<longrightarrow>
              \<not> systemUserHashMatches cy (get secret SystemUserHashKey) password fips)"
proof -
  obtain read events s1 where p: "systemUserPassword cy api cluster s = (read, events, s1)" by (metis prod_cases3)
  have failed: thesis if "r = userFailed e events s1" for e by (rule fails [OF p that])
  show thesis
  proof (cases read)
    case (Inl e)
    with p show thesis by (intro failed [of e]) (simp add: r_def reconcileSystemUser_def)
  next
    case (Inr password)
    show thesis
    proof (cases "systemUserNeedsPBKDF2 lister cluster")
      case (Inl e)
      with p Inr show thesis by (intro failed [of e]) (simp add: r_def reconcileSystemUser_def)
    next
      case needs: (Inr fips)
      let ?current = "saGet api (SystemUserHashSecretName cluster) s1"
      have rewrite: thesis if r: "r = (case hashSystemUserPassword cy password fips of Inl e \<Rightarrow> userFailed e events s1
          | Inr hash \<Rightarrow> storeHash api cluster password events s1 hash [hashEvent cluster fips ?current hash])"
        and stale: "\<forall>secret. ?current = Found secret \<longrightarrow> \<not> systemUserHashMatches cy (get secret SystemUserHashKey) password fips"
      proof (cases "hashSystemUserPassword cy password fips")
        case (Inl e)
        with r show thesis by (intro failed [of e]) simp
      next
        case (Inr hash)
        with r stale p [unfolded \<open>read = Inr password\<close>] needs show thesis
          by (intro sends [of password events s1 fips hash "[hashEvent cluster fips ?current hash]"]) simp_all
      qed
      show thesis
      proof (cases ?current)
        case (Found secret)
        show thesis
        proof (cases "systemUserHashMatches cy (get secret SystemUserHashKey) password fips")
          case True
          with p Inr needs Found show thesis
            by (intro sends [of password events s1 fips "get secret SystemUserHashKey" "[]"])
              (simp_all add: r_def reconcileSystemUser_def)
        next
          case False
          with p Inr needs Found show thesis by (intro rewrite) (simp_all add: r_def reconcileSystemUser_def split: sum.split)
        qed
      next
        case NotFound
        with p Inr needs show thesis by (intro rewrite) (simp_all add: r_def reconcileSystemUser_def split: sum.split)
      next
        case (Failed e)
        with p Inr needs show thesis by (intro failed [of "hashReadError cluster e"]) (simp add: r_def reconcileSystemUser_def)
      qed
    qed
  qed
qed

lemma storeHash_outcome:
  assumes "lawfulSecrets api stored" and "r = storeHash api cluster password events s hash landed"
  shows "name \<noteq> SystemUserHashSecretName cluster \<Longrightarrow> stored name (urState r) = stored name s"
    and "urPassword r = Inr p \<Longrightarrow> p = password \<and> urReports r = [] \<and> urEvents r = events @ landed
      \<and> (\<exists>secret. stored (SystemUserHashSecretName cluster) (urState r) = Some secret \<and> get secret SystemUserHashKey = hash)"
proof -
  obtain answer s' where sent: "saApply api (SecretOf (SystemUserHashSecret cluster hash)) s = (answer, s')" by fastforce
  then have state: "urState r = s'" by (simp add: assms(2) storeHash_def applyDesired_one split: sum.split)
  show "stored name (urState r) = stored name s" if "name \<noteq> SystemUserHashSecretName cluster"
    using lawfulSecrets_D(6) [OF assms(1) sent] that state by (simp add: secret_fields)
  assume landed: "urPassword r = Inr p"
  with sent obtain w where answer: "answer = Inr w" by (cases answer) (simp_all add: assms(2) storeHash_def applyDesired_one)
  with sent landed have fields: "p = password" "urReports r = []" "urEvents r = events @ landed"
    by (simp_all add: assms(2) storeHash_def applyDesired_one)
  have "distinct (map fst (seData (SystemUserHashSecret cluster hash)))"
    "(SystemUserHashKey, hash) \<in> set (seData (SystemUserHashSecret cluster hash))" by (simp_all add: secret_fields)
  from lawfulSecrets_D(5) [OF assms(1) sent [unfolded answer] this] fields state
  show "p = password \<and> urReports r = [] \<and> urEvents r = events @ landed
      \<and> (\<exists>secret. stored (SystemUserHashSecretName cluster) (urState r) = Some secret \<and> get secret SystemUserHashKey = hash)"
    by (simp add: secret_fields)
qed

lemma reconcileSystemUser_keeps:
  assumes "lawfulSecrets api stored" and "stored (SystemUserSecretName cluster) s = Some secret"
  shows "stored (SystemUserSecretName cluster) (urState (reconcileSystemUser cy api lister cluster s)) = Some secret"
proof (cases rule: reconcileSystemUser_cases [where cy = cy and api = api and lister = lister and cluster = cluster and s = s])
  case (fails e read events s1)
  from systemUserPassword_stored(1) [OF assms(1) fails(1) assms(2)] fails(2) show ?thesis by (simp add: userFailed_def)
next
  case (sends password events s1 fips hash landed)
  from systemUserPassword_stored(1) [OF assms(1) sends(1) assms(2)] storeHash_outcome(1) [OF assms(1) sends(3) secret_names]
  show ?thesis by simp
qed

text \<open>What a step that succeeds leaves, and which password it hands on.\<close>

definition userSettled ::
  "crypto \<Rightarrow> (string \<Rightarrow> 's \<Rightarrow> stringMap option) \<Rightarrow> MemgraphDBCluster \<Rightarrow> string \<Rightarrow> bool \<Rightarrow> 's \<Rightarrow> bool" where
  "userSettled cy stored cluster password fips s \<longleftrightarrow> password \<noteq> []
     \<and> (\<exists>secret. stored (SystemUserSecretName cluster) s = Some secret \<and> get secret SystemUserPasswordKey = password)
     \<and> (\<exists>secret. stored (SystemUserHashSecretName cluster) s = Some secret
          \<and> systemUserHashMatches cy (get secret SystemUserHashKey) password fips)"

lemma reconcileSystemUser_settles:
  assumes "lawfulSecrets api stored" "lawfulCrypto cy"
    and "urPassword (reconcileSystemUser cy api lister cluster s) = Inr password"
  obtains fips where "systemUserNeedsPBKDF2 lister cluster = Inr fips"
    "userSettled cy stored cluster password fips (urState (reconcileSystemUser cy api lister cluster s))"
    "urReports (reconcileSystemUser cy api lister cluster s) = []"
proof (cases rule: reconcileSystemUser_cases [where cy = cy and api = api and lister = lister and cluster = cluster and s = s])
  case (fails e read events s1)
  with assms(3) show thesis by (simp add: userFailed_def)
next
  case (sends p events s1 fips hash landed)
  note out = storeHash_outcome [OF assms(1) sends(3)]
  from out(2) [OF assms(3)] have p: "password = p" and r: "urReports (reconcileSystemUser cy api lister cluster s) = []" by blast+
  from systemUserPassword_stored(2) [OF assms(1) sends(1)] out(1) [OF secret_names] p
  have "password \<noteq> [] \<and> (\<exists>secret. stored (SystemUserSecretName cluster) (urState (reconcileSystemUser cy api lister cluster s)) = Some secret
      \<and> get secret SystemUserPasswordKey = password)" by simp
  moreover have "systemUserHashMatches cy hash password fips"
    using sends(4) hash_matches(1) [OF assms(2)] p by blast
  ultimately have "userSettled cy stored cluster password fips (urState (reconcileSystemUser cy api lister cluster s))"
    using out(2) [OF assms(3)] unfolding userSettled_def by blast
  from that [OF sends(2) this r] show thesis .
qed

section \<open>Passes over time\<close>

text \<open>Passes one after another, each with its own random source and its own view of the pods.\<close>

fun userPasses ::
  "'s secretAPI \<Rightarrow> MemgraphDBCluster \<Rightarrow> (crypto \<times> podLister) list \<Rightarrow> 's \<Rightarrow> 's userResult list" where
  "userPasses api cluster [] s = []"
| "userPasses api cluster ((cy, lister) # passes) s =
     (let r = reconcileSystemUser cy api lister cluster s in r # userPasses api cluster passes (urState r))"

lemma userPasses_password:
  assumes "lawfulSecrets api stored" "\<forall>(cy, lister) \<in> set passes. lawfulCrypto cy"
    and "stored (SystemUserSecretName cluster) s = Some secret"
    and "r \<in> set (userPasses api cluster passes s)" "urPassword r = Inr p"
  shows "p = get secret SystemUserPasswordKey"
  using assms(2-4)
proof (induction passes arbitrary: s)
  case (Cons pass passes)
  obtain cy lister where pass: "pass = (cy, lister)" by (cases pass)
  let ?r = "reconcileSystemUser cy api lister cluster s"
  have kept: "stored (SystemUserSecretName cluster) (urState ?r) = Some secret"
    by (rule reconcileSystemUser_keeps [OF assms(1) Cons.prems(2)])
  from Cons.prems(1) pass have cy: "lawfulCrypto cy" and later: "\<forall>(cy, lister) \<in> set passes. lawfulCrypto cy" by auto
  from Cons.prems(3) pass consider "r = ?r" | "r \<in> set (userPasses api cluster passes (urState ?r))" by (auto simp: Let_def)
  then show ?case
  proof cases
    case 1
    from assms(5) 1 have "urPassword ?r = Inr p" by simp
    from reconcileSystemUser_settles [OF assms(1) cy this] obtain fips where
      "userSettled cy stored cluster p fips (urState ?r)" by metis
    with kept show ?thesis by (auto simp: userSettled_def)
  next
    case 2
    from Cons.IH [OF later kept 2] show ?thesis .
  qed
qed simp

lemma userPasses_agree:
  assumes "lawfulSecrets api stored" "\<forall>(cy, lister) \<in> set passes. lawfulCrypto cy"
    and "r \<in> set (userPasses api cluster passes s)" "urPassword r = Inr p"
    and "r' \<in> set (userPasses api cluster passes s)" "urPassword r' = Inr q"
  shows "p = q"
  using assms(2,3,5)
proof (induction passes arbitrary: s)
  case (Cons pass passes)
  obtain cy lister where pass: "pass = (cy, lister)" by (cases pass)
  let ?r = "reconcileSystemUser cy api lister cluster s"
  from Cons.prems(1) pass have cy: "lawfulCrypto cy" and later: "\<forall>(cy, lister) \<in> set passes. lawfulCrypto cy" by auto
  show ?case
  proof (cases "urPassword ?r")
    case (Inl e)
    with assms(4,6) Cons.prems(2,3) pass have "r \<in> set (userPasses api cluster passes (urState ?r))"
      "r' \<in> set (userPasses api cluster passes (urState ?r))" by (auto simp: Let_def)
    from Cons.IH [OF later this] show ?thesis .
  next
    case (Inr password)
    from reconcileSystemUser_settles [OF assms(1) cy Inr] obtain secret where
      secret: "stored (SystemUserSecretName cluster) (urState ?r) = Some secret" "get secret SystemUserPasswordKey = password"
      unfolding userSettled_def by metis
    have "x = password" if "t \<in> set (userPasses api cluster (pass # passes) s)" "urPassword t = Inr x" for t x
      using that Inr pass userPasses_password [OF assms(1) later secret(1) _ that(2)] secret(2) by (auto simp: Let_def)
    with Cons.prems(2,3) assms(4,6) show ?thesis by metis
  qed
qed simp

text \<open>
  C28: The operator never locks itself out: over any number of passes, whichever fail and whatever random
  bytes each draws, every pass that succeeds hands on the same password, the one in the password Secret,
  which no pass rewrites once it is there.
\<close>

theorem system_user_one_password:
  assumes "lawfulSecrets api stored" "\<forall>(cy, lister) \<in> set passes. lawfulCrypto cy"
    and "r \<in> set (userPasses api cluster passes s)" "urPassword r = Inr p"
  shows "(\<forall>r' \<in> set (userPasses api cluster passes s). \<forall>q. urPassword r' = Inr q \<longrightarrow> q = p)
    \<and> (\<forall>secret. stored (SystemUserSecretName cluster) s = Some secret \<longrightarrow> p = get secret SystemUserPasswordKey)"
proof (intro conjI ballI allI impI)
  fix r' q assume "r' \<in> set (userPasses api cluster passes s)" "urPassword r' = Inr q"
  from userPasses_agree [OF assms(1,2) this assms(3,4)] show "q = p" .
next
  fix secret assume "stored (SystemUserSecretName cluster) s = Some secret"
  from userPasses_password [OF assms(1,2) this assms(3,4)] show "p = get secret SystemUserPasswordKey" .
qed

text \<open>Secrets held in a map: the API server of the witnesses.\<close>

definition exSecretAPI :: "(string \<Rightarrow> stringMap option) secretAPI" where
  "exSecretAPI = \<lparr>saGet = (\<lambda>name s. case s name of Some data \<Rightarrow> Found data | None \<Rightarrow> NotFound),
     saCreate = (\<lambda>secret s. if s (seName secret) = None then (Created, s(seName secret \<mapsto> seData secret)) else (AlreadyExists, s)),
     saApply = (\<lambda>obj s. (Inr \<lparr>wUID = ''uid'', wGeneration = 1\<rparr>, case obj of
        SecretOf secret \<Rightarrow> s(seName secret \<mapsto> seData secret) | _ \<Rightarrow> s))\<rparr>"

definition exStored :: "string \<Rightarrow> (string \<Rightarrow> stringMap option) \<Rightarrow> stringMap option" where
  "exStored name s = s name"

lemma exSecretAPI_lawful: "lawfulSecrets exSecretAPI exStored"
proof -
  have keep: "s name = Some data \<Longrightarrow> snd (saCreate exSecretAPI secret s) name = Some data" for s name data secret
    by (auto simp: exSecretAPI_def)
  have "get data k = v" if "distinct (map fst data)" "(k, v) \<in> set data" for data :: stringMap and k v
    using that by (auto simp: get_def map_of_is_SomeI)
  with keep show ?thesis
    by (auto simp: lawfulSecrets_def exStored_def) (auto simp: exSecretAPI_def split: option.splits if_splits)
qed

definition exPasses :: "(crypto \<times> podLister) list" where
  "exPasses = [(exCrypto, \<lambda>_. Inr []), (exCrypto, \<lambda>_. Inr [])]"

text \<open>The two passes on a new cluster: the first generates the password, the second finds it.\<close>

lemma exPasses_succeed:
  "map urPassword (userPasses exSecretAPI exCluster exPasses Map.empty) = [Inr (replicate 43 CHR ''A''), Inr (replicate 43 CHR ''A'')]"
  "map (length \<circ> urEvents) (userPasses exSecretAPI exCluster exPasses Map.empty) = [2, 0]"
  by code_simp+

lemma system_user_one_password_witness:
  "\<exists>r r'. userPasses exSecretAPI exCluster exPasses Map.empty = [r, r'] \<and> urPassword r = urPassword r'"
proof -
  obtain r r' where two: "userPasses exSecretAPI exCluster exPasses Map.empty = [r, r']"
    by (auto simp: exPasses_def Let_def)
  with exPasses_succeed(1) have p: "urPassword r = Inr (replicate 43 CHR ''A'')" "\<exists>q. urPassword r' = Inr q" by auto
  have cy: "\<forall>(cy, lister) \<in> set exPasses. lawfulCrypto cy" by (simp add: exPasses_def exCrypto_lawful)
  from two have "r \<in> set (userPasses exSecretAPI exCluster exPasses Map.empty)" by simp
  from system_user_one_password [OF exSecretAPI_lawful cy this p(1)] two p show ?thesis by auto
qed

end
