(* ===== verification/Bolt_Client.thy ===== *)
theory Bolt_Client
  imports Registration_Pass System_User "HOL-Library.Sublist"
begin

text \<open>
  The production client of \<open>src/internal/memgraph/bolt.go\<close> and the queries of
  \<open>src/internal/memgraph/queries.go\<close>: the order in which \<open>Connect\<close> tries schemes and logins, the text of
  every query, and how rows are read back.

  The third-party driver is the record \<open>bolt\<close>: making a driver, its handshake, running a query and
  collecting the rows, each a step of an arbitrary state. A row is what its \<open>Get\<close> answers; a driver error
  is its message and the code of the server error in its chain, which is what \<open>errors.As\<close> finds. Timeouts
  are among the errors the driver may answer with; closing sessions and drivers is left out.

  The locale \<open>literal_codec\<close> is the contract of a quoted literal: it reads back as what was quoted, whatever
  follows it. Go's \<open>%q\<close> and the Cypher literals of settings are its instances.
\<close>

section \<open>Queries\<close>

definition showInstancesQuery :: string where "showInstancesQuery = ''SHOW INSTANCES''"
definition showReplicationLagQuery :: string where "showReplicationLagQuery = ''SHOW REPLICATION LAG''"
definition yieldLeadershipQuery :: string where "yieldLeadershipQuery = ''YIELD LEADERSHIP''"
definition showSettingsQuery :: string where "showSettingsQuery = ''SHOW DATABASE SETTINGS''"
definition showCoordinatorSettingsQuery :: string where "showCoordinatorSettingsQuery = ''SHOW COORDINATOR SETTINGS''"
definition showConfigQuery :: string where "showConfigQuery = ''SHOW CONFIG''"

text \<open>One entry of a config map, its key in double quotes and its value by \<open>%q\<close>.\<close>

definition configEntry :: "string \<Rightarrow> string \<Rightarrow> string" where
  "configEntry key value = [CHR 0x22] @ key @ [CHR 0x22] @ '': '' @ goQuote value"

definition addCoordinatorQuery :: "CoordinatorSpec \<Rightarrow> string" where
  "addCoordinatorQuery c = ''ADD COORDINATOR '' @ itoa (csID c) @ '' WITH CONFIG {''
     @ configEntry ''bolt_server'' (csBoltServer c) @ '', '' @ configEntry ''coordinator_server'' (csCoordinatorServer c)
     @ '', '' @ configEntry ''management_server'' (csManagementServer c) @ ''}''"

definition registerInstanceQuery :: "DataInstanceSpec \<Rightarrow> string" where
  "registerInstanceQuery i = ''REGISTER INSTANCE '' @ dsName i @ '' WITH CONFIG {''
     @ configEntry ''bolt_server'' (dsBoltServer i) @ '', '' @ configEntry ''management_server'' (dsManagementServer i)
     @ '', '' @ configEntry ''replication_server'' (dsReplicationServer i) @ ''}''"

definition updateCoordinatorBoltServerQuery :: "int32 \<Rightarrow> string \<Rightarrow> string" where
  "updateCoordinatorBoltServerQuery n boltServer =
     ''UPDATE CONFIG FOR COORDINATOR '' @ itoa n @ '' {'' @ configEntry ''bolt_server'' boltServer @ ''}''"

definition updateInstanceBoltServerQuery :: "string \<Rightarrow> string \<Rightarrow> string" where
  "updateInstanceBoltServerQuery name boltServer =
     ''UPDATE CONFIG FOR INSTANCE '' @ name @ '' {'' @ configEntry ''bolt_server'' boltServer @ ''}''"

definition setInstanceToMainQuery :: "string \<Rightarrow> string" where
  "setInstanceToMainQuery name = ''SET INSTANCE '' @ name @ '' TO MAIN''"
definition demoteInstanceQuery :: "string \<Rightarrow> string" where "demoteInstanceQuery name = ''DEMOTE INSTANCE '' @ name"
definition unregisterInstanceQuery :: "string \<Rightarrow> string" where "unregisterInstanceQuery name = ''UNREGISTER INSTANCE '' @ name"
definition removeCoordinatorQuery :: "int32 \<Rightarrow> string" where "removeCoordinatorQuery n = ''REMOVE COORDINATOR '' @ itoa n"

definition cypherChar :: "char \<Rightarrow> string" where
  "cypherChar c = (if c = CHR 0x5C \<or> c = CHR 0x22 then [CHR 0x5C, c] else [c])"

definition cypherString :: "string \<Rightarrow> string" where
  "cypherString s = [CHR 0x22] @ concat (map cypherChar s) @ [CHR 0x22]"

definition setSettingQuery :: "string \<Rightarrow> string \<Rightarrow> string" where
  "setSettingQuery name value = ''SET DATABASE SETTING '' @ cypherString name @ '' TO '' @ cypherString value"

definition setCoordinatorSettingQuery :: "string \<Rightarrow> string \<Rightarrow> string" where
  "setCoordinatorSettingQuery name value = ''SET COORDINATOR SETTING '' @ cypherString name @ '' TO '' @ cypherString value"

section \<open>Dialling\<close>

datatype authToken = NoAuth | BasicAuth string string string

record driverError =
  deCode :: "string option"
  deMessage :: goerror

record credentials =
  crName :: string
  crToken :: authToken

text \<open>
  What the driver hands back of a value: a string, an integer, a map, or anything else. A map is the list
  of its entries in the unspecified order of a Go map; a row is what its \<open>Get\<close> answers.
\<close>

datatype boltValue = BoltString string | BoltInt int64 | BoltMap "(string \<times> boltValue) list" | BoltOther

type_synonym boltRecord = "string \<Rightarrow> boltValue option"

record ('d, 'r, 's) bolt =
  btDriver :: "string \<Rightarrow> authToken \<Rightarrow> goerror + 'd"
  btVerify :: "'d \<Rightarrow> 's \<Rightarrow> driverError option \<times> 's"
  btRun :: "'d \<Rightarrow> string \<Rightarrow> 's \<Rightarrow> (goerror + 'r) \<times> 's"
  btCollect :: "'r \<Rightarrow> 's \<Rightarrow> (goerror + boltRecord list) \<times> 's"

definition schemePlain :: string where "schemePlain = ''bolt''"
definition schemeTLS :: string where "schemeTLS = ''bolt+ssc''"

definition dialSchemes :: "bool \<Rightarrow> string list" where
  "dialSchemes tls = (if tls then [schemeTLS, schemePlain] else [schemePlain, schemeTLS])"

text \<open>The password of the pass, empty when the context carries none.\<close>

definition dialCredentials :: "string \<Rightarrow> credentials list" where
  "dialCredentials password =
     (let none = \<lparr>crName = ''no credentials'', crToken = NoAuth\<rparr> in
      if password = [] then [none]
      else [\<lparr>crName = SystemUserName, crToken = BasicAuth SystemUserName password []\<rparr>, none])"

definition isAuthenticationFailure :: "driverError \<Rightarrow> bool" where
  "isAuthenticationFailure e = (case deCode e of None \<Rightarrow> False | Some code \<Rightarrow> cut code ''.Security.'' \<noteq> None)"

text \<open>
  The logins over one scheme: a driver that is up, a driver that could not even be made, which ends
  \<open>Connect\<close>, or the errors so far.
\<close>

datatype 'd dialed = Up 'd | NoDriver goerror | Refused "goerror list"

definition dialURI :: "string \<Rightarrow> string \<Rightarrow> string" where "dialURI scheme address = scheme @ ''://'' @ address"

definition noDriverError :: "string \<Rightarrow> goerror \<Rightarrow> goerror" where
  "noDriverError address e = ''creating bolt driver for '' @ address @ '': '' @ e"

definition attemptError :: "string \<Rightarrow> credentials \<Rightarrow> driverError \<Rightarrow> goerror" where
  "attemptError scheme creds e = scheme @ '' as '' @ crName creds @ '': '' @ deMessage e"

fun dialScheme ::
  "('d, 'r, 's) bolt \<Rightarrow> string \<Rightarrow> string \<Rightarrow> credentials list \<Rightarrow> goerror list \<Rightarrow> 's \<Rightarrow> 'd dialed \<times> 's" where
  "dialScheme b address scheme [] errs s = (Refused errs, s)"
| "dialScheme b address scheme (creds # rest) errs s =
     (case btDriver b (dialURI scheme address) (crToken creds) of
        Inl e \<Rightarrow> (NoDriver (noDriverError address e), s)
      | Inr driver \<Rightarrow> (case btVerify b driver s of
          (None, s') \<Rightarrow> (Up driver, s')
        | (Some e, s') \<Rightarrow>
            let errs' = errs @ [attemptError scheme creds e] in
            if \<not> isAuthenticationFailure e then (Refused errs', s')
            else dialScheme b address scheme rest errs' s'))"

fun dialAll ::
  "('d, 'r, 's) bolt \<Rightarrow> string \<Rightarrow> string \<Rightarrow> string list \<Rightarrow> goerror list \<Rightarrow> 's \<Rightarrow> 'd dialed \<times> 's" where
  "dialAll b address password [] errs s = (Refused errs, s)"
| "dialAll b address password (scheme # rest) errs s =
     (case dialScheme b address scheme (dialCredentials password) errs s of
        (Refused errs', s') \<Rightarrow> dialAll b address password rest errs' s'
      | ended \<Rightarrow> ended)"

definition Connect :: "('d, 'r, 's) bolt \<Rightarrow> string \<Rightarrow> string \<Rightarrow> bool \<Rightarrow> 's \<Rightarrow> (goerror + 'd) \<times> 's" where
  "Connect b password address tls s =
     (case dialAll b address password (dialSchemes tls) [] s of
        (Up driver, s') \<Rightarrow> (Inr driver, s')
      | (NoDriver e, s') \<Rightarrow> (Inl e, s')
      | (Refused errs, s') \<Rightarrow> (Inl (''connecting to '' @ address @ '': '' @ (case errorsJoin errs of Some e \<Rightarrow> e | None \<Rightarrow> [])), s'))"

section \<open>Rows\<close>

definition stringColumn :: "boltRecord \<Rightarrow> string \<Rightarrow> string" where
  "stringColumn row key = (case row key of Some (BoltString s) \<Rightarrow> s | _ \<Rightarrow> [])"

definition asMap :: "boltValue \<Rightarrow> (string \<times> boltValue) list option" where
  "asMap v = (case v of BoltMap m \<Rightarrow> Some m | _ \<Rightarrow> None)"

definition mapColumn :: "boltRecord \<Rightarrow> string \<Rightarrow> (string \<times> boltValue) list option" where
  "mapColumn row key = Option.bind (row key) asMap"

definition intEntry :: "(string \<times> boltValue) list \<Rightarrow> string \<Rightarrow> int64 option" where
  "intEntry m key = (case map_of m key of Some (BoltInt i) \<Rightarrow> Some i | _ \<Rightarrow> None)"

definition instanceFromRecord :: "boltRecord \<Rightarrow> Instance" where
  "instanceFromRecord row = \<lparr>iName = stringColumn row ''name'', iBoltServer = stringColumn row ''bolt_server'',
     iCoordinatorServer = stringColumn row ''coordinator_server'',
     iManagementServer = stringColumn row ''management_server'',
     iHealth = stringColumn row ''health'', iRole = stringColumn row ''role''\<rparr>"

definition lagError :: "string \<Rightarrow> string \<Rightarrow> goerror" where
  "lagError name what = showReplicationLagQuery @ '' row for '' @ name @ what"

text \<open>The counters of one database, and the loop over the names in order.\<close>

definition databaseLag :: "string \<Rightarrow> (string \<times> boltValue) list \<Rightarrow> string \<Rightarrow> goerror + DatabaseLag" where
  "databaseLag name databases database =
     (case Option.bind (map_of databases database) asMap of
        None \<Rightarrow> Inl (lagError name ('' carries no counters for database '' @ database))
      | Some counters \<Rightarrow> (case intEntry counters ''num_committed_txns'' of
          None \<Rightarrow> Inl (lagError name ('' is missing num_committed_txns for database '' @ database))
        | Some committed \<Rightarrow> (case intEntry counters ''num_txns_behind_main'' of
            None \<Rightarrow> Inl (lagError name ('' is missing num_txns_behind_main for database '' @ database))
          | Some behind \<Rightarrow> Inr \<lparr>dlDatabase = database, dlCommittedTxns = committed, dlTxnsBehindMain = behind\<rparr>)))"

fun databaseLags :: "string \<Rightarrow> (string \<times> boltValue) list \<Rightarrow> string list \<Rightarrow> DatabaseLag list \<Rightarrow> goerror + DatabaseLag list" where
  "databaseLags name databases [] lags = Inr lags"
| "databaseLags name databases (database # rest) lags =
     (case databaseLag name databases database of
        Inl e \<Rightarrow> Inl e
      | Inr lag \<Rightarrow> databaseLags name databases rest (lags @ [lag]))"

definition replicationLagFromRecord :: "boltRecord \<Rightarrow> goerror + ReplicationLag" where
  "replicationLagFromRecord row =
     (let name = stringColumn row ''instance_name'' in
      if name = [] then Inl (showReplicationLagQuery @ '' row carries no instance_name'')
      else case mapColumn row ''data_info'' of
        None \<Rightarrow> Inl (lagError name '' carries no data_info map'')
      | Some databases \<Rightarrow> (case databaseLags name databases (sort (map fst databases)) [] of
          Inl e \<Rightarrow> Inl e
        | Inr lags \<Rightarrow> Inr \<lparr>rlInstance = name, rlDatabases = lags\<rparr>))"

fun namedValues :: "string \<Rightarrow> string \<Rightarrow> boltRecord list \<Rightarrow> stringMap \<Rightarrow> goerror + stringMap" where
  "namedValues nameColumn valueColumn [] values = Inr values"
| "namedValues nameColumn valueColumn (row # rest) values =
     (let name = stringColumn row nameColumn in
      if name = [] then Inl (''row carries no '' @ nameColumn)
      else namedValues nameColumn valueColumn rest (AList.update name (stringColumn row valueColumn) values))"

definition namedValuesFromRecords :: "boltRecord list \<Rightarrow> string \<Rightarrow> string \<Rightarrow> goerror + stringMap" where
  "namedValuesFromRecords rows nameColumn valueColumn = namedValues nameColumn valueColumn rows []"

definition settingsFromRecords :: "boltRecord list \<Rightarrow> goerror + stringMap" where
  "settingsFromRecords rows = namedValuesFromRecords rows ''setting_name'' ''setting_value''"

section \<open>The client\<close>

definition run_query :: "('d, 'r, 's) bolt \<Rightarrow> 'd \<Rightarrow> string \<Rightarrow> 's \<Rightarrow> (goerror + boltRecord list) \<times> 's" where
  "run_query b driver query s =
     (case btRun b driver query s of
        (Inl e, s') \<Rightarrow> (Inl (''running '' @ goQuote query @ '': '' @ e), s')
      | (Inr result, s') \<Rightarrow> (case btCollect b result s' of
          (Inl e, s'') \<Rightarrow> (Inl (''collecting results of '' @ goQuote query @ '': '' @ e), s'')
        | (Inr rows, s'') \<Rightarrow> (Inr rows, s'')))"

text \<open>A query whose rows are not looked at, and one whose rows are read.\<close>

definition executed :: "('d, 'r, 's) bolt \<Rightarrow> 'd \<Rightarrow> string \<Rightarrow> 's call" where
  "executed b driver query s = (case run_query b driver query s of (Inl e, s') \<Rightarrow> (Some e, s') | (Inr _, s') \<Rightarrow> (None, s'))"

definition queried ::
  "('d, 'r, 's) bolt \<Rightarrow> 'd \<Rightarrow> string \<Rightarrow> (boltRecord list \<Rightarrow> goerror + 'a) \<Rightarrow> 's \<Rightarrow> (goerror + 'a) \<times> 's" where
  "queried b driver query read s = (case run_query b driver query s of (Inl e, s') \<Rightarrow> (Inl e, s') | (Inr rows, s') \<Rightarrow> (read rows, s'))"

fun lagsFromRecords :: "boltRecord list \<Rightarrow> ReplicationLag list \<Rightarrow> goerror + ReplicationLag list" where
  "lagsFromRecords [] lag = Inr lag"
| "lagsFromRecords (row # rest) lag =
     (case replicationLagFromRecord row of Inl e \<Rightarrow> Inl e | Inr entry \<Rightarrow> lagsFromRecords rest (lag @ [entry]))"

definition boltShowInstances :: "('d, 'r, 's) bolt \<Rightarrow> 'd \<Rightarrow> 's \<Rightarrow> (goerror + Instance list) \<times> 's" where
  "boltShowInstances b driver = queried b driver showInstancesQuery (\<lambda>rows. Inr (map instanceFromRecord rows))"

definition boltShowReplicationLag :: "('d, 'r, 's) bolt \<Rightarrow> 'd \<Rightarrow> 's \<Rightarrow> (goerror + ReplicationLag list) \<times> 's" where
  "boltShowReplicationLag b driver = queried b driver showReplicationLagQuery (\<lambda>rows. lagsFromRecords rows [])"

definition boltShowSettings :: "('d, 'r, 's) bolt \<Rightarrow> 'd \<Rightarrow> 's \<Rightarrow> (goerror + stringMap) \<times> 's" where
  "boltShowSettings b driver = queried b driver showSettingsQuery settingsFromRecords"

definition boltShowConfig :: "('d, 'r, 's) bolt \<Rightarrow> 'd \<Rightarrow> 's \<Rightarrow> (goerror + stringMap) \<times> 's" where
  "boltShowConfig b driver = queried b driver showConfigQuery
     (\<lambda>rows. namedValuesFromRecords rows ''name'' ''current_value'')"

definition boltShowCoordinatorSettings :: "('d, 'r, 's) bolt \<Rightarrow> 'd \<Rightarrow> 's \<Rightarrow> (goerror + stringMap) \<times> 's" where
  "boltShowCoordinatorSettings b driver = queried b driver showCoordinatorSettingsQuery settingsFromRecords"

definition boltSetSetting :: "('d, 'r, 's) bolt \<Rightarrow> 'd \<Rightarrow> string \<Rightarrow> string \<Rightarrow> 's call" where
  "boltSetSetting b driver name value = executed b driver (setSettingQuery name value)"

definition boltSetCoordinatorSetting :: "('d, 'r, 's) bolt \<Rightarrow> 'd \<Rightarrow> string \<Rightarrow> string \<Rightarrow> 's call" where
  "boltSetCoordinatorSetting b driver name value = executed b driver (setCoordinatorSettingQuery name value)"

text \<open>
  The registration client over a driver that is up. The \<open>Client\<close> record of the planner takes a read to
  leave the cluster as it is, so the state the two reads leave is dropped.
\<close>

definition boltClient :: "('d, 'r, 's) bolt \<Rightarrow> 'd \<Rightarrow> 's Client" where
  "boltClient b driver = \<lparr>
     clShowInstances = (\<lambda>s. fst (boltShowInstances b driver s)),
     clShowReplicationLag = (\<lambda>s. fst (boltShowReplicationLag b driver s)),
     clAddCoordinator = (\<lambda>c. executed b driver (addCoordinatorQuery c)),
     clRegisterInstance = (\<lambda>i. executed b driver (registerInstanceQuery i)),
     clSetInstanceToMain = (\<lambda>name. executed b driver (setInstanceToMainQuery name)),
     clUpdateCoordinatorBoltServer = (\<lambda>n boltServer. executed b driver (updateCoordinatorBoltServerQuery n boltServer)),
     clUpdateInstanceBoltServer = (\<lambda>name boltServer. executed b driver (updateInstanceBoltServerQuery name boltServer)),
     clDemoteInstance = (\<lambda>name. executed b driver (demoteInstanceQuery name)),
     clUnregisterInstance = (\<lambda>name. executed b driver (unregisterInstanceQuery name)),
     clRemoveCoordinator = (\<lambda>n. executed b driver (removeCoordinatorQuery n)),
     clYieldLeadership = executed b driver yieldLeadershipQuery\<rparr>"

section \<open>Literals read back\<close>

locale literal_codec =
  fixes quote :: "string \<Rightarrow> string" and read_literal :: "string \<Rightarrow> (string \<times> string) option"
  assumes read_quote: "read_literal (quote s @ rest) = Some (s, rest)"
begin

lemma quote_append_inject: "quote s @ x = quote t @ y \<longleftrightarrow> s = t \<and> x = y"
  by (metis option.inject prod.inject read_quote)

lemma quote_inject: "quote s = quote t \<longleftrightarrow> s = t"
  using quote_append_inject [of s "[]" t "[]"] by simp

end

text \<open>
  A double-quoted Cypher literal and what follows it: a backslash stands for itself or a quote after
  another backslash, anything else it could start is not understood.
\<close>

fun cypherBody :: "string \<Rightarrow> (string \<times> string) option" where
  "cypherBody [] = None"
| "cypherBody (c # cs) =
     (if c = CHR 0x22 then Some ([], cs)
      else if c = CHR 0x5C then (case cs of
          [] \<Rightarrow> None
        | d # ds \<Rightarrow> if d = CHR 0x5C \<or> d = CHR 0x22 then map_option (\<lambda>(s, rest). (d # s, rest)) (cypherBody ds) else None)
      else map_option (\<lambda>(s, rest). (c # s, rest)) (cypherBody cs))"

definition readCypher :: "string \<Rightarrow> (string \<times> string) option" where
  "readCypher q = (case q of [] \<Rightarrow> None | c # cs \<Rightarrow> if c = CHR 0x22 then cypherBody cs else None)"

interpretation cypher: literal_codec cypherString readCypher
proof
  fix s rest
  have "cypherBody (concat (map cypherChar s) @ CHR 0x22 # rest) = Some (s, rest)"
    by (induction s) (simp_all add: cypherChar_def)
  then show "readCypher (cypherString s @ rest) = Some (s, rest)"
    by (simp add: readCypher_def cypherString_def)
qed

text \<open>A literal of \<open>%q\<close>.\<close>

definition goEscape :: "char \<Rightarrow> char" where
  "goEscape d = (if d = CHR ''a'' then CHR 0x07 else if d = CHR ''b'' then CHR 0x08 else if d = CHR ''f'' then CHR 0x0C
     else if d = CHR ''n'' then CHR 0x0A else if d = CHR ''r'' then CHR 0x0D else if d = CHR ''t'' then CHR 0x09
     else if d = CHR ''v'' then CHR 0x0B else d)"

fun goBody :: "string \<Rightarrow> (string \<times> string) option" where
  "goBody [] = None"
| "goBody (c # cs) =
     (if c = CHR 0x22 then Some ([], cs)
      else if c = CHR 0x5C then (case cs of
          [] \<Rightarrow> None
        | d # ds \<Rightarrow>
            if d = CHR ''x'' then (case ds of
                h # l # ds' \<Rightarrow> (case (fromHexChar h, fromHexChar l) of
                  (Some a, Some b) \<Rightarrow> map_option (\<lambda>(s, rest). (char_of (16 * a + b) # s, rest)) (goBody ds')
                | _ \<Rightarrow> None)
              | _ \<Rightarrow> None)
            else map_option (\<lambda>(s, rest). (goEscape d # s, rest)) (goBody ds))
      else map_option (\<lambda>(s, rest). (c # s, rest)) (goBody cs))"

definition readGo :: "string \<Rightarrow> (string \<times> string) option" where
  "readGo q = (case q of [] \<Rightarrow> None | c # cs \<Rightarrow> if c = CHR 0x22 then goBody cs else None)"

lemma char_of_code: "(of_char c :: nat) = n \<longleftrightarrow> c = char_of n" if "n < 256"
  using that by (metis char_of_char of_char_of mod_less)

lemma char_codes: "char_of (34::nat) = CHR 0x22" "char_of (92::nat) = CHR 0x5C" "char_of (7::nat) = CHR 0x07"
  "char_of (8::nat) = CHR 0x08" "char_of (12::nat) = CHR 0x0C" "char_of (10::nat) = CHR 0x0A"
  "char_of (13::nat) = CHR 0x0D" "char_of (9::nat) = CHR 0x09" "char_of (11::nat) = CHR 0x0B"
  by (simp_all add: char_of_def bit_0)

lemma goBody_quoteChar: "goBody (quoteChar c @ rest) = map_option (\<lambda>(s, rest'). (c # s, rest')) (goBody rest)"
proof -
  let ?n = "of_char c :: nat"
  consider "?n \<in> {34, 92, 7, 8, 12, 10, 13, 9, 11}" | "?n < 32 \<or> ?n = 127" "?n \<notin> {34, 92, 7, 8, 12, 10, 13, 9, 11}"
    | "\<not> (?n < 32 \<or> ?n = 127)" "?n \<notin> {34, 92, 7, 8, 12, 10, 13, 9, 11}" by blast
  then show ?thesis
  proof cases
    case 1
    then show ?thesis by (auto simp: quoteChar_def char_of_code goEscape_def char_codes)
  next
    case 2
    then have "?n div 16 < 16" "?n mod 16 < 16" by auto
    moreover have "16 * (?n div 16) + ?n mod 16 = ?n" by simp
    moreover from 2 have "quoteChar c = [CHR 0x5C, CHR ''x'', hexDigit (?n div 16), hexDigit (?n mod 16)]"
      by (simp add: quoteChar_def Let_def)
    ultimately show ?thesis by (simp add: hexDigit_round_trip)
  next
    case 3
    then have "quoteChar c = [c]" by (simp add: quoteChar_def Let_def)
    moreover from 3 have "c \<noteq> CHR 0x22" "c \<noteq> CHR 0x5C" by auto
    ultimately show ?thesis by simp
  qed
qed

interpretation go: literal_codec goQuote readGo
proof
  fix s rest
  have "goBody (concat (map quoteChar s) @ CHR 0x22 # rest) = Some (s, rest)"
    by (induction s) (simp_all add: goBody_quoteChar)
  then show "readGo (goQuote s @ rest) = Some (s, rest)"
    by (simp add: readGo_def goQuote_def)
qed

section \<open>What a query says\<close>

text \<open>A query that sets a setting, read by the grammar of literals.\<close>

definition readSetting :: "string \<Rightarrow> string \<Rightarrow> (string \<times> string) option" where
  "readSetting verb q = Option.bind (cutPrefix q verb) (\<lambda>rest.
     Option.bind (readCypher rest) (\<lambda>(name, rest').
     Option.bind (cutPrefix rest' '' TO '') (\<lambda>rest''.
     Option.bind (readCypher rest'') (\<lambda>(value, end').
     if end' = [] then Some (name, value) else None))))"

text \<open>
  C34: Whatever a user writes in \<open>spec.flags\<close> or in a Secret, quotes and backslashes included, the query
  that sets it is one SET statement of exactly that name and value: read by the grammar of double-quoted
  literals it gives both back and nothing is left over, so no value ends its literal early and adds to the
  query, and different settings are different queries.
\<close>

theorem setting_queries_round_trip:
  "readSetting ''SET DATABASE SETTING '' (setSettingQuery name value) = Some (name, value)
   \<and> readSetting ''SET COORDINATOR SETTING '' (setCoordinatorSettingQuery name value) = Some (name, value)"
proof -
  have "readCypher (cypherString s) = Some (s, [])" for s using cypher.read_quote [of s "[]"] by simp
  then show ?thesis
    by (simp only: readSetting_def setSettingQuery_def setCoordinatorSettingQuery_def cutPrefix_append
        cypher.read_quote bind.bind_lunit prod.case append.assoc simp_thms if_True)
qed

text \<open>Numbers and names before a space.\<close>

lemma append_space_inject:
  assumes "CHR '' '' \<notin> set s" "CHR '' '' \<notin> set t"
  shows "s @ CHR '' '' # x = t @ CHR '' '' # y \<longleftrightarrow> s = t \<and> x = y"
  using assms
proof (induction s arbitrary: t)
  case Nil
  then show ?case by (cases t) auto
next
  case (Cons c s)
  then show ?case by (cases t) auto
qed

lemma digit_not_space: "is_digit c \<Longrightarrow> c \<noteq> CHR '' ''"
  by (auto simp: is_digit_def)

lemma itoa_no_space: "CHR '' '' \<notin> set (itoa i)"
proof -
  have "CHR '' '' \<notin> set (utoa n)" for n
    using utoa_digits [of n] digit_not_space by (simp only: list_all_iff) blast
  then show ?thesis by (simp add: itoa_def)
qed

lemma configEntry_inject: "configEntry key v @ x = configEntry key w @ y \<longleftrightarrow> v = w \<and> x = y"
  "configEntry key v = configEntry key w \<longleftrightarrow> v = w"
  by (simp_all add: configEntry_def go.quote_append_inject go.quote_inject)

text \<open>
  Two registrations, or two updates of an address, that differ anywhere are different queries: however
  odd the addresses, an entry of the config map is read back as written, and a member's name, which
  never holds a space, ends where the map begins.
\<close>

theorem registration_queries_unambiguous:
  assumes "CHR '' '' \<notin> set (dsName i)" "CHR '' '' \<notin> set (dsName j)" "CHR '' '' \<notin> set name" "CHR '' '' \<notin> set name'"
  shows "(addCoordinatorQuery c = addCoordinatorQuery d \<longleftrightarrow> c = d)
    \<and> (registerInstanceQuery i = registerInstanceQuery j \<longleftrightarrow> i = j)
    \<and> (updateCoordinatorBoltServerQuery m v = updateCoordinatorBoltServerQuery n w \<longleftrightarrow> m = n \<and> v = w)
    \<and> (updateInstanceBoltServerQuery name v = updateInstanceBoltServerQuery name' w \<longleftrightarrow> name = name' \<and> v = w)"
proof (intro conjI)
  show "addCoordinatorQuery c = addCoordinatorQuery d \<longleftrightarrow> c = d"
    by (cases c; cases d) (auto simp: addCoordinatorQuery_def append_space_inject itoa_no_space configEntry_inject)
  show "registerInstanceQuery i = registerInstanceQuery j \<longleftrightarrow> i = j"
    using assms(1,2)
    by (cases i; cases j) (auto simp: registerInstanceQuery_def append_space_inject configEntry_inject)
  show "updateCoordinatorBoltServerQuery m v = updateCoordinatorBoltServerQuery n w \<longleftrightarrow> m = n \<and> v = w"
    by (auto simp: updateCoordinatorBoltServerQuery_def append_space_inject itoa_no_space configEntry_inject)
  show "updateInstanceBoltServerQuery name v = updateInstanceBoltServerQuery name' w \<longleftrightarrow> name = name' \<and> v = w"
    using assms(3,4) by (auto simp: updateInstanceBoltServerQuery_def append_space_inject configEntry_inject)
qed

section \<open>Dialling, attempt by attempt\<close>

text \<open>
  The driver with a log of its handshakes. A handshake is a driver and what it answered, and does to the
  rest of the state what it would do anyway.
\<close>

definition logged ::
  "('d, 'r, 's) bolt \<Rightarrow> (string \<times> authToken \<times> 'd, 'r, (string \<times> authToken \<times> driverError option) list \<times> 's) bolt" where
  "logged b = \<lparr>
     btDriver = (\<lambda>uri token. (case btDriver b uri token of Inl e \<Rightarrow> Inl e | Inr d \<Rightarrow> Inr (uri, token, d))),
     btVerify = (\<lambda>(uri, token, d) (log, s). case btVerify b d s of (e, s') \<Rightarrow> (e, log @ [(uri, token, e)], s')),
     btRun = (\<lambda>(uri, token, d) query (log, s). case btRun b d query s of (res, s') \<Rightarrow> (res, log, s')),
     btCollect = (\<lambda>res (log, s). case btCollect b res s of (rows, s') \<Rightarrow> (rows, log, s'))\<rparr>"

definition attemptsOf :: "bool \<Rightarrow> string \<Rightarrow> string \<Rightarrow> (string \<times> authToken) list" where
  "attemptsOf tls password address =
     [(dialURI scheme address, crToken creds). scheme \<leftarrow> dialSchemes tls, creds \<leftarrow> dialCredentials password]"

definition unanswered :: "(string \<times> authToken \<times> driverError option) list \<Rightarrow> bool" where
  "unanswered log \<longleftrightarrow> (\<forall>(uri, token, e) \<in> set log. e \<noteq> None)"

text \<open>One scheme: what is logged, and what the result says of it.\<close>

definition schemeLog :: "('d, 'r, 's) bolt \<Rightarrow> string \<Rightarrow> string
    \<Rightarrow> (string \<times> authToken \<times> driverError option) list \<Rightarrow> (string \<times> authToken \<times> 'd) dialed \<Rightarrow> bool" where
  "schemeLog b uri password log out \<longleftrightarrow>
     subseq (map (\<lambda>(uri, token, e). (uri, token)) log) [(uri, crToken creds). creds \<leftarrow> dialCredentials password]
     \<and> (password \<noteq> [] \<longrightarrow> (\<forall>u e. (u, NoAuth, e) \<in> set log \<longrightarrow>
         (\<exists>err. (u, BasicAuth SystemUserName password [], Some err) \<in> set log \<and> isAuthenticationFailure err)))
     \<and> (case out of
          Up (u, token, d) \<Rightarrow> \<exists>before. log = before @ [(u, token, None)] \<and> unanswered before \<and> btDriver b u token = Inr d
        | NoDriver e \<Rightarrow> unanswered log \<and> (\<exists>u token e. btDriver b u token = Inl e)
        | Refused errs \<Rightarrow> unanswered log \<and> (\<exists>token err. (uri, token, Some err) \<in> set log))"

lemma logged_fields [simp]:
  "btDriver (logged b) uri token = (case btDriver b uri token of Inl e \<Rightarrow> Inl e | Inr d \<Rightarrow> Inr (uri, token, d))"
  "btVerify (logged b) (uri, token, d) (log, s) = (case btVerify b d s of (e, s') \<Rightarrow> (e, log @ [(uri, token, e)], s'))"
  by (simp_all add: logged_def)

lemma dialScheme_logged:
  assumes "dialScheme (logged b) address scheme (dialCredentials password) errs (log, s) = (out, log', s')"
  shows "\<exists>new. log' = log @ new \<and> schemeLog b (dialURI scheme address) password new out"
  using assms
  by (auto simp: dialCredentials_def Let_def schemeLog_def unanswered_def
      split: if_splits sum.splits option.splits prod.splits) blast+

text \<open>Logging changes nothing of what is done.\<close>

lemma dialScheme_transparent:
  "dialScheme (logged b) address scheme creds errs (log, s) = (out, log', s') \<Longrightarrow>
     dialScheme b address scheme creds errs s = (map_dialed (\<lambda>(_, _, d). d) out, s')"
  by (induction creds arbitrary: errs log s) (auto simp: Let_def split: sum.splits prod.splits option.splits if_splits)

lemma dialAll_transparent:
  "dialAll (logged b) address password schemes errs (log, s) = (out, log', s') \<Longrightarrow>
     dialAll b address password schemes errs s = (map_dialed (\<lambda>(_, _, d). d) out, s')"
proof (induction schemes arbitrary: errs log s)
  case (Cons scheme rest)
  obtain out1 log1 s1 where one: "dialScheme (logged b) address scheme (dialCredentials password) errs (log, s) = (out1, log1, s1)"
    by (metis prod_cases3)
  from dialScheme_transparent [OF this] Cons one show ?case by (cases out1) auto
qed auto

lemma Connect_transparent:
  "Connect (logged b) password address tls (log, s) = (res, log', s') \<Longrightarrow>
     Connect b password address tls s = (map_sum id (\<lambda>(_, _, d). d) res, s')"
  using dialAll_transparent [of b address password "dialSchemes tls" "[]" log s]
  by (auto simp: Connect_def split: prod.splits dialed.splits)

lemma dialSchemes_two: "\<exists>x y. dialSchemes tls = [x, y]"
  by (simp add: dialSchemes_def)

lemma unanswered_append [simp]: "unanswered (xs @ ys) \<longleftrightarrow> unanswered xs \<and> unanswered ys"
  unfolding unanswered_def by (simp only: set_append ball_Un)

lemma dialURI_inject: "dialURI x address = dialURI y address \<longleftrightarrow> x = y"
  by (simp add: dialURI_def)

text \<open>The two schemes: the second only after the first was refused.\<close>

lemma Connect_logged:
  assumes "Connect (logged b) password address tls ([], s) = (res, log, s')" "dialSchemes tls = [x, y]"
  obtains (first) out where "schemeLog b (dialURI x address) password log out" "\<And>errs. out \<noteq> Refused errs"
      "res = (case out of Up d \<Rightarrow> Inr d | NoDriver e \<Rightarrow> Inl e | Refused errs \<Rightarrow> Inl [])"
  | (both) errs log1 log2 out e where "schemeLog b (dialURI x address) password log1 (Refused errs)"
      "schemeLog b (dialURI y address) password log2 out" "log = log1 @ log2"
      "res = (case out of Up d \<Rightarrow> Inr d | NoDriver e \<Rightarrow> Inl e | Refused errs \<Rightarrow> Inl e)"
proof -
  obtain out1 log1 s1 where one: "dialScheme (logged b) address x (dialCredentials password) [] ([], s) = (out1, log1, s1)"
    by (metis prod_cases3)
  from dialScheme_logged [OF one] have log1: "schemeLog b (dialURI x address) password log1 out1" by simp
  show thesis
  proof (cases out1)
    case (Refused errs)
    obtain out2 log2 s2 where two: "dialScheme (logged b) address y (dialCredentials password) errs (log1, s1) = (out2, log2, s2)"
      by (metis prod_cases3)
    from dialScheme_logged [OF two] obtain new where new: "log2 = log1 @ new" "schemeLog b (dialURI y address) password new out2"
      by blast
    from assms one two Refused new(1)
    have "log = log1 @ new" "\<exists>e. res = (case out2 of Up d \<Rightarrow> Inr d | NoDriver e \<Rightarrow> Inl e | Refused errs \<Rightarrow> Inl e)"
      by (auto simp: Connect_def split: dialed.splits)
    with both log1 Refused new(2) show thesis by blast
  next
    case (Up d)
    with assms one have "res = Inr d" "log = log1" by (simp_all add: Connect_def)
    with first [of out1] log1 Up show thesis by simp
  next
    case (NoDriver e)
    with assms one have "res = Inl e" "log = log1" by (simp_all add: Connect_def)
    with first [of out1] log1 NoDriver show thesis by simp
  qed
qed

text \<open>
  C35: Every handshake of a \<open>Connect\<close> is made in the order of the schemes, the one the spec asks for first,
  and of the logins over each, so there are at most four; no login is tried without credentials until
  Memgraph refused the system user's over the same scheme; the connection returned is the first that was
  accepted, and nothing is tried after it; and an error means that every handshake failed, over both schemes
  unless a driver could not even be made. Watching the handshakes changes nothing of what \<open>Connect\<close> does.
\<close>

theorem connect_attempts:
  assumes "Connect (logged b) password address tls ([], s) = (res, log, s')"
  shows "Connect b password address tls s = (map_sum id (\<lambda>(_, _, d). d) res, s')
    \<and> subseq (map (\<lambda>(uri, token, e). (uri, token)) log) (attemptsOf tls password address)
    \<and> (\<forall>u e. password \<noteq> [] \<and> (u, NoAuth, e) \<in> set log \<longrightarrow>
         (\<exists>err. (u, BasicAuth SystemUserName password [], Some err) \<in> set log \<and> isAuthenticationFailure err))
    \<and> (case res of
         Inr (u, token, d) \<Rightarrow> btDriver b u token = Inr d \<and> (\<exists>before. log = before @ [(u, token, None)] \<and> unanswered before)
       | Inl e \<Rightarrow> unanswered log \<and> ((\<forall>u token. \<exists>d. btDriver b u token = Inr d) \<longrightarrow>
           (\<forall>scheme \<in> set (dialSchemes tls). \<exists>token err. (dialURI scheme address, token, Some err) \<in> set log)))"
proof -
  obtain x y where xy: "dialSchemes tls = [x, y]" using dialSchemes_two by blast
  let ?calls = "\<lambda>scheme. map (\<lambda>creds. (dialURI scheme address, crToken creds)) (dialCredentials password)"
  have calls: "attemptsOf tls password address = ?calls x @ ?calls y" by (simp add: attemptsOf_def xy)
  have plain: "Connect b password address tls s = (map_sum id (\<lambda>(_, _, d). d) res, s')"
    by (rule Connect_transparent [OF assms])
  from assms xy show ?thesis
  proof (cases rule: Connect_logged)
    case (first out)
    then have "subseq (map (\<lambda>(uri, token, e). (uri, token)) log) (attemptsOf tls password address)"
      by (auto simp: calls schemeLog_def intro: list_emb_append2)
    with first plain show ?thesis by (cases out) (auto simp: schemeLog_def, (metis sum.distinct(1))+)
  next
    case (both errs log1 log2 out e)
    then have "subseq (map (\<lambda>(uri, token, e). (uri, token)) log) (attemptsOf tls password address)"
      by (auto simp: calls schemeLog_def intro: list_emb_append_mono)
    with both plain show ?thesis by (cases out) (auto simp: schemeLog_def xy, (metis sum.distinct(1))+)
  qed
qed

section \<open>Rows, as they are on the wire\<close>

text \<open>
  What a row must carry to be read: a name, and a map of databases, each with both counters as integers.
  A map of the driver has every key once.
\<close>

definition countersOf :: "boltValue \<Rightarrow> (int64 \<times> int64) option" where
  "countersOf v = (case v of BoltMap m \<Rightarrow>
       (case (map_of m ''num_committed_txns'', map_of m ''num_txns_behind_main'') of
          (Some (BoltInt committed), Some (BoltInt behind)) \<Rightarrow> Some (committed, behind)
        | _ \<Rightarrow> None)
     | _ \<Rightarrow> None)"

definition reads_as :: "boltRecord \<Rightarrow> ReplicationLag \<Rightarrow> bool" where
  "reads_as row lag \<longleftrightarrow> rlInstance lag \<noteq> [] \<and> row ''instance_name'' = Some (BoltString (rlInstance lag))
     \<and> (\<exists>databases. row ''data_info'' = Some (BoltMap databases)
          \<and> map dlDatabase (rlDatabases lag) = sort (map fst databases)
          \<and> (\<forall>d \<in> set (rlDatabases lag). Option.bind (map_of databases (dlDatabase d)) countersOf
                = Some (dlCommittedTxns d, dlTxnsBehindMain d)))"

lemma asMap_Some: "asMap v = Some m \<longleftrightarrow> v = BoltMap m"
  by (cases v) (simp_all add: asMap_def)

lemma intEntry_Some: "intEntry m key = Some i \<longleftrightarrow> map_of m key = Some (BoltInt i)"
proof (cases "map_of m key")
  case (Some v)
  then show ?thesis by (cases v) (simp_all add: intEntry_def)
qed (simp add: intEntry_def)

lemma mapColumn_Some: "mapColumn row key = Some m \<longleftrightarrow> row key = Some (BoltMap m)"
  by (simp add: mapColumn_def bind_eq_Some_conv asMap_Some)

lemma countersOf_Some: "countersOf v = Some (committed, behind) \<longleftrightarrow> (\<exists>m. v = BoltMap m
    \<and> intEntry m ''num_committed_txns'' = Some committed \<and> intEntry m ''num_txns_behind_main'' = Some behind)"
proof (cases v)
  case (BoltMap m)
  have "countersOf v = (case (map_of m ''num_committed_txns'', map_of m ''num_txns_behind_main'') of
      (Some (BoltInt c), Some (BoltInt b)) \<Rightarrow> Some (c, b) | _ \<Rightarrow> None)" by (simp add: countersOf_def BoltMap)
  with BoltMap show ?thesis
    by (simp only: intEntry_Some boltValue.inject) (simp split: option.splits boltValue.splits)
qed (simp_all add: countersOf_def)

lemma databaseLag_Inr:
  fixes lag :: DatabaseLag
  shows "databaseLag name databases database = Inr lag \<longleftrightarrow> dlDatabase lag = database
     \<and> Option.bind (map_of databases database) countersOf = Some (dlCommittedTxns lag, dlTxnsBehindMain lag)"
proof -
  have "Option.bind (map_of databases database) countersOf = Some (dlCommittedTxns lag, dlTxnsBehindMain lag) \<longleftrightarrow>
    (\<exists>m. Option.bind (map_of databases database) asMap = Some m \<and> intEntry m ''num_committed_txns'' = Some (dlCommittedTxns lag)
       \<and> intEntry m ''num_txns_behind_main'' = Some (dlTxnsBehindMain lag))"
    by (auto simp: bind_eq_Some_conv countersOf_Some asMap_Some)
  moreover have "databaseLag name databases database = Inr lag \<longleftrightarrow> dlDatabase lag = database
      \<and> (\<exists>m. Option.bind (map_of databases database) asMap = Some m \<and> intEntry m ''num_committed_txns'' = Some (dlCommittedTxns lag)
       \<and> intEntry m ''num_txns_behind_main'' = Some (dlTxnsBehindMain lag))"
  proof (cases "Option.bind (map_of databases database) asMap")
    case (Some m)
    then show ?thesis
      by (cases "intEntry m ''num_committed_txns''"; cases "intEntry m ''num_txns_behind_main''"; cases lag)
        (auto simp: databaseLag_def)
  qed (simp add: databaseLag_def)
  ultimately show ?thesis by blast
qed

lemma databaseLags_Inr:
  fixes lags :: "DatabaseLag list"
  shows "databaseLags name databases keys lags = Inr all \<longleftrightarrow>
     (\<exists>new. all = lags @ new \<and> map dlDatabase new = keys
        \<and> (\<forall>d \<in> set new. Option.bind (map_of databases (dlDatabase d)) countersOf = Some (dlCommittedTxns d, dlTxnsBehindMain d)))"
proof (induction keys arbitrary: lags)
  case (Cons key rest)
  show ?case
  proof (cases "databaseLag name databases key")
    case (Inl e)
    then have "\<not> (dlDatabase d = key \<and> Option.bind (map_of databases key) countersOf
        = Some (dlCommittedTxns d, dlTxnsBehindMain d))" for d :: DatabaseLag
      using databaseLag_Inr [of name databases key d] by simp
    with Inl show ?thesis by (auto simp: map_eq_Cons_conv)
  next
    case (Inr lag)
    then have lag: "dlDatabase lag = key" "Option.bind (map_of databases key) countersOf = Some (dlCommittedTxns lag, dlTxnsBehindMain lag)"
      by (simp_all add: databaseLag_Inr)
    have same: "d = lag" if "dlDatabase d = key" "Option.bind (map_of databases key) countersOf = Some (dlCommittedTxns d, dlTxnsBehindMain d)" for d :: DatabaseLag
      using that lag by (cases d; cases lag) auto
    from Inr lag show ?thesis by (auto simp: Cons.IH map_eq_Cons_conv dest!: same)
  qed
qed auto

lemma stringColumn_nonempty: "stringColumn row key \<noteq> [] \<longleftrightarrow> row key = Some (BoltString (stringColumn row key)) \<and> stringColumn row key \<noteq> []"
  by (auto simp: stringColumn_def split: option.splits boltValue.splits)

lemma replicationLagFromRecord_Inr: "replicationLagFromRecord row = Inr lag \<longleftrightarrow> reads_as row lag"
proof (cases "stringColumn row ''instance_name'' = [] \<or> mapColumn row ''data_info'' = None")
  case True
  then have "\<not> reads_as row lag"
  proof
    assume "mapColumn row ''data_info'' = None"
    then show ?thesis by (auto simp: reads_as_def simp flip: mapColumn_Some)
  qed (auto simp: reads_as_def stringColumn_def)
  with True show ?thesis by (auto simp: replicationLagFromRecord_def Let_def split: option.splits)
next
  case False
  then obtain databases where map: "mapColumn row ''data_info'' = Some databases" by auto
  from False stringColumn_nonempty [of row "''instance_name''"] obtain n where
    n: "row ''instance_name'' = Some (BoltString n)" by auto
  then have name: "stringColumn row ''instance_name'' = n" by (simp add: stringColumn_def)
  from map have row: "row ''data_info'' = Some (BoltMap databases)" by (simp only: mapColumn_Some)
  have "reads_as row lag \<longleftrightarrow> rlInstance lag = n \<and> databaseLags n databases (sort (map fst databases)) [] = Inr (rlDatabases lag)"
    using False row n name by (auto simp: reads_as_def databaseLags_Inr)
  with False map name show ?thesis
    by (cases lag) (auto simp: replicationLagFromRecord_def Let_def split: sum.splits)
qed

lemma reads_as_unique: "reads_as row a \<Longrightarrow> reads_as row b \<Longrightarrow> a = b"
  by (simp flip: replicationLagFromRecord_Inr)

lemma lagsFromRecords_Inr:
  "lagsFromRecords rows lag = Inr all \<longleftrightarrow> (\<exists>new. all = lag @ new \<and> list_all2 reads_as rows new)"
proof (induction rows arbitrary: lag)
  case (Cons row rows)
  show ?case
  proof (cases "replicationLagFromRecord row")
    case (Inl e)
    then have "\<not> reads_as row d" for d by (simp flip: replicationLagFromRecord_Inr)
    with Inl show ?thesis by (auto simp: list_all2_Cons1)
  next
    case (Inr entry)
    then have "reads_as row y \<longleftrightarrow> y = entry" for y
      using replicationLagFromRecord_Inr [of row y] by auto
    with Inr show ?thesis by (auto simp: Cons.IH list_all2_Cons1)
  qed
qed auto

lemma list_all2_exists: "(\<exists>ys. list_all2 P xs ys) \<longleftrightarrow> (\<forall>x \<in> set xs. \<exists>y. P x y)"
  by (induction xs) (auto simp: list_all2_Cons1)

text \<open>A row that reads as caught up, on the wire.\<close>

definition wire_caught_up :: "boltRecord \<Rightarrow> bool" where
  "wire_caught_up row \<longleftrightarrow> (\<exists>databases. row ''data_info'' = Some (BoltMap databases) \<and> databases \<noteq> []
     \<and> (\<forall>database \<in> fst ` set databases. \<exists>committed behind.
          Option.bind (map_of databases database) countersOf = Some (committed, behind) \<and> behind \<le> 0))"

lemma reads_as_caught_up:
  assumes "reads_as row lag" shows "IsCaughtUp lag \<longleftrightarrow> wire_caught_up row"
proof -
  from assms obtain databases where row: "row ''data_info'' = Some (BoltMap databases)"
    and names: "map dlDatabase (rlDatabases lag) = sort (map fst databases)"
    and counters: "\<And>d. d \<in> set (rlDatabases lag) \<Longrightarrow>
      Option.bind (map_of databases (dlDatabase d)) countersOf = Some (dlCommittedTxns d, dlTxnsBehindMain d)"
    by (auto simp: reads_as_def)
  have sets: "fst ` set databases = dlDatabase ` set (rlDatabases lag)"
    using arg_cong [OF names, of set] by simp
  have "rlDatabases lag = [] \<longleftrightarrow> databases = []" using arg_cong [OF names, of length] by auto
  moreover have "wire_caught_up row \<longleftrightarrow> databases \<noteq> [] \<and> (\<forall>k \<in> fst ` set databases. \<exists>committed behind.
      Option.bind (map_of databases k) countersOf = Some (committed, behind) \<and> behind \<le> 0)"
    unfolding wire_caught_up_def row by simp
  then have "wire_caught_up row \<longleftrightarrow> databases \<noteq> [] \<and> (\<forall>d \<in> set (rlDatabases lag). \<exists>committed behind.
      Option.bind (map_of databases (dlDatabase d)) countersOf = Some (committed, behind) \<and> behind \<le> 0)"
    unfolding sets by blast
  moreover have "(\<exists>committed behind. Option.bind (map_of databases (dlDatabase d)) countersOf = Some (committed, behind) \<and> behind \<le> 0)
      \<longleftrightarrow> dlTxnsBehindMain d \<le> 0" if "d \<in> set (rlDatabases lag)" for d
    by (simp add: counters [OF that])
  ultimately show ?thesis by (simp add: IsCaughtUp_iff cong: ball_cong)
qed

text \<open>
  C36: The view of the replication lag never invents an answer: every entry is read off a row that carries an
  instance's name and both counters of every database as integers, in name order, and any row that lacks
  one makes the whole read fail; so an instance counts as caught up exactly when its row names a
  database and says of each that it is no transaction behind.
\<close>

theorem lag_never_invented:
  assumes "run_query b driver showReplicationLagQuery s = (Inr rows, s')"
  shows "((\<exists>lag. boltShowReplicationLag b driver s = (Inr lag, s')) \<longleftrightarrow> (\<forall>row \<in> set rows. \<exists>entry. reads_as row entry))
    \<and> (\<forall>lag. boltShowReplicationLag b driver s = (Inr lag, s') \<longrightarrow>
         list_all2 (\<lambda>row entry. reads_as row entry \<and> (IsCaughtUp entry \<longleftrightarrow> wire_caught_up row)) rows lag)"
proof -
  have "boltShowReplicationLag b driver s = (Inr lag, s') \<longleftrightarrow> list_all2 reads_as rows lag" for lag
    using assms by (simp add: boltShowReplicationLag_def queried_def lagsFromRecords_Inr)
  then show ?thesis using reads_as_caught_up by (auto simp flip: list_all2_exists elim: list_all2_mono)
qed

text \<open>Rows of names and values: every name's last value, and no row without a name.\<close>

lemma namedValues_Inr:
  "namedValues n v rows vals = Inr m \<longleftrightarrow> (\<forall>row \<in> set rows. stringColumn row n \<noteq> [])
     \<and> m = fold (\<lambda>row. AList.update (stringColumn row n) (stringColumn row v)) rows vals"
  by (induction rows arbitrary: vals) (auto simp: Let_def)

lemma map_of_fold_update: "map_of (fold (\<lambda>row. AList.update (f row) (g row)) rows vals) k
    = (case find (\<lambda>row. f row = k) (rev rows) of Some row \<Rightarrow> Some (g row) | None \<Rightarrow> map_of vals k)"
  by (induction rows arbitrary: vals) (auto simp: update_conv' find_append split: option.splits)

lemma settings_rows:
  assumes "settingsFromRecords rows = Inr m"
  shows "map_of m k = map_option (\<lambda>row. stringColumn row ''setting_value'') (find (\<lambda>row. stringColumn row ''setting_name'' = k) (rev rows))"
    "map_of m [] = None"
  using assms by (auto simp: settingsFromRecords_def namedValuesFromRecords_def namedValues_Inr map_of_fold_update
      find_None_iff split: option.splits dest: find_SomeD)

section \<open>Examples\<close>

text \<open>A coordinator that still speaks plaintext and knows the system user.\<close>

definition exBolt :: "(string \<times> authToken, boltRecord list, unit) bolt" where
  "exBolt = \<lparr>btDriver = (\<lambda>uri token. Inr (uri, token)),
     btVerify = (\<lambda>(uri, token) s. (if uri = ''bolt://a'' \<and> token \<noteq> NoAuth then None
        else Some \<lparr>deCode = None, deMessage = ''no TLS''\<rparr>, s)),
     btRun = (\<lambda>d query s. (Inr [(\<lambda>column. if column = ''instance_name'' then Some (BoltString ''instance_0'')
        else if column = ''data_info'' then Some (BoltMap [(''memgraph'',
          BoltMap [(''num_committed_txns'', BoltInt 7), (''num_txns_behind_main'', BoltInt 0)])]) else None)], s)),
     btCollect = (\<lambda>rows s. (Inr rows, s))\<rparr>"

lemma connect_attempts_witness:
  "\<exists>log d. Connect (logged exBolt) ''secret'' ''a'' True ([], ()) = (Inr d, log, ()) \<and> length log = 2
     \<and> subseq (map (\<lambda>(uri, token, e). (uri, token)) log) (attemptsOf True ''secret'' ''a'')"
proof -
  have "\<exists>log d. Connect (logged exBolt) ''secret'' ''a'' True ([], ()) = (Inr d, log, ()) \<and> length log = 2"
    by (simp add: Connect_def dialSchemes_def dialCredentials_def exBolt_def Let_def isAuthenticationFailure_def
        schemePlain_def schemeTLS_def dialURI_def)
  with connect_attempts [of exBolt "''secret''" "''a''" True "()"] show ?thesis by blast
qed

lemma registration_queries_unambiguous_witness:
  "registerInstanceQuery \<lparr>dsName = ''instance_0'', dsBoltServer = ''a'', dsManagementServer = ''b'', dsReplicationServer = ''c''\<rparr>
     \<noteq> registerInstanceQuery \<lparr>dsName = ''instance_0'', dsBoltServer = ''a'', dsManagementServer = ''b'', dsReplicationServer = ''d''\<rparr>"
  using registration_queries_unambiguous [of "\<lparr>dsName = ''instance_0'', dsBoltServer = ''a'', dsManagementServer = ''b'', dsReplicationServer = ''c''\<rparr>"
      "\<lparr>dsName = ''instance_0'', dsBoltServer = ''a'', dsManagementServer = ''b'', dsReplicationServer = ''d''\<rparr>" "[]" "[]"]
  by simp

lemma lag_never_invented_witness:
  "\<exists>rows lag. run_query exBolt (''bolt://a'', NoAuth) showReplicationLagQuery () = (Inr rows, ()) \<and> rows \<noteq> []
     \<and> boltShowReplicationLag exBolt (''bolt://a'', NoAuth) () = (Inr lag, ()) \<and> list_all2 (\<lambda>row entry. IsCaughtUp entry \<longleftrightarrow> wire_caught_up row) rows lag"

proof -
  obtain row where run: "run_query exBolt (''bolt://a'', NoAuth) showReplicationLagQuery () = (Inr [row], ())"
    and name: "row ''instance_name'' = Some (BoltString ''instance_0'')"
    and info: "row ''data_info'' = Some (BoltMap [(''memgraph'',
        BoltMap [(''num_committed_txns'', BoltInt 7), (''num_txns_behind_main'', BoltInt 0)])])"
    by (simp add: run_query_def exBolt_def)
  have "reads_as row \<lparr>rlInstance = ''instance_0'', rlDatabases = [\<lparr>dlDatabase = ''memgraph'', dlCommittedTxns = 7, dlTxnsBehindMain = 0\<rparr>]\<rparr>"
    by (simp add: reads_as_def name info countersOf_def)
  with lag_never_invented [OF run] obtain lag where "boltShowReplicationLag exBolt (''bolt://a'', NoAuth) () = (Inr lag, ())" by auto
  with lag_never_invented [OF run] run show ?thesis by (auto elim!: list_all2_mono)
qed

end
