(* ===== verification/Reconcile_Pass.thy ===== *)
theory Reconcile_Pass
  imports Registration_Pass System_User
begin

text \<open>
  A whole pass: \<open>Reconcile\<close> and \<open>reconcileCluster\<close> of \<open>src/internal/controller/memgraphdbcluster_controller.go\<close>,
  composed of the steps the other theories model, in the order the code runs them.

  An \<open>operator\<close> bundles what is outside the code: what the API server, the volumes, the Secrets and
  Memgraph answer (Memgraph by the password the pass logs in with). A pass returns what it reported, what
  it did in order (\<open>passStep\<close>), how it ended, and the states it leaves. Logging is left out.
\<close>

section \<open>The operator and a pass\<close>

record ('w, 's) operator =
  opEnvironment :: "string \<Rightarrow> 'w environment"
  opReader :: reader
  opLister :: podLister
  opCrypto :: crypto
  opSecrets :: "'s secretAPI"
  opVolumes :: volumeServer
  opCmp :: "Quantity \<Rightarrow> Quantity \<Rightarrow> int"
  opPrune :: pruneServer
  opExposure :: exposureReader
  opGatewayAPI :: bool
  opGatewayMissing :: string
  opGatewayVersion :: string
  opClusterUID :: string
  opTokens :: tokens
  opDigest :: "string \<Rightarrow> string"
  opHash :: "podTemplate \<Rightarrow> string"
  opDashboard :: string

datatype passStep = Sent desiredObject | OnVolume action | Pruned deletion | OnCluster regStep

record ('w, 's) passResult =
  paReports :: reports
  paSteps :: "passStep list"
  paOutcome :: passOutcome
  paShrinks :: StatefulSets
  paState :: "'w passState"
  paSecrets :: 's

definition ended ::
  "reports \<Rightarrow> passStep list \<Rightarrow> passOutcome \<Rightarrow> StatefulSets \<Rightarrow> 'w passState \<Rightarrow> 's \<Rightarrow> ('w, 's) passResult" where
  "ended reports steps outcome shrinks st s = \<lparr>paReports = reports, paSteps = steps, paOutcome = outcome,
     paShrinks = shrinks, paState = st, paSecrets = s\<rparr>"

text \<open>A stage that was reached: what was done before it comes first.\<close>

definition after :: "passStep list \<Rightarrow> ('w, 's) passResult \<Rightarrow> ('w, 's) passResult" where
  "after steps r = r\<lparr>paSteps := steps @ paSteps r\<rparr>"

section \<open>Observing and registering\<close>

definition registerStage ::
  "conditionOps \<Rightarrow> ('w, 's) operator \<Rightarrow> 'w environment \<Rightarrow> MemgraphDBCluster \<Rightarrow> replicaCounts \<Rightarrow> volumeOutcome
     \<Rightarrow> appliedObjects \<Rightarrow> StatefulSets \<Rightarrow> 'w passState \<Rightarrow> 's \<Rightarrow> ('w, 's) passResult option" where
  "registerStage ops oper en cluster replicas claims applied shrinks st s =
     (case observeExternalAccess (opGatewayAPI oper) (opGatewayMissing oper) (opGatewayVersion oper) (opExposure oper) cluster of
        Inl e \<Rightarrow> Some (ended [] [] (PassError e) shrinks st s)
      | Inr exposure \<Rightarrow> (case observeRollout (opReader oper) cluster replicas (appliedSet applied) of
          Inl e \<Rightarrow> Some (ended [] [] (PassError e) shrinks st s)
        | Inr roles \<Rightarrow>
            Option.bind (reconcileLicense (enDialer en) (enSecrets en) cluster replicas roles (st\<lparr>psReads := Map.empty\<rparr>))
              (\<lambda>(license, st1).
                 let observed = lastObserved cluster; cluster' = setStatus ops cluster observed [license] in
                 map_option (\<lambda>r. ended ((observed, [license]) # rgReports r) (map OnCluster (rgSteps r)) (rgOutcome r)
                     (rgShrinks r) (rgState r) s)
                   (reconcileRegistration en cluster' replicas exposure roles claims shrinks st1))))"

section \<open>Applying and pruning\<close>

text \<open>An apply restates the sizes of the live claim templates.\<close>

definition keepLiveSizes :: "builtSet \<Rightarrow> StatefulSet option \<Rightarrow> builtSet" where
  "keepLiveSizes sts live = sts\<lparr>bsClaims := map (\<lambda>(claim, template). claim\<lparr>cloTemplate := template\<rparr>)
     (zip (bsClaims sts) (KeepLiveSizes (map cloTemplate (bsClaims sts)) (map_option ssTemplates live)))\<rparr>"

definition workloadObjects :: "MemgraphDBCluster \<Rightarrow> builtSet \<Rightarrow> builtSet \<Rightarrow> desiredObject list" where
  "workloadObjects cluster coordinatorSet dataSet =
     [ServiceOf (CoordinatorHeadlessService cluster), ServiceOf (DataHeadlessService cluster),
      ConfigMapOf (CoordinatorFlagsConfigMap cluster), ConfigMapOf (DataFlagsConfigMap cluster),
      StatefulSetOf coordinatorSet, StatefulSetOf dataSet]"

text \<open>The objects a pass applies.\<close>

definition desiredObjects ::
  "MemgraphDBCluster \<Rightarrow> builtSet \<Rightarrow> builtSet \<Rightarrow> extObject list \<Rightarrow> monitoringObject list \<Rightarrow> desiredObject list" where
  "desiredObjects cluster coordinatorSet dataSet external monitoring =
     workloadObjects cluster coordinatorSet dataSet @ map ExternalOf external @ map MonitoringOf monitoring"

definition applyStage ::
  "conditionOps \<Rightarrow> ('w, 's) operator \<Rightarrow> 'w environment \<Rightarrow> MemgraphDBCluster \<Rightarrow> replicaCounts \<Rightarrow> volumeOutcome
     \<Rightarrow> builtSet \<Rightarrow> builtSet \<Rightarrow> StatefulSets \<Rightarrow> 'w passState \<Rightarrow> 's \<Rightarrow> ('w, 's) passResult option" where
  "applyStage ops oper en cluster replicas claims coordinatorSet dataSet shrinks st s =
     Option.bind (desiredExternal (opGatewayAPI oper) cluster (rrApplied (rcData replicas))) (\<lambda>external.
     Option.bind (desiredMonitoring (enServiceMonitorAPI en) (opDashboard oper) cluster
         (rrApplied (rcCoordinators replicas)) (rrApplied (rcData replicas))) (\<lambda>monitoring.
       (case applyDesired (saApply (opSecrets oper)) cluster (desiredObjects cluster coordinatorSet dataSet external monitoring) s of
          (Inl e, reports, sent, s') \<Rightarrow> Some (ended reports (map Sent sent) (PassError e) shrinks st s')
        | (Inr applied, reports, sent, s') \<Rightarrow>
         (case pruneExternal (opGatewayAPI oper) (opPrune oper) cluster (opClusterUID oper) external of
            (Some e, pruned) \<Rightarrow> Some (ended [] (map Sent sent @ map Pruned pruned) (PassError e) shrinks st s')
          | (None, pruned) \<Rightarrow>
           (case pruneMonitoring (enServiceMonitorAPI en) (opPrune oper) cluster (opClusterUID oper) monitoring of
              (Some e, pruned') \<Rightarrow> Some (ended [] (map Sent sent @ map Pruned (pruned @ pruned')) (PassError e) shrinks st s')
            | (None, pruned') \<Rightarrow> map_option (after (map Sent sent @ map Pruned (pruned @ pruned')))
                (registerStage ops oper en cluster replicas claims applied shrinks st s'))))))"

section \<open>Growing the volumes\<close>

definition claimed :: "roleReplicas \<Rightarrow> builtSet \<Rightarrow> stringMap \<Rightarrow> claimedRole" where
  "claimed role sts selector = \<lparr>crReplicas = role, crDesiredName = bsName sts,
     crDesiredTemplates = map cloTemplate (bsClaims sts), crSelector = selector\<rparr>"

definition recreatingReport :: "MemgraphDBCluster \<Rightarrow> string \<Rightarrow> reports" where
  "recreatingReport cluster message =
     [(lastObserved cluster, [notConvergedCondition ReasonVolumeExpansionInProgress message])]"

definition volumeStage ::
  "conditionOps \<Rightarrow> ('w, 's) operator \<Rightarrow> 'w environment \<Rightarrow> MemgraphDBCluster \<Rightarrow> replicaCounts
     \<Rightarrow> StatefulSets \<Rightarrow> 'w passState \<Rightarrow> 's \<Rightarrow> ('w, 's) passResult option" where
  "volumeStage ops oper en cluster replicas shrinks st s =
     (let coordinators = rcCoordinators replicas; data = rcData replicas;
          coordinatorSet = CoordinatorStatefulSet (opTokens oper) (opDigest oper) (opHash oper) cluster (rrApplied coordinators);
          dataSet = DataStatefulSet (opTokens oper) (opDigest oper) (opHash oper) cluster (rrApplied data) in
      Option.bind (reconcileVolumes (opCmp oper) (opReader oper) (opVolumes oper) (mcNamespace cluster)
          [claimed coordinators coordinatorSet (CoordinatorPodSelector cluster), claimed data dataSet (DataPodSelector cluster)]
          noOutcome)
        (\<lambda>(claims, recreating, err, acts). case err of
           Some e \<Rightarrow> Some (ended [] (map OnVolume acts) (PassError e) shrinks st s)
         | None \<Rightarrow>
             if recreating \<noteq> []
             then Some (ended (recreatingReport cluster recreating) (map OnVolume acts) (RequeueAfter requeueWhilePending) shrinks st s)
             else map_option (after (map OnVolume acts))
               (applyStage ops oper en cluster replicas claims (keepLiveSizes coordinatorSet (rrStatefulSet coordinators))
                 (keepLiveSizes dataSet (rrStatefulSet data)) shrinks st s)))"

section \<open>reconcileCluster and Reconcile\<close>

definition reconcileCluster ::
  "conditionOps \<Rightarrow> ('w, 's) operator \<Rightarrow> MemgraphDBCluster \<Rightarrow> StatefulSets \<Rightarrow> 'w passState \<Rightarrow> 's
     \<Rightarrow> ('w, 's) passResult option" where
  "reconcileCluster ops oper cluster shrinks st s =
     (case replicaCountsOf (opReader oper) cluster shrinks of
        (Inl e, shrinks') \<Rightarrow> Some (ended [] [] (PassError e) shrinks' st s)
      | (Inr replicas, shrinks') \<Rightarrow>
          if rcUnseenShrinks replicas \<noteq> [] then Some (ended [] [] (RequeueAfter requeueWhilePending) shrinks' st s)
          else
            let user = reconcileSystemUser (opCrypto oper) (opSecrets oper) (opLister oper) cluster s;
                st' = st\<lparr>psEvents := psEvents st @ urEvents user\<rparr> in
            case urPassword user of
              Inl e \<Rightarrow> Some (ended (urReports user) (map Sent (urSent user)) (PassError e) shrinks' st' (urState user))
            | Inr password \<Rightarrow> map_option (after (map Sent (urSent user)))
                (volumeStage ops oper (opEnvironment oper password) cluster replicas shrinks' st' (urState user)))"

text \<open>
  The resource as read, and the answer to the status patch. A pass without a resource does nothing; a
  status that did not change is not written. The second result is the resource that was written.
\<close>

definition patchError :: "passOutcome \<Rightarrow> goerror \<Rightarrow> passOutcome" where
  "patchError outcome e = (let patching = ''patching MemgraphDBCluster status: '' @ e in
     case outcome of PassError first \<Rightarrow> PassError (first @ newline @ patching) | RequeueAfter _ \<Rightarrow> PassError patching)"

definition Reconcile ::
  "conditionOps \<Rightarrow> ('w, 's) operator \<Rightarrow> MemgraphDBCluster getResult \<Rightarrow> (MemgraphDBCluster \<Rightarrow> goerror option)
     \<Rightarrow> StatefulSets \<Rightarrow> 'w passState \<Rightarrow> 's \<Rightarrow> (('w, 's) passResult \<times> MemgraphDBCluster option) option" where
  "Reconcile ops oper got patch shrinks st s =
     (case got of
        NotFound \<Rightarrow> Some (ended [] [] (RequeueAfter 0) shrinks st s, None)
      | Failed e \<Rightarrow> Some (ended [] [] (PassError e) shrinks st s, None)
      | Found orig \<Rightarrow>
          let cluster = initialized ops orig in
          map_option (\<lambda>r.
              let final = summarizeReady ops (report ops cluster (paReports r)) in
              if mcStatus final = mcStatus orig then (r, None)
              else case patch final of
                None \<Rightarrow> (r, Some final)
              | Some e \<Rightarrow> (r\<lparr>paOutcome := patchError (paOutcome r) e\<rparr>, None))
            (reconcileCluster ops oper cluster shrinks st s))"

section \<open>The stages of a pass\<close>

lemma after_simps [simp]:
  "paReports (after steps r) = paReports r" "paSteps (after steps r) = steps @ paSteps r"
  "paOutcome (after steps r) = paOutcome r" "paShrinks (after steps r) = paShrinks r"
  "paState (after steps r) = paState r" "paSecrets (after steps r) = paSecrets r"
  by (simp_all add: after_def)

lemma ended_simps [simp]:
  "paReports (ended reports steps outcome shrinks st s) = reports"
  "paSteps (ended reports steps outcome shrinks st s) = steps"
  "paOutcome (ended reports steps outcome shrinks st s) = outcome"
  by (simp_all add: ended_def)

text \<open>What an apply of a list of objects sends and reports.\<close>

lemma applyObjects_outcome:
  assumes "applyObjects call cluster objs applied s = (result, reports, sent, s')"
  shows "case result of
      Inr applied' \<Rightarrow> sent = objs \<and> reports = []
    | Inl e \<Rightarrow> (\<exists>rest. objs = sent @ rest) \<and> reports = applyFailedReport cluster e"
  using assms
proof (induction objs arbitrary: applied s result reports sent s')
  case (Cons obj objs)
  obtain answer s1 where call: "call obj s = (answer, s1)" by fastforce
  show ?case
  proof (cases answer)
    case (Inl e)
    with Cons.prems call show ?thesis by auto
  next
    case (Inr w)
    obtain result1 reports1 sent1 s2 where rest:
      "applyObjects call cluster objs (applied(appliedKey obj \<mapsto> w)) s1 = (result1, reports1, sent1, s2)" by (metis prod_cases4)
    with Cons.prems call Inr have "result = result1" "reports = reports1" "sent = obj # sent1" by simp_all
    with Cons.IH [OF rest] show ?thesis by (auto split: sum.splits)
  qed
qed auto

lemma applyDesired_outcome:
  assumes "applyDesired call cluster objs s = (result, reports, sent, s')"
  shows "case result of
      Inr applied' \<Rightarrow> sent = objs \<and> reports = []
    | Inl e \<Rightarrow> (\<exists>rest. objs = sent @ rest) \<and> reports = applyFailedReport cluster e"
  using applyObjects_outcome assms unfolding applyDesired_def .

abbreviation exposureOf :: "('w, 's) operator \<Rightarrow> MemgraphDBCluster \<Rightarrow> goerror + externalAccess" where
  "exposureOf oper cluster \<equiv> observeExternalAccess (opGatewayAPI oper) (opGatewayMissing oper) (opGatewayVersion oper) (opExposure oper) cluster"

lemma registerStage_cases:
  assumes "registerStage ops oper en cluster replicas claims applied shrinks st s = Some r"
  obtains (fails) e where "r = ended [] [] (PassError e) shrinks st s"
      "exposureOf oper cluster = Inl e \<or> observeRollout (opReader oper) cluster replicas (appliedSet applied) = Inl e"
  | (registers) exposure roles license st1 reg where
      "exposureOf oper cluster = Inr exposure"
      "observeRollout (opReader oper) cluster replicas (appliedSet applied) = Inr roles"
      "reconcileLicense (enDialer en) (enSecrets en) cluster replicas roles (st\<lparr>psReads := Map.empty\<rparr>) = Some (license, st1)"
      "reconcileRegistration en (setStatus ops cluster (lastObserved cluster) [license]) replicas exposure roles claims shrinks st1 = Some reg"
      "r = ended ((lastObserved cluster, [license]) # rgReports reg) (map OnCluster (rgSteps reg)) (rgOutcome reg)
             (rgShrinks reg) (rgState reg) s"
proof -
  consider e where "exposureOf oper cluster = Inl e"
    | exposure e where "exposureOf oper cluster = Inr exposure"
        "observeRollout (opReader oper) cluster replicas (appliedSet applied) = Inl e"
    | exposure roles where "exposureOf oper cluster = Inr exposure"
        "observeRollout (opReader oper) cluster replicas (appliedSet applied) = Inr roles"
    by (metis sum.exhaust)
  then show thesis
  proof cases
    case (1 e)
    with assms show thesis by (intro fails [of e]) (simp_all add: registerStage_def)
  next
    case (2 exposure e)
    with assms show thesis by (intro fails [of e]) (simp_all add: registerStage_def)
  next
    case (3 exposure roles)
    with assms obtain license st1 where "reconcileLicense (enDialer en) (enSecrets en) cluster replicas roles (st\<lparr>psReads := Map.empty\<rparr>)
        = Some (license, st1)" by (auto simp: registerStage_def bind_eq_Some_conv)
    with assms 3 show thesis by (auto simp: registerStage_def Let_def intro!: registers)
  qed
qed

text \<open>What the builders want of the counts.\<close>

definition wants :: "('w, 's) operator \<Rightarrow> 'w environment \<Rightarrow> MemgraphDBCluster \<Rightarrow> replicaCounts \<Rightarrow> extObject list
    \<Rightarrow> monitoringObject list \<Rightarrow> bool" where
  "wants oper en cluster replicas external monitoring \<longleftrightarrow>
     desiredExternal (opGatewayAPI oper) cluster (rrApplied (rcData replicas)) = Some external
     \<and> desiredMonitoring (enServiceMonitorAPI en) (opDashboard oper) cluster
         (rrApplied (rcCoordinators replicas)) (rrApplied (rcData replicas)) = Some monitoring"

abbreviation prunesExternal :: "('w, 's) operator \<Rightarrow> MemgraphDBCluster \<Rightarrow> extObject list \<Rightarrow> goerror option \<times> deletion list" where
  "prunesExternal oper cluster external \<equiv> pruneExternal (opGatewayAPI oper) (opPrune oper) cluster (opClusterUID oper) external"

abbreviation prunesMonitoring ::
  "('w, 's) operator \<Rightarrow> 'w environment \<Rightarrow> MemgraphDBCluster \<Rightarrow> monitoringObject list \<Rightarrow> goerror option \<times> deletion list" where
  "prunesMonitoring oper en cluster monitoring \<equiv>
     pruneMonitoring (enServiceMonitorAPI en) (opPrune oper) cluster (opClusterUID oper) monitoring"

lemma applyStage_cases:
  fixes ops oper en cluster replicas claims coordinatorSet dataSet shrinks st and s :: 's
  defines "desired \<equiv> desiredObjects cluster coordinatorSet dataSet"
  assumes "applyStage ops oper en cluster replicas claims coordinatorSet dataSet shrinks st s = Some r"
  obtains (refused) external monitoring e sent s' where "wants oper en cluster replicas external monitoring"
      "applyDesired (saApply (opSecrets oper)) cluster (desired external monitoring) s = (Inl e, applyFailedReport cluster e, sent, s')"
      "r = ended (applyFailedReport cluster e) (map Sent sent) (PassError e) shrinks st s'"
  | (stops) external monitoring applied e pruned s' where "wants oper en cluster replicas external monitoring"
      "applyDesired (saApply (opSecrets oper)) cluster (desired external monitoring) s = (Inr applied, [], desired external monitoring, s')"
      "prunesExternal oper cluster external = (Some e, pruned)"
      "r = ended [] (map Sent (desired external monitoring) @ map Pruned pruned) (PassError e) shrinks st s'"
  | (halts) external monitoring applied e pruned pruned' s' where "wants oper en cluster replicas external monitoring"
      "applyDesired (saApply (opSecrets oper)) cluster (desired external monitoring) s = (Inr applied, [], desired external monitoring, s')"
      "prunesExternal oper cluster external = (None, pruned)" "prunesMonitoring oper en cluster monitoring = (Some e, pruned')"
      "r = ended [] (map Sent (desired external monitoring) @ map Pruned (pruned @ pruned')) (PassError e) shrinks st s'"
  | (proceeds) external monitoring applied pruned pruned' s' r' where "wants oper en cluster replicas external monitoring"
      "applyDesired (saApply (opSecrets oper)) cluster (desired external monitoring) s = (Inr applied, [], desired external monitoring, s')"
      "prunesExternal oper cluster external = (None, pruned)" "prunesMonitoring oper en cluster monitoring = (None, pruned')"
      "registerStage ops oper en cluster replicas claims applied shrinks st s' = Some r'"
      "r = after (map Sent (desired external monitoring) @ map Pruned (pruned @ pruned')) r'"
proof -
  from assms(2) obtain external monitoring where ext: "wants oper en cluster replicas external monitoring"
    by (auto simp: applyStage_def wants_def bind_eq_Some_conv)
  obtain result reports sent s' where sent:
    "applyDesired (saApply (opSecrets oper)) cluster (desired external monitoring) s = (result, reports, sent, s')"
    by (metis prod_cases4)
  note run = assms(2) [unfolded applyStage_def ext [unfolded wants_def, THEN conjunct1] ext [unfolded wants_def, THEN conjunct2]
      Option.bind.simps, folded desired_def, unfolded sent]
  show thesis
  proof (cases result)
    case (Inl e)
    with applyDesired_outcome [OF sent] have "reports = applyFailedReport cluster e" by simp
    with run Inl sent show thesis by (intro refused [OF ext, of e sent s']) simp_all
  next
    case (Inr applied)
    with applyDesired_outcome [OF sent] sent have all: "sent = desired external monitoring"
      "applyDesired (saApply (opSecrets oper)) cluster (desired external monitoring) s = (Inr applied, [], desired external monitoring, s')"
      by simp_all
    obtain e1 pruned where p1: "prunesExternal oper cluster external = (e1, pruned)" by fastforce
    obtain e2 pruned' where p2: "prunesMonitoring oper en cluster monitoring = (e2, pruned')" by fastforce
    consider e where "e1 = Some e" | e where "e1 = None" "e2 = Some e" | "e1 = None" "e2 = None" by (cases e1; cases e2) auto
    then show thesis
    proof cases
      case (1 e)
      with run Inr p1 all show thesis by (intro stops [OF ext all(2), of e pruned]) simp_all
    next
      case (2 e)
      with run Inr p1 p2 all show thesis by (intro halts [OF ext all(2), of pruned e pruned']) simp_all
    next
      case 3
      with run Inr p1 p2 all show thesis by (auto intro: proceeds [OF ext all(2), of pruned pruned'])
    qed
  qed
qed

abbreviation coordinatorSetOf :: "('w, 's) operator \<Rightarrow> MemgraphDBCluster \<Rightarrow> replicaCounts \<Rightarrow> builtSet" where
  "coordinatorSetOf oper cluster replicas \<equiv>
     CoordinatorStatefulSet (opTokens oper) (opDigest oper) (opHash oper) cluster (rrApplied (rcCoordinators replicas))"

abbreviation dataSetOf :: "('w, 's) operator \<Rightarrow> MemgraphDBCluster \<Rightarrow> replicaCounts \<Rightarrow> builtSet" where
  "dataSetOf oper cluster replicas \<equiv>
     DataStatefulSet (opTokens oper) (opDigest oper) (opHash oper) cluster (rrApplied (rcData replicas))"

abbreviation volumesOf ::
  "('w, 's) operator \<Rightarrow> MemgraphDBCluster \<Rightarrow> replicaCounts \<Rightarrow> volumeResult option" where
  "volumesOf oper cluster replicas \<equiv>
     reconcileVolumes (opCmp oper) (opReader oper) (opVolumes oper) (mcNamespace cluster)
       [claimed (rcCoordinators replicas) (coordinatorSetOf oper cluster replicas) (CoordinatorPodSelector cluster),
        claimed (rcData replicas) (dataSetOf oper cluster replicas) (DataPodSelector cluster)] noOutcome"

lemma volumeStage_cases:
  assumes "volumeStage ops oper en cluster replicas shrinks st s = Some r"
  obtains (fails) claims recreating e acts where
      "volumesOf oper cluster replicas = Some (claims, recreating, Some e, acts)"
      "r = ended [] (map OnVolume acts) (PassError e) shrinks st s"
  | (recreates) claims recreating acts where
      "volumesOf oper cluster replicas = Some (claims, recreating, None, acts)" "recreating \<noteq> []"
      "r = ended (recreatingReport cluster recreating) (map OnVolume acts) (RequeueAfter requeueWhilePending) shrinks st s"
  | (grown) claims acts r' where
      "volumesOf oper cluster replicas = Some (claims, [], None, acts)"
      "applyStage ops oper en cluster replicas claims
         (keepLiveSizes (coordinatorSetOf oper cluster replicas) (rrStatefulSet (rcCoordinators replicas)))
         (keepLiveSizes (dataSetOf oper cluster replicas) (rrStatefulSet (rcData replicas))) shrinks st s = Some r'"
      "r = after (map OnVolume acts) r'"
proof -
  from assms obtain claims recreating err acts where vol: "volumesOf oper cluster replicas = Some (claims, recreating, err, acts)"
    by (auto simp: volumeStage_def Let_def bind_eq_Some_conv)
  note run = assms [unfolded volumeStage_def Let_def vol Option.bind.simps prod.case]
  consider e where "err = Some e" | "err = None" "recreating \<noteq> []" | "err = None" "recreating = []" by (cases err) auto
  then show thesis
  proof cases
    case (1 e)
    with run vol show thesis by (intro fails [of claims recreating e acts]) simp_all
  next
    case 2
    with run vol show thesis by (intro recreates [of claims recreating acts]) simp_all
  next
    case 3
    with run obtain r' where "applyStage ops oper en cluster replicas claims
         (keepLiveSizes (coordinatorSetOf oper cluster replicas) (rrStatefulSet (rcCoordinators replicas)))
         (keepLiveSizes (dataSetOf oper cluster replicas) (rrStatefulSet (rcData replicas))) shrinks st s = Some r'"
      "r = after (map OnVolume acts) r'" by auto
    with vol 3 show thesis by (intro grown) simp_all
  qed
qed

text \<open>The counts are trusted and the pass has its password.\<close>

definition provisioned ::
  "('w, 's) operator \<Rightarrow> MemgraphDBCluster \<Rightarrow> StatefulSets \<Rightarrow> 's \<Rightarrow> replicaCounts \<Rightarrow> StatefulSets \<Rightarrow> string \<Rightarrow> bool" where
  "provisioned oper cluster shrinks s replicas shrinks' password \<longleftrightarrow>
     replicaCountsOf (opReader oper) cluster shrinks = (Inr replicas, shrinks') \<and> rcUnseenShrinks replicas = []
     \<and> urPassword (reconcileSystemUser (opCrypto oper) (opSecrets oper) (opLister oper) cluster s) = Inr password"

abbreviation userOf :: "('w, 's) operator \<Rightarrow> MemgraphDBCluster \<Rightarrow> 's \<Rightarrow> 's userResult" where
  "userOf oper cluster s \<equiv> reconcileSystemUser (opCrypto oper) (opSecrets oper) (opLister oper) cluster s"

text \<open>The state once the system user is settled.\<close>

abbreviation loggedIn :: "('w, 's) operator \<Rightarrow> MemgraphDBCluster \<Rightarrow> 's \<Rightarrow> 'w passState \<Rightarrow> 'w passState" where
  "loggedIn oper cluster s st \<equiv> st\<lparr>psEvents := psEvents st @ urEvents (userOf oper cluster s)\<rparr>"

lemma reconcileCluster_cases:
  assumes "reconcileCluster ops oper cluster shrinks st s = Some r"
  obtains (unread) e shrinks' where "replicaCountsOf (opReader oper) cluster shrinks = (Inl e, shrinks')"
      "r = ended [] [] (PassError e) shrinks' st s"
  | (deferred) replicas shrinks' where "replicaCountsOf (opReader oper) cluster shrinks = (Inr replicas, shrinks')"
      "rcUnseenShrinks replicas \<noteq> []" "r = ended [] [] (RequeueAfter requeueWhilePending) shrinks' st s"
  | (locked) replicas e shrinks' where "replicaCountsOf (opReader oper) cluster shrinks = (Inr replicas, shrinks')"
      "rcUnseenShrinks replicas = []" "urPassword (userOf oper cluster s) = Inl e"
      "r = ended (urReports (userOf oper cluster s)) (map Sent (urSent (userOf oper cluster s))) (PassError e) shrinks'
             (loggedIn oper cluster s st) (urState (userOf oper cluster s))"
  | (runs) replicas shrinks' password r' where "provisioned oper cluster shrinks s replicas shrinks' password"
      "volumeStage ops oper (opEnvironment oper password) cluster replicas shrinks'
         (loggedIn oper cluster s st) (urState (userOf oper cluster s)) = Some r'"
      "r = after (map Sent (urSent (userOf oper cluster s))) r'"
proof -
  obtain counts shrinks' where counts: "replicaCountsOf (opReader oper) cluster shrinks = (counts, shrinks')" by fastforce
  note run = assms [unfolded reconcileCluster_def Let_def counts]
  consider e where "counts = Inl e" | replicas where "counts = Inr replicas" "rcUnseenShrinks replicas \<noteq> []"
    | replicas e where "counts = Inr replicas" "rcUnseenShrinks replicas = []" "urPassword (userOf oper cluster s) = Inl e"
    | replicas password where "counts = Inr replicas" "rcUnseenShrinks replicas = []" "urPassword (userOf oper cluster s) = Inr password"
    by (metis sum.exhaust)
  then show thesis
  proof cases
    case (1 e)
    with run counts show thesis by (auto intro: unread)
  next
    case (2 replicas)
    with run counts show thesis by (auto intro: deferred)
  next
    case (3 replicas e)
    with run counts show thesis by (auto intro: locked)
  next
    case (4 replicas password)
    then have "provisioned oper cluster shrinks s replicas shrinks' password"
      using counts by (simp add: provisioned_def)
    with run 4 show thesis by (auto intro: runs)
  qed
qed

section \<open>The order of a pass\<close>

lemma urSent_cases:
  "urSent (reconcileSystemUser cy api lister cluster s) = []
   \<or> (\<exists>hash. urSent (reconcileSystemUser cy api lister cluster s) = [SecretOf (SystemUserHashSecret cluster hash)])"
proof (cases rule: reconcileSystemUser_cases [where cy = cy and api = api and lister = lister and cluster = cluster and s = s])
  case fails
  then show ?thesis by (simp add: userFailed_def)
next
  case sends
  then show ?thesis by (auto simp: storeHash_def applyDesired_one split: sum.split prod.split)
qed

lemma urSent_password:
  assumes "urPassword (reconcileSystemUser cy api lister cluster s) = Inr password"
  shows "\<exists>hash. urSent (reconcileSystemUser cy api lister cluster s) = [SecretOf (SystemUserHashSecret cluster hash)]"
proof (cases rule: reconcileSystemUser_cases [where cy = cy and api = api and lister = lister and cluster = cluster and s = s])
  case fails
  with assms show ?thesis by (simp add: userFailed_def)
next
  case sends
  then show ?thesis by (auto simp: storeHash_def applyDesired_one split: sum.split prod.split)
qed

lemma no_delete:
  assumes "reconcileVolumes cmp rd server namespace roles outcome = Some (out, [], None, acts)"
  shows "DeleteOrphaning n \<notin> set acts"
  using reconcileVolumes_delete [OF assms, of n] by (auto simp: recreatingMessage_def)

lemma reconcileRegistration_one_step:
  assumes "reconcileRegistration en cluster replicas exposure roles claims shrinks st = Some r"
  shows "length (rgSteps r) \<le> 1"
  using assms
proof (cases rule: reconcileRegistration_cases)
  case (rolls topology leader observed lag w')
  from rolls(5) show ?thesis by (cases rule: settleAndRoll_cases) (simp_all add: rollOrFinish_steps)
qed (simp_all add: issueCommands_steps finishRetirement_steps)

text \<open>What a pass applies once its counts are trusted: the desired objects with the live claim sizes restated.\<close>

definition passObjects ::
  "('w, 's) operator \<Rightarrow> MemgraphDBCluster \<Rightarrow> replicaCounts \<Rightarrow> extObject list \<Rightarrow> monitoringObject list \<Rightarrow> desiredObject list" where
  "passObjects oper cluster replicas external monitoring =
     desiredObjects cluster
       (keepLiveSizes (coordinatorSetOf oper cluster replicas) (rrStatefulSet (rcCoordinators replicas)))
       (keepLiveSizes (dataSetOf oper cluster replicas) (rrStatefulSet (rcData replicas))) external monitoring"

text \<open>
  Stages that run in order until one ends the pass: each is what it does and, when it ends the pass, how.
\<close>

fun inOrder :: "('a list \<times> 'b option) list \<Rightarrow> 'a list \<times> 'b option" where
  "inOrder [] = ([], None)"
| "inOrder ((steps, Some outcome) # stages) = (steps, Some outcome)"
| "inOrder ((steps, None) # stages) = (let (later, outcome) = inOrder stages in (steps @ later, outcome))"

text \<open>
  The stages of a pass before it looks at Memgraph, each on its own: the system user, the volumes, the
  apply, the two prunes. An error ends the pass with that error, and so does a StatefulSet that is given
  up to be recreated, which only waits.
\<close>

definition passStages ::
  "('w, 's) operator \<Rightarrow> MemgraphDBCluster \<Rightarrow> replicaCounts \<Rightarrow> 's \<Rightarrow> string \<Rightarrow> extObject list \<Rightarrow> monitoringObject list
     \<Rightarrow> (passStep list \<times> passOutcome option) list" where
  "passStages oper cluster replicas s password external monitoring =
     [(map Sent (urSent (userOf oper cluster s)),
        case urPassword (userOf oper cluster s) of Inl e \<Rightarrow> Some (PassError e) | Inr _ \<Rightarrow> None),
      (case volumesOf oper cluster replicas of
         None \<Rightarrow> ([], None)
       | Some (claims, recreating, err, acts) \<Rightarrow> (map OnVolume acts,
           case err of Some e \<Rightarrow> Some (PassError e)
           | None \<Rightarrow> if recreating \<noteq> [] then Some (RequeueAfter requeueWhilePending) else None)),
      (case applyDesired (saApply (opSecrets oper)) cluster (passObjects oper cluster replicas external monitoring)
           (urState (userOf oper cluster s)) of
         (result, reports, sent, s') \<Rightarrow> (map Sent sent, case result of Inl e \<Rightarrow> Some (PassError e) | Inr _ \<Rightarrow> None)),
      (case prunesExternal oper cluster external of (e, pruned) \<Rightarrow> (map Pruned pruned, map_option PassError e)),
      (case prunesMonitoring oper (opEnvironment oper password) cluster monitoring of
         (e, pruned) \<Rightarrow> (map Pruned pruned, map_option PassError e))]"

lemma registerStage_steps:
  assumes "registerStage ops oper en cluster replicas claims applied shrinks st s = Some r"
  shows "\<exists>steps. length steps \<le> 1 \<and> paSteps r = map OnCluster steps"
  using assms
proof (cases rule: registerStage_cases)
  case fails
  then show ?thesis by simp
next
  case (registers exposure roles license st1 reg)
  from reconcileRegistration_one_step [OF registers(4)] registers(5) show ?thesis by auto
qed

lemma pass_in_order:
  fixes oper cluster s replicas
  assumes "reconcileCluster ops oper cluster shrinks st s = Some r"
    and "replicaCountsOf (opReader oper) cluster shrinks = (Inr replicas, shrinks')" "rcUnseenShrinks replicas = []"
  defines "stages \<equiv> passStages oper cluster replicas s"
  shows "\<exists>password external monitoring steps.
    (\<forall>p. urPassword (userOf oper cluster s) = Inr p \<longrightarrow> p = password)
    \<and> (snd (inOrder (take 2 (stages password external monitoring))) = None
        \<longrightarrow> wants oper (opEnvironment oper password) cluster replicas external monitoring)
    \<and> length steps \<le> 1
    \<and> inOrder (stages password external monitoring @ [(map OnCluster steps, Some (paOutcome r))]) = (paSteps r, Some (paOutcome r))"
  using assms(1)
proof (cases rule: reconcileCluster_cases)
  case unread
  with assms(2) show ?thesis by simp
next
  case deferred
  with assms(2,3) show ?thesis by simp
next
  case (locked replicas1 e)
  then show ?thesis by (intro exI [of _ "[]"]) (simp add: stages_def passStages_def numeral_2_eq_2 del: reconcileVolumes.simps)
next
  case (runs replicas1 shrinks1 password r')
  then have same: "replicas1 = replicas" using assms(2) by (simp add: provisioned_def)
  note runs = runs [unfolded same]
  from runs(1) have pw: "urPassword (userOf oper cluster s) = Inr password" by (simp add: provisioned_def)
  show ?thesis
  proof (intro exI [of _ password], cases rule: volumeStage_cases [OF runs(2)])
    case (1 claims recreating e acts)
    with pw runs(3) show "\<exists>external monitoring steps. (\<forall>p. urPassword (userOf oper cluster s) = Inr p \<longrightarrow> p = password)
      \<and> (snd (inOrder (take 2 (stages password external monitoring))) = None
        \<longrightarrow> wants oper (opEnvironment oper password) cluster replicas external monitoring)
      \<and> length steps \<le> 1
      \<and> inOrder (stages password external monitoring @ [(map OnCluster steps, Some (paOutcome r))]) = (paSteps r, Some (paOutcome r))"
      by (intro exI [of _ "[]"]) (simp add: stages_def passStages_def numeral_2_eq_2 del: reconcileVolumes.simps)
  next
    case (2 claims recreating acts)
    with pw runs(3) show "\<exists>external monitoring steps. (\<forall>p. urPassword (userOf oper cluster s) = Inr p \<longrightarrow> p = password)
      \<and> (snd (inOrder (take 2 (stages password external monitoring))) = None
        \<longrightarrow> wants oper (opEnvironment oper password) cluster replicas external monitoring)
      \<and> length steps \<le> 1
      \<and> inOrder (stages password external monitoring @ [(map OnCluster steps, Some (paOutcome r))]) = (paSteps r, Some (paOutcome r))"
      by (intro exI [of _ "[]"]) (simp add: stages_def passStages_def numeral_2_eq_2 del: reconcileVolumes.simps)
  next
    case (3 claims acts r2)
    note user_steps = pw 3(1) runs(3) 3(3)
    have finish: "\<exists>external monitoring steps. (\<forall>p. urPassword (userOf oper cluster s) = Inr p \<longrightarrow> p = password)
        \<and> (snd (inOrder (take 2 (stages password external monitoring))) = None
          \<longrightarrow> wants oper (opEnvironment oper password) cluster replicas external monitoring)
        \<and> length steps \<le> 1
        \<and> inOrder (stages password external monitoring @ [(map OnCluster steps, Some (paOutcome r))]) = (paSteps r, Some (paOutcome r))"
      if "wants oper (opEnvironment oper password) cluster replicas external monitoring" "length steps \<le> 1"
        "inOrder (drop 2 (stages password external monitoring) @ [(map OnCluster steps, Some (paOutcome r2))]) = (paSteps r2, Some (paOutcome r2))"
      for external monitoring steps
      using that by (intro exI [of _ external] exI [of _ monitoring] exI [of _ steps])
        (simp add: stages_def passStages_def user_steps numeral_2_eq_2 del: reconcileVolumes.simps)
    from 3(2) show "\<exists>external monitoring steps. (\<forall>p. urPassword (userOf oper cluster s) = Inr p \<longrightarrow> p = password)
        \<and> (snd (inOrder (take 2 (stages password external monitoring))) = None
          \<longrightarrow> wants oper (opEnvironment oper password) cluster replicas external monitoring)
        \<and> length steps \<le> 1
        \<and> inOrder (stages password external monitoring @ [(map OnCluster steps, Some (paOutcome r))]) = (paSteps r, Some (paOutcome r))"
    proof (cases rule: applyStage_cases)
      case (refused external monitoring e sent s')
      then show ?thesis
        by (intro finish [of external monitoring "[]"]) (simp_all add: stages_def passStages_def passObjects_def numeral_2_eq_2 del: reconcileVolumes.simps)
    next
      case (stops external monitoring applied e pruned s')
      then show ?thesis
        by (intro finish [of external monitoring "[]"]) (simp_all add: stages_def passStages_def passObjects_def numeral_2_eq_2 del: reconcileVolumes.simps)
    next
      case (halts external monitoring applied e pruned pruned' s')
      then show ?thesis
        by (intro finish [of external monitoring "[]"]) (simp_all add: stages_def passStages_def passObjects_def numeral_2_eq_2 del: reconcileVolumes.simps)
    next
      case (proceeds external monitoring applied pruned pruned' s' r3)
      from registerStage_steps [OF proceeds(5)] obtain steps where "length steps \<le> 1" "paSteps r3 = map OnCluster steps" by blast
      with proceeds show ?thesis
        by (intro finish [of external monitoring steps]) (simp_all add: stages_def passStages_def passObjects_def numeral_2_eq_2 del: reconcileVolumes.simps)
    qed
  qed
qed

lemma inOrder_append:
  "inOrder (xs @ ys) = (case inOrder xs of (steps, Some outcome) \<Rightarrow> (steps, Some outcome)
     | (steps, None) \<Rightarrow> let (later, outcome) = inOrder ys in (steps @ later, outcome))"
  by (induction xs rule: inOrder.induct) (auto split: prod.splits option.splits)

lemma inOrder_all: "snd (inOrder xs) = None \<longleftrightarrow> (\<forall>stage \<in> set xs. snd stage = None)"
  by (induction xs rule: inOrder.induct) (auto split: prod.splits)

lemma inOrder_steps: "set (fst (inOrder xs)) \<subseteq> (\<Union>stage \<in> set xs. set (fst stage))"
  by (induction xs rule: inOrder.induct) (auto split: prod.splits)

lemma inOrder_stopped:
  assumes "inOrder (xs @ ys) = (steps, outcome)" "step \<in> set steps" "\<forall>stage \<in> set xs. step \<notin> set (fst stage)"
  shows "\<forall>stage \<in> set xs. snd stage = None"
proof (rule ccontr)
  assume "\<not> (\<forall>stage \<in> set xs. snd stage = None)"
  then obtain o1 where "snd (inOrder xs) = Some o1" unfolding inOrder_all [symmetric] by blast
  then have "steps = fst (inOrder xs)" using assms(1) by (simp add: inOrder_append split: prod.splits)
  with assms(2,3) inOrder_steps [of xs] show False by blast
qed

text \<open>No stage before registration takes a step on Memgraph, and only the volumes give a StatefulSet up.\<close>

lemma passStages_steps:
  "stage \<in> set (passStages oper cluster replicas s password external monitoring) \<Longrightarrow> OnCluster step \<notin> set (fst stage)"
  "stage \<in> set (drop 2 (passStages oper cluster replicas s password external monitoring)) \<Longrightarrow> OnVolume act \<notin> set (fst stage)"
  by (auto simp: passStages_def numeral_2_eq_2 simp del: reconcileVolumes.simps split: prod.splits option.splits)

lemma volumes_kept:
  assumes "snd (inOrder (take 2 (passStages oper cluster replicas s password external monitoring))) = None"
    and "stage \<in> set (take 2 (passStages oper cluster replicas s password external monitoring))"
  shows "OnVolume (DeleteOrphaning n) \<notin> set (fst stage)"
proof (cases "volumesOf oper cluster replicas")
  case None
  with assms(2) show ?thesis by (auto simp: passStages_def numeral_2_eq_2 simp del: reconcileVolumes.simps)
next
  case (Some v)
  obtain claims recreating err acts where v: "v = (claims, recreating, err, acts)" by (cases v)
  from assms(1) have "err = None" "recreating = []" unfolding passStages_def Some v
    by (auto simp: numeral_2_eq_2 split: sum.splits option.splits if_splits)
  then have "DeleteOrphaning n \<notin> set acts" using Some v by (intro no_delete [of _ _ _ _ _ _ claims]) (simp del: reconcileVolumes.simps)
  with assms(2) show ?thesis unfolding passStages_def Some v by (auto simp: numeral_2_eq_2)
qed

text \<open>A StatefulSet given up to be recreated ends the pass.\<close>

lemma giving_up_ends:
  fixes oper cluster replicas s password external monitoring
  defines "stages \<equiv> passStages oper cluster replicas s password external monitoring"
  assumes "inOrder (stages @ [(map OnCluster steps, Some outcome)]) = (all, Some outcome)"
    and "OnVolume (DeleteOrphaning n) \<in> set all"
  shows "inOrder (take 2 stages) = (all, Some outcome)"
proof (cases "snd (inOrder (take 2 stages))")
  case None
  have split: "take 2 stages @ drop 2 stages @ [(map OnCluster steps, Some outcome)] = stages @ [(map OnCluster steps, Some outcome)]"
    by (simp only: append_assoc [symmetric] append_take_drop_id)
  have early: "OnVolume (DeleteOrphaning n) \<notin> set (fst stage)" if "stage \<in> set (take 2 stages)" for stage
    using volumes_kept [OF None [unfolded stages_def]] that unfolding stages_def .
  have late: "OnVolume (DeleteOrphaning n) \<notin> set (fst stage)" if "stage \<in> set (drop 2 stages)" for stage
    using passStages_steps(2) that unfolding stages_def .
  have last: "OnVolume (DeleteOrphaning n) \<notin> set (map OnCluster steps)" by auto
  have "OnVolume (DeleteOrphaning n) \<notin> (\<Union>stage \<in> set (take 2 stages @ drop 2 stages @ [(map OnCluster steps, Some outcome)]). set (fst stage))"
    using early late last by (auto simp del: set_map)
  then have "OnVolume (DeleteOrphaning n) \<notin> set (fst (inOrder (stages @ [(map OnCluster steps, Some outcome)])))"
    using inOrder_steps [of "stages @ [(map OnCluster steps, Some outcome)]"] unfolding split by blast
  with assms(2,3) have False by (metis fst_conv)
  then show ?thesis ..
next
  case (Some o1)
  have "inOrder (take 2 stages @ drop 2 stages @ [(map OnCluster steps, Some outcome)]) = inOrder (take 2 stages)"
    using Some by (cases "inOrder (take 2 stages)") (simp add: inOrder_append [of "take 2 stages"] del: append_assoc)
  moreover have "take 2 stages @ drop 2 stages @ [(map OnCluster steps, Some outcome)] = stages @ [(map OnCluster steps, Some outcome)]"
    by (simp only: append_assoc [symmetric] append_take_drop_id)
  ultimately show ?thesis using assms(2) by simp
qed

text \<open>
  C29: A pass whose counts cannot be read or trusted does nothing. Any other is its stages in one order,
  each waiting for the one before to succeed: the system user's hash, the volumes, the apply of the whole
  list of objects, pruning the external and then the monitoring objects, and at most one step on the
  Memgraph cluster. What a pass did is what the stages did up to and including the first that ended it,
  and the pass ends as that stage did: with its error, or, when a StatefulSet was given up to be
  recreated, waiting, with nothing applied. So a step is only ever taken on the Memgraph cluster when the
  hash, the volumes, every object and both prunes succeeded.
\<close>

theorem pass_order:
  assumes "reconcileCluster ops oper cluster shrinks st s = Some r"
  shows "case replicaCountsOf (opReader oper) cluster shrinks of
    (Inl e, _) \<Rightarrow> paSteps r = [] \<and> paOutcome r = PassError e
  | (Inr replicas, _) \<Rightarrow>
      if rcUnseenShrinks replicas \<noteq> [] then paSteps r = [] \<and> paOutcome r = RequeueAfter requeueWhilePending
      else \<exists>password external monitoring steps. let stages = passStages oper cluster replicas s password external monitoring in
        (\<forall>p. urPassword (userOf oper cluster s) = Inr p \<longrightarrow> p = password
           \<and> (\<exists>hash. urSent (userOf oper cluster s) = [SecretOf (SystemUserHashSecret cluster hash)]))
        \<and> (snd (inOrder (take 2 stages)) = None \<longrightarrow> wants oper (opEnvironment oper password) cluster replicas external monitoring)
        \<and> length steps \<le> 1
        \<and> inOrder (stages @ [(map OnCluster steps, Some (paOutcome r))]) = (paSteps r, Some (paOutcome r))
        \<and> (\<forall>n. OnVolume (DeleteOrphaning n) \<in> set (paSteps r) \<longrightarrow> inOrder (take 2 stages) = (paSteps r, Some (paOutcome r)))
        \<and> (\<forall>step. OnCluster step \<in> set (paSteps r) \<longrightarrow> (\<forall>stage \<in> set stages. snd stage = None))"
proof -
  obtain counts shrinks' where counts: "replicaCountsOf (opReader oper) cluster shrinks = (counts, shrinks')" by fastforce
  show ?thesis
  proof (cases counts)
    case (Inl e)
    with counts assms show ?thesis by (auto simp: reconcileCluster_def)
  next
    case (Inr replicas)
    show ?thesis
    proof (cases "rcUnseenShrinks replicas = []")
      case False
      with counts Inr assms show ?thesis by (auto simp: reconcileCluster_def)
    next
      case True
      from pass_in_order [OF assms counts [unfolded Inr] True] obtain password external monitoring steps where
        p: "\<forall>p. urPassword (userOf oper cluster s) = Inr p \<longrightarrow> p = password"
        "snd (inOrder (take 2 (passStages oper cluster replicas s password external monitoring))) = None
          \<longrightarrow> wants oper (opEnvironment oper password) cluster replicas external monitoring" "length steps \<le> 1"
        "inOrder (passStages oper cluster replicas s password external monitoring @ [(map OnCluster steps, Some (paOutcome r))])
          = (paSteps r, Some (paOutcome r))" by (elim exE conjE) (rule that)
      let ?stages = "passStages oper cluster replicas s password external monitoring"
      have kept: "\<forall>n. OnVolume (DeleteOrphaning n) \<in> set (paSteps r) \<longrightarrow> inOrder (take 2 ?stages) = (paSteps r, Some (paOutcome r))"
        using giving_up_ends [OF p(4)] by (intro allI impI)
      have registers: "\<forall>step. OnCluster step \<in> set (paSteps r) \<longrightarrow> (\<forall>stage \<in> set ?stages. snd stage = None)"
        by (intro allI impI, rule inOrder_stopped [OF p(4)], assumption, intro ballI, rule passStages_steps(1))
      have user: "\<forall>p. urPassword (userOf oper cluster s) = Inr p \<longrightarrow> p = password
           \<and> (\<exists>hash. urSent (userOf oper cluster s) = [SecretOf (SystemUserHashSecret cluster hash)])"
      proof (intro allI impI)
        fix q assume q: "urPassword (userOf oper cluster s) = Inr q"
        from p(1) q have "q = password" by (elim allE impE)
        with urSent_password [OF q] show "q = password
           \<and> (\<exists>hash. urSent (userOf oper cluster s) = [SecretOf (SystemUserHashSecret cluster hash)])" by (intro conjI)
      qed
      have trusted: "\<not> rcUnseenShrinks replicas \<noteq> []" using True by simp
      from user p(2-4) kept registers have "\<exists>password external monitoring steps. let stages = passStages oper cluster replicas s password external monitoring in
        (\<forall>p. urPassword (userOf oper cluster s) = Inr p \<longrightarrow> p = password
           \<and> (\<exists>hash. urSent (userOf oper cluster s) = [SecretOf (SystemUserHashSecret cluster hash)]))
        \<and> (snd (inOrder (take 2 stages)) = None \<longrightarrow> wants oper (opEnvironment oper password) cluster replicas external monitoring)
        \<and> length steps \<le> 1
        \<and> inOrder (stages @ [(map OnCluster steps, Some (paOutcome r))]) = (paSteps r, Some (paOutcome r))
        \<and> (\<forall>n. OnVolume (DeleteOrphaning n) \<in> set (paSteps r) \<longrightarrow> inOrder (take 2 stages) = (paSteps r, Some (paOutcome r)))
        \<and> (\<forall>step. OnCluster step \<in> set (paSteps r) \<longrightarrow> (\<forall>stage \<in> set stages. snd stage = None))"
        unfolding Let_def by (intro exI [of _ password] exI [of _ external] exI [of _ monitoring] exI [of _ steps] conjI)
      with trusted show ?thesis unfolding counts Inr prod.case sum.case by (simp only: if_False)
    qed
  qed
qed

lemma keepLiveSizes_fields:
  "bsName (keepLiveSizes sts live) = bsName sts" "bsReplicas (keepLiveSizes sts live) = bsReplicas sts"
  "map cloTemplate (bsClaims (keepLiveSizes sts live)) = KeepLiveSizes (map cloTemplate (bsClaims sts)) (map_option ssTemplates live)"
proof -
  have "length (KeepLiveSizes ts templates) = length ts" for ts templates
    by (simp add: KeepLiveSizes_def split: option.split)
  then have "length (bsClaims sts) = length (KeepLiveSizes (map cloTemplate (bsClaims sts)) (map_option ssTemplates live))" by simp
  then show "map cloTemplate (bsClaims (keepLiveSizes sts live)) = KeepLiveSizes (map cloTemplate (bsClaims sts)) (map_option ssTemplates live)"
    by (auto simp: keepLiveSizes_def list_eq_iff_nth_eq)
qed (simp_all add: keepLiveSizes_def)

lemma role_set_fields:
  "bsName (CoordinatorStatefulSet tk digest hash cluster n) = CoordinatorName cluster"
  "bsReplicas (CoordinatorStatefulSet tk digest hash cluster n) = n"
  "bsName (DataStatefulSet tk digest hash cluster n) = DataName cluster"
  "bsReplicas (DataStatefulSet tk digest hash cluster n) = n"
  by (simp_all add: CoordinatorStatefulSet_def DataStatefulSet_def statefulSet_def Let_def)

section \<open>An apply never takes a pod or a byte away\<close>

lemma replicaCountsOf_roles:
  assumes "replicaCountsOf rd cluster shrinks = (Inr replicas, shrinks')"
  obtains unseen s1 unseen' s2 where
    "resolveRole rd (mcNamespace cluster) (CoordinatorName cluster) (DeclaredCoordinators cluster)
       (CoordinatorPodSelector cluster) shrinks = (Inr (rcCoordinators replicas, unseen), s1)"
    "resolveRole rd (mcNamespace cluster) (DataName cluster) (DeclaredDataInstances cluster)
       (DataPodSelector cluster) s1 = (Inr (rcData replicas, unseen'), s2)"
  using assms by (auto simp: replicaCountsOf_def split: prod.splits sum.splits)

lemma resolveRole_live:
  assumes "resolveRole rd namespace name declared selector shrinks = (Inr (role, unseen), shrinks')"
  shows "declared \<le> rrApplied role"
    and "rGet rd (namespace, name) = Found live \<Longrightarrow> rrStatefulSet role = Some live"
    and "rGet rd (namespace, name) = Found live \<Longrightarrow> ssReplicas live = Some n \<Longrightarrow> n \<le> rrApplied role"
proof -
  from resolveRole_Inr [OF assms] obtain sts current where r:
    "getStatefulSet rd namespace name = Inr sts" "currentCount rd namespace name selector sts = Inr current"
    "role = \<lparr>rrName = name, rrDeclared = declared, rrApplied = max declared current, rrStatefulSet = sts\<rparr>" .
  show "declared \<le> rrApplied role" by (simp add: r(3))
  show live: "rrStatefulSet role = Some live" if "rGet rd (namespace, name) = Found live"
    using r(1,3) that by (simp add: getStatefulSet_def)
  show "n \<le> rrApplied role" if "rGet rd (namespace, name) = Found live" "ssReplicas live = Some n"
    using r(2,3) live [OF that(1)] that(2) by (simp add: currentCount_def)
qed

lemma role_names: "CoordinatorName cluster \<noteq> DataName cluster"
  by (simp add: CoordinatorName_def DataName_def coordinatorComponent_def dataComponent_def)

lemma passObjects_sets:
  "StatefulSetOf sts \<in> set (passObjects oper cluster replicas external monitoring) \<longleftrightarrow>
     sts = keepLiveSizes (coordinatorSetOf oper cluster replicas) (rrStatefulSet (rcCoordinators replicas))
     \<or> sts = keepLiveSizes (dataSetOf oper cluster replicas) (rrStatefulSet (rcData replicas))"
proof -
  have other: "StatefulSetOf sts \<notin> set (map ExternalOf external)" "StatefulSetOf sts \<notin> set (map MonitoringOf monitoring)" by auto
  show ?thesis unfolding passObjects_def desiredObjects_def set_append Un_iff by (simp only: other) (simp add: workloadObjects_def)
qed

text \<open>What a pass sends is the hash of the system user or one of the objects its builders want.\<close>

lemma applyStage_sent:
  assumes "applyStage ops oper en cluster replicas claims coordinatorSet dataSet shrinks st s = Some r" "Sent obj \<in> set (paSteps r)"
  obtains external monitoring where "wants oper en cluster replicas external monitoring"
    "obj \<in> set (desiredObjects cluster coordinatorSet dataSet external monitoring)"
  using assms(1)
proof (cases rule: applyStage_cases)
  case (refused external monitoring e sent s')
  from applyDesired_outcome [OF refused(2)] obtain rest where
    "desiredObjects cluster coordinatorSet dataSet external monitoring = sent @ rest" by auto
  moreover have "obj \<in> set sent" using assms(2) refused(3) by auto
  ultimately show thesis using that [OF refused(1)] by simp
next
  case (stops external monitoring applied e pruned s')
  with assms(2) that [OF stops(1)] show thesis by auto
next
  case (halts external monitoring applied e pruned pruned' s')
  with assms(2) that [OF halts(1)] show thesis by auto
next
  case (proceeds external monitoring applied pruned pruned' s' r')
  from registerStage_steps [OF proceeds(5)] have "Sent obj \<notin> set (paSteps r')" by auto
  with proceeds(6) assms(2) that [OF proceeds(1)] show thesis by auto
qed

lemma pass_sent:
  assumes "reconcileCluster ops oper cluster shrinks st s = Some r" "Sent obj \<in> set (paSteps r)"
  obtains (hash) hash where "obj = SecretOf (SystemUserHashSecret cluster hash)"
  | (wanted) replicas shrinks' password external monitoring where "provisioned oper cluster shrinks s replicas shrinks' password"
      "wants oper (opEnvironment oper password) cluster replicas external monitoring"
      "obj \<in> set (passObjects oper cluster replicas external monitoring)"
  using assms(1)
proof (cases rule: reconcileCluster_cases)
  case unread
  with assms(2) show thesis by simp
next
  case deferred
  with assms(2) show thesis by simp
next
  case locked
  with assms(2) urSent_cases [of "opCrypto oper" "opSecrets oper" "opLister oper" cluster s] hash show thesis by auto
next
  case (runs replicas shrinks' password r')
  from runs(3) assms(2) consider "obj \<in> set (urSent (userOf oper cluster s))" | "Sent obj \<in> set (paSteps r')" by auto
  then show thesis
  proof cases
    case 1
    with urSent_cases [of "opCrypto oper" "opSecrets oper" "opLister oper" cluster s] hash show thesis by auto
  next
    case 2
    from runs(2) show thesis
    proof (cases rule: volumeStage_cases)
      case fails
      with 2 show thesis by auto
    next
      case recreates
      with 2 show thesis by auto
    next
      case (grown claims acts r2)
      with 2 have "Sent obj \<in> set (paSteps r2)" by auto
      from applyStage_sent [OF grown(2) this] wanted [OF runs(1)] show thesis unfolding passObjects_def by blast
    qed
  qed
qed

lemma pass_sent_set:
  assumes "reconcileCluster ops oper cluster shrinks st s = Some r" "Sent (StatefulSetOf sts) \<in> set (paSteps r)"
  obtains replicas shrinks' password where "provisioned oper cluster shrinks s replicas shrinks' password"
    "sts = keepLiveSizes (coordinatorSetOf oper cluster replicas) (rrStatefulSet (rcCoordinators replicas))
     \<or> sts = keepLiveSizes (dataSetOf oper cluster replicas) (rrStatefulSet (rcData replicas))"
  using assms
proof (cases rule: pass_sent)
  case (wanted replicas shrinks' password external monitoring)
  with that [OF wanted(1)] show thesis by (simp only: passObjects_sets)
qed simp

text \<open>The size a role's StatefulSet is applied with: the live one of every template the live object has.\<close>

definition restated :: "claimTemplate list \<Rightarrow> claimTemplate list \<Rightarrow> claimTemplate list \<Rightarrow> bool" where
  "restated declared live applied \<longleftrightarrow> map ctName applied = map ctName declared
     \<and> (\<forall>name. map_of (TemplateSizes applied) name =
          (if name \<in> set (map ctName declared)
           then case map_of (TemplateSizes live) name of Some live_size \<Rightarrow> Some live_size | None \<Rightarrow> map_of (TemplateSizes declared) name
           else None))"

lemma KeepLiveSizes_restated:
  assumes "lawfulCmp cmp"
  shows "restated declared live (KeepLiveSizes declared (Some live))"
proof -
  have "map_of (TemplateSizes declared) name = None \<longleftrightarrow> name \<notin> set (map ctName declared)" for name
    by (simp add: TemplateSizes_lookup index_by_None)
  with KeepLiveSizes_restates [OF assms, of declared live] show ?thesis by (simp add: restated_def)
qed


section \<open>A pass always ends\<close>

text \<open>What Kubernetes bounds: replica counts below the largest \<open>int32\<close>, and the ordinals pods are named by.\<close>

definition smallCounts :: "reader \<Rightarrow> bool" where
  "smallCounts rd \<longleftrightarrow> (\<forall>key live n. rGet rd key = Found live \<and> ssReplicas live = Some n \<longrightarrow> n < int32_max)
     \<and> (\<forall>namespace selector pods pod name i. rList rd namespace selector = Inr pods \<and> pod \<in> set pods
          \<and> podOrdinal name (kpName pod) = Some i \<longrightarrow> i < int32_max - 1)"

lemma resolveRole_small:
  assumes "resolveRole rd namespace name declared selector shrinks = (Inr (role, unseen), shrinks')"
    and "smallCounts rd" "declared < int32_max"
  shows "rrApplied role < int32_max"
proof -
  from resolveRole_Inr [OF assms(1)] obtain sts current where r:
    "getStatefulSet rd namespace name = Inr sts" "currentCount rd namespace name selector sts = Inr current"
    "role = \<lparr>rrName = name, rrDeclared = declared, rrApplied = max declared current, rrStatefulSet = sts\<rparr>" .
  have "current < int32_max"
  proof (cases sts)
    case (Some live)
    with r(1) have "rGet rd (namespace, name) = Found live" by (simp add: getStatefulSet_def split: getResult.splits)
    moreover have "(0 :: int) < int32_max" by (simp add: int32_max_def)
    ultimately show ?thesis using r(2) assms(2) Some by (auto simp: currentCount_def smallCounts_def split: option.splits)
  next
    case None
    with r(2) obtain pods where pods: "rList rd namespace selector = Inr pods"
      "current = countOrdinals (\<lambda>pod. podOrdinal name (kpName pod)) pods 0"
      by (auto simp: currentCount_def runningOrdinals_def split: sum.splits)
    have "wrap32 (i + 1) < int32_max" if "pod \<in> set pods" "podOrdinal name (kpName pod) = Some i" for pod i
    proof -
      from assms(2) pods(1) that have i: "i < int32_max - 1" unfolding smallCounts_def by blast
      moreover have "0 \<le> i" using that(2) by (simp add: podOrdinal_iff)
      ultimately show ?thesis by (simp add: wrap32_id is_int32_def int32_min_def int32_max_def)
    qed
    with countOrdinals_reached [of "\<lambda>pod. podOrdinal name (kpName pod)" pods 0] pods(2) show ?thesis
      by (auto simp: int32_max_def)
  qed
  with assms(3) show ?thesis by (simp add: r(3))
qed

lemma desiredExternal_returns:
  assumes "0 \<le> n" "n < int32_max"
  shows "\<exists>external. desiredExternal api cluster n = Some external"
proof -
  from assms have "wrap32 (1 + n) = 1 + n" by (intro wrap32_id) (simp add: is_int32_def int32_min_def int32_max_def)
  with assms(1) show ?thesis by (simp add: desiredExternal_def ExternalServices_def Gateway_def TCPRoutes_def Let_def)
qed

lemma setStatus_spec: "mcSpec (setStatus ops cluster ob cs) = mcSpec cluster" "mcName (setStatus ops cluster ob cs) = mcName cluster"
  "mcNamespace (setStatus ops cluster ob cs) = mcNamespace cluster"
  by (simp_all add: setStatus_def)

lemma declared_spec:
  "mcSpec cluster = mcSpec cluster' \<Longrightarrow> DeclaredCoordinators cluster = DeclaredCoordinators cluster'"
  "mcSpec cluster = mcSpec cluster' \<Longrightarrow> DeclaredDataInstances cluster = DeclaredDataInstances cluster'"
  by (simp_all add: DeclaredCoordinators_def DeclaredDataInstances_def)

lemma registerStage_returns:
  assumes "0 < DeclaredCoordinators cluster" "DeclaredCoordinators cluster \<le> int32_max"
    and "0 \<le> DeclaredDataInstances cluster" "DeclaredDataInstances cluster \<le> int32_max"
    and "0 \<le> rrApplied (rcCoordinators replicas)" "rrApplied (rcCoordinators replicas) \<le> int32_max"
    and "0 \<le> rrApplied (rcData replicas)" "rrApplied (rcData replicas) \<le> int32_max"
  shows "\<exists>r. registerStage ops oper en cluster replicas claims applied shrinks st s = Some r"
proof -
  from endpoints_exist(1) [OF assms(7,8)] endpoints_exist(2) [OF assms(5,6)] obtain data coordinators where
    "DataEndpoints cluster (rrApplied (rcData replicas)) = Some data"
    "CoordinatorEndpoints cluster (rrApplied (rcCoordinators replicas)) = Some coordinators" by blast
  then have license: "\<exists>v. reconcileLicense (enDialer en) (enSecrets en) cluster replicas roles st' = Some v" for roles st'
    by (auto simp: reconcileLicense_def Let_def split: sum.split)
  have reg: "\<exists>r. reconcileRegistration en (setStatus ops cluster ob cs) replicas exposure roles claims shrinks st' = Some r"
    for ob cs exposure roles st'
    using assms declared_spec [OF setStatus_spec(1), of ops cluster ob cs]
    by (intro reconcileRegistration_returns) simp_all
  show ?thesis
  proof (cases "observeExternalAccess (opGatewayAPI oper) (opGatewayMissing oper) (opGatewayVersion oper) (opExposure oper) cluster")
    case (Inl e)
    then show ?thesis by (simp add: registerStage_def)
  next
    case exposure: (Inr exposure)
    show ?thesis
    proof (cases "observeRollout (opReader oper) cluster replicas (appliedSet applied)")
      case (Inl e)
      with exposure show ?thesis by (simp add: registerStage_def)
    next
      case (Inr roles)
      from license obtain v st1 where
        "reconcileLicense (enDialer en) (enSecrets en) cluster replicas roles (st\<lparr>psReads := Map.empty\<rparr>) = Some (v, st1)"
        by (metis surj_pair)
      moreover from reg obtain r where
        "reconcileRegistration en (setStatus ops cluster (lastObserved cluster) [v]) replicas exposure roles claims shrinks st1 = Some r"
        by blast
      ultimately show ?thesis using exposure Inr by (simp add: registerStage_def Let_def)
    qed
  qed
qed

lemma applyStage_returns:
  assumes "\<And>applied s'. \<exists>r. registerStage ops oper en cluster replicas claims applied shrinks st s' = Some r"
    and "0 \<le> rrApplied (rcData replicas)" "rrApplied (rcData replicas) < int32_max"
  shows "(\<exists>r. applyStage ops oper en cluster replicas claims coordinatorSet dataSet shrinks st s = Some r)
    \<longleftrightarrow> scrapable cluster (rrApplied (rcCoordinators replicas)) (rrApplied (rcData replicas))"
proof -
  from desiredExternal_returns [OF assms(2,3)] obtain external where external:
    "desiredExternal (opGatewayAPI oper) cluster (rrApplied (rcData replicas)) = Some external" by blast
  note monitoring = desiredMonitoring_returns [of "enServiceMonitorAPI en" "opDashboard oper" cluster
      "rrApplied (rcCoordinators replicas)" "rrApplied (rcData replicas)"]
  show ?thesis
  proof (cases "scrapable cluster (rrApplied (rcCoordinators replicas)) (rrApplied (rcData replicas))")
    case True
    with monitoring obtain objs where "desiredMonitoring (enServiceMonitorAPI en) (opDashboard oper) cluster
      (rrApplied (rcCoordinators replicas)) (rrApplied (rcData replicas)) = Some objs" by blast
    with assms(1) external True show ?thesis
      by (auto simp: applyStage_def Let_def split: prod.split sum.split option.split simp del: not_None_eq)
  next
    case False
    with monitoring have "desiredMonitoring (enServiceMonitorAPI en) (opDashboard oper) cluster
      (rrApplied (rcCoordinators replicas)) (rrApplied (rcData replicas)) = None" by (metis not_None_eq)
    with external False show ?thesis by (simp add: applyStage_def)
  qed
qed

text \<open>The one way a pass panics: it gets to the builders, and the scrape targets of vmagent are too many.\<close>

definition overflows :: "('w, 's) operator \<Rightarrow> MemgraphDBCluster \<Rightarrow> StatefulSets \<Rightarrow> 's \<Rightarrow> bool" where
  "overflows oper cluster shrinks s \<longleftrightarrow> (\<exists>replicas shrinks' password claims acts.
     provisioned oper cluster shrinks s replicas shrinks' password
     \<and> volumesOf oper cluster replicas = Some (claims, [], None, acts)
     \<and> UsesVMAgent cluster \<and> int32_max < rrApplied (rcCoordinators replicas) + rrApplied (rcData replicas))"

lemma scrapable_iff:
  assumes "0 \<le> n" "n < int32_max" "0 \<le> m" "m < int32_max"
  shows "scrapable cluster n m \<longleftrightarrow> \<not> (UsesVMAgent cluster \<and> int32_max < n + m)"
proof (cases "int32_max < n + m")
  case True
  have "n + m < 4294967296" "2147483647 < n + m" using assms(2,4) True by (simp_all add: int32_max_def)
  then have "wrap32 (n + m) < 0" by (simp add: wrap32_def mod_pos_geq)
  with True show ?thesis by (auto simp: scrapable_def)
next
  case False
  with scrapable_small [of n m cluster] assms show ?thesis by simp
qed

lemma reconcileCluster_returns:
  assumes "0 < DeclaredCoordinators cluster" "DeclaredCoordinators cluster < int32_max"
    and "0 \<le> DeclaredDataInstances cluster" "DeclaredDataInstances cluster < int32_max" "smallCounts (opReader oper)"
  shows "reconcileCluster ops oper cluster shrinks st s = None \<longleftrightarrow> overflows oper cluster shrinks s"
proof -
  obtain counts shrinks' where counts: "replicaCountsOf (opReader oper) cluster shrinks = (counts, shrinks')" by fastforce
  have run: "volumeStage ops oper en cluster replicas shrinks' st' s' = None \<longleftrightarrow>
      (\<exists>claims acts. volumesOf oper cluster replicas = Some (claims, [], None, acts))
      \<and> UsesVMAgent cluster \<and> int32_max < rrApplied (rcCoordinators replicas) + rrApplied (rcData replicas)"
    if "counts = Inr replicas" for replicas en st' s'
  proof -
    from counts that obtain unseen s1 unseen' s2 where roles:
      "resolveRole (opReader oper) (mcNamespace cluster) (CoordinatorName cluster) (DeclaredCoordinators cluster)
         (CoordinatorPodSelector cluster) shrinks = (Inr (rcCoordinators replicas, unseen), s1)"
      "resolveRole (opReader oper) (mcNamespace cluster) (DataName cluster) (DeclaredDataInstances cluster)
         (DataPodSelector cluster) s1 = (Inr (rcData replicas, unseen'), s2)"
      by (auto elim: replicaCountsOf_roles)
    from resolveRole_small [OF roles(1) assms(5,2)] resolveRole_small [OF roles(2) assms(5,4)]
    have small: "rrApplied (rcCoordinators replicas) < int32_max" "rrApplied (rcData replicas) < int32_max" .
    from resolveRole_live(1) [OF roles(1)] resolveRole_live(1) [OF roles(2)] assms(1,3)
    have low: "0 \<le> rrApplied (rcCoordinators replicas)" "0 \<le> rrApplied (rcData replicas)" by simp_all
    have reg: "\<exists>r. registerStage ops oper en cluster replicas claims applied shrinks' st' t = Some r" for claims applied t
      using assms small low by (intro registerStage_returns) simp_all
    obtain claims recreating err acts where vol: "volumesOf oper cluster replicas = Some (claims, recreating, err, acts)"
      using reconcileVolumes_total by (metis not_None_eq prod_cases4)
    note stage = applyStage_returns [OF reg low(2) small(2), unfolded scrapable_iff [OF low(1) small(1) low(2) small(2)]]
    have "applyStage ops oper en cluster replicas claims coordinatorSet dataSet shrinks' st' s' = None \<longleftrightarrow>
        UsesVMAgent cluster \<and> int32_max < rrApplied (rcCoordinators replicas) + rrApplied (rcData replicas)"
      for coordinatorSet dataSet using stage [of claims coordinatorSet dataSet s'] by (metis not_None_eq)
    then show ?thesis
      unfolding volumeStage_def Let_def vol Option.bind.simps prod.case
      by (cases err; cases "recreating = []") simp_all
  qed
  show ?thesis
  proof (cases counts)
    case (Inl e)
    with counts show ?thesis by (simp add: reconcileCluster_def overflows_def provisioned_def)
  next
    case (Inr replicas)
    show ?thesis
    proof (cases "urPassword (userOf oper cluster s)")
      case (Inl e)
      with counts Inr show ?thesis by (simp add: reconcileCluster_def Let_def overflows_def provisioned_def)
    next
      case password: (Inr password)
      have "overflows oper cluster shrinks s \<longleftrightarrow> rcUnseenShrinks replicas = []
          \<and> (\<exists>claims acts. volumesOf oper cluster replicas = Some (claims, [], None, acts))
          \<and> UsesVMAgent cluster \<and> int32_max < rrApplied (rcCoordinators replicas) + rrApplied (rcData replicas)"
        unfolding overflows_def provisioned_def counts Inr password by blast
      with run [OF Inr] counts Inr password show ?thesis by (simp add: reconcileCluster_def Let_def del: reconcileVolumes.simps)
    qed
  qed
qed


section \<open>The resource over many passes\<close>

lemma license_types: "cType (licenseCondition ref outcome) = ConditionLicenseApplied"
  "cType (notLicenseAppliedCondition reason message) = ConditionLicenseApplied"
  by (simp_all add: licenseCondition_def notLicenseAppliedCondition_def trueCondition_def newCondition_def)

lemma licenseCondition_type:
  assumes "reconcileLicense dl secrets cluster replicas roles st = Some (c, st')"
  shows "cType c = ConditionLicenseApplied"
proof (cases "readLicense secrets (LicenseSecretOf cluster)")
  case (Inl e)
  with assms show ?thesis by (auto simp: reconcileLicense_def Let_def license_types)
next
  case (Inr pair)
  obtain license organization where "pair = (license, organization)" by (cases pair)
  with assms Inr have "\<exists>outcome. c = licenseCondition (LicenseSecretOf cluster) outcome"
    by (auto simp: reconcileLicense_def Let_def bind_eq_Some_conv split_beta)
  then show ?thesis by (auto simp: license_types)
qed

lemma reportable_more [simp]:
  "cType c = ConditionLicenseApplied \<Longrightarrow> reportable c" "reportable (notServingCondition ReasonApplyFailed message)"
  by (simp_all add: reportable_def notServingCondition_def newCondition_def conditionServing_def condition_defs servingReasons_def)

lemma applyFailedReport_reportable: "\<forall>(ob, cs) \<in> set (applyFailedReport cluster e). \<forall>c \<in> set cs. reportable c"
  by (simp add: applyFailedReport_def)

lemma urReports_reportable:
  "\<forall>(ob, cs) \<in> set (urReports (reconcileSystemUser cy api lister cluster s)). \<forall>c \<in> set cs. reportable c"
proof (cases rule: reconcileSystemUser_cases [where cy = cy and api = api and lister = lister and cluster = cluster and s = s])
  case fails
  then show ?thesis by (simp add: userFailed_def)
next
  case sends
  then show ?thesis using applyFailedReport_reportable
    by (auto simp: storeHash_def applyDesired_one split: sum.split prod.split)
qed

text \<open>Every pass reports only what the summary of Ready expects.\<close>

lemma pass_reportable:
  assumes "reconcileCluster ops oper cluster shrinks st s = Some r"
  shows "\<forall>(ob, cs) \<in> set (paReports r). \<forall>c \<in> set cs. reportable c"
  using assms
proof (cases rule: reconcileCluster_cases)
  case unread
  then show ?thesis by simp
next
  case deferred
  then show ?thesis by simp
next
  case locked
  then show ?thesis using urReports_reportable by simp
next
  case (runs replicas shrinks' password r')
  from runs(2) show ?thesis
  proof (cases rule: volumeStage_cases)
    case fails
    with runs(3) show ?thesis by simp
  next
    case recreates
    with runs(3) show ?thesis by (simp add: recreatingReport_def)
  next
    case (grown claims acts r2)
    from grown(2) show ?thesis
    proof (cases rule: applyStage_cases)
      case refused
      with runs(3) grown(3) show ?thesis using applyFailedReport_reportable by simp
    next
      case stops
      with runs(3) grown(3) show ?thesis by simp
    next
      case halts
      with runs(3) grown(3) show ?thesis by simp
    next
      case (proceeds external monitoring applied pruned pruned' s' r3)
      from proceeds(5) show ?thesis
      proof (cases rule: registerStage_cases)
        case fails
        with runs(3) grown(3) proceeds(6) show ?thesis by simp
      next
        case (registers exposure roles license st1 reg)
        with runs(3) grown(3) proceeds(6) reconcileRegistration_reportable [OF registers(4)] licenseCondition_type [OF registers(3)]
        show ?thesis by auto
      qed
    qed
  qed
qed

text \<open>
  The resource in the API server under real passes, with the last serving verdict a pass recorded on it:
  created without conditions, edited by users, and reconciled by any operator with any states and any
  answer to the status patch. A pass records what it reports when nothing is to be written or the write
  is accepted. When the write fails, the resource may be as it was, or have been written all the same.
\<close>

definition afterPass :: "conditionOps \<Rightarrow> MemgraphDBCluster \<Rightarrow> ('w, 's) passResult \<Rightarrow> MemgraphDBCluster" where
  "afterPass ops cluster r = summarizeReady ops (report ops (initialized ops cluster) (paReports r))"

definition statusRecorded ::
  "conditionOps \<Rightarrow> MemgraphDBCluster \<Rightarrow> (MemgraphDBCluster \<Rightarrow> goerror option) \<Rightarrow> ('w, 's) passResult \<Rightarrow> bool" where
  "statusRecorded ops cluster patch r \<longleftrightarrow> mcStatus (afterPass ops cluster r) = mcStatus cluster \<or> patch (afterPass ops cluster r) = None"

inductive operated :: "conditionOps \<Rightarrow> ('w, 's) operator \<Rightarrow> MemgraphDBCluster \<Rightarrow> bool option \<Rightarrow> bool" for ops where
  created: "coFind ops (conditionsOf cluster) ConditionReady = None
    \<Longrightarrow> coFind ops (conditionsOf cluster) conditionServing = None \<Longrightarrow> operated ops oper cluster None"
| edited: "operated ops oper cluster v \<Longrightarrow> operated ops oper' (cluster\<lparr>mcSpec := spec, mcGeneration := generation\<rparr>) v"
| reconciled: "operated ops oper cluster v
    \<Longrightarrow> Reconcile ops oper' (Found cluster) patch shrinks st s = Some (r, written) \<Longrightarrow> statusRecorded ops cluster patch r
    \<Longrightarrow> operated ops oper' (case written of Some final \<Rightarrow> final | None \<Rightarrow> cluster) (lastVerdict v (paReports r))"
| refused: "operated ops oper cluster v
    \<Longrightarrow> Reconcile ops oper' (Found cluster) patch shrinks st s = Some (r, written) \<Longrightarrow> \<not> statusRecorded ops cluster patch r
    \<Longrightarrow> operated ops oper' cluster v"
| unanswered: "operated ops oper cluster v
    \<Longrightarrow> Reconcile ops oper' (Found cluster) patch shrinks st s = Some (r, written) \<Longrightarrow> \<not> statusRecorded ops cluster patch r
    \<Longrightarrow> operated ops oper' (afterPass ops cluster r) (lastVerdict v (paReports r))"

lemma afterPass_status:
  "afterPass ops cluster r = cluster\<lparr>mcStatus := mcStatus (afterPass ops cluster r)\<rparr>"
proof -
  have report: "\<exists>status. report ops c reports = c\<lparr>mcStatus := status\<rparr>" for c reports
  proof (induction reports arbitrary: c)
    case Nil
    show ?case by (intro exI [of _ "mcStatus c"]) (simp add: report_def)
  next
    case (Cons a reports)
    obtain ob cs where a: "a = (ob, cs)" by (cases a)
    from Cons.IH obtain status where "report ops (setStatus ops c ob cs) reports = (setStatus ops c ob cs)\<lparr>mcStatus := status\<rparr>" by blast
    moreover have "(setStatus ops c ob cs)\<lparr>mcStatus := status\<rparr> = c\<lparr>mcStatus := status\<rparr>" by (simp add: setStatus_def)
    ultimately show ?case by (intro exI [of _ status]) (simp add: report_def a)
  qed
  then obtain status where "report ops (initialized ops cluster) (paReports r) = (initialized ops cluster)\<lparr>mcStatus := status\<rparr>" by blast
  then show ?thesis by (simp add: afterPass_def summarizeReady_def Let_def initialized_def)
qed

lemma Reconcile_written:
  assumes "Reconcile ops oper (Found cluster) patch shrinks st s = Some (r, written)"
  obtains r' where "reconcileCluster ops oper (initialized ops cluster) shrinks st s = Some r'" "paReports r = paReports r'"
    "statusRecorded ops cluster patch r \<Longrightarrow> (case written of Some final \<Rightarrow> final | None \<Rightarrow> cluster) = afterPass ops cluster r"
proof -
  from assms obtain r' where run: "reconcileCluster ops oper (initialized ops cluster) shrinks st s = Some r'"
    by (auto simp: Reconcile_def Let_def)
  let ?final = "summarizeReady ops (report ops (initialized ops cluster) (paReports r'))"
  from assms run have result: "(r, written) = (if mcStatus ?final = mcStatus cluster then (r', None)
      else case patch ?final of None \<Rightarrow> (r', Some ?final) | Some e \<Rightarrow> (r'\<lparr>paOutcome := patchError (paOutcome r') e\<rparr>, None))"
    by (simp add: Reconcile_def Let_def)
  then have reports: "paReports r = paReports r'" by (auto split: if_splits option.splits)
  then have final: "afterPass ops cluster r = ?final" by (simp add: afterPass_def)
  show thesis
  proof (rule that [OF run reports])
    assume kept: "statusRecorded ops cluster patch r"
    show "(case written of Some final \<Rightarrow> final | None \<Rightarrow> cluster) = afterPass ops cluster r"
    proof (cases "mcStatus ?final = mcStatus cluster")
      case True
      with result have "written = None" by simp
      moreover have "afterPass ops cluster r = cluster" using afterPass_status [of ops cluster r] True final by simp
      ultimately show ?thesis by simp
    next
      case False
      with kept have "patch ?final = None" by (simp add: statusRecorded_def final)
      with False result final show ?thesis by simp
    qed
  qed
qed

lemma operated_history: "operated ops oper cluster v \<Longrightarrow> history ops cluster v"
proof (induction rule: operated.induct)
  case (reconciled oper cluster v oper' patch shrinks st s r written)
  from Reconcile_written [OF reconciled.hyps(2)] obtain r' where run:
    "reconcileCluster ops oper' (initialized ops cluster) shrinks st s = Some r'" "paReports r = paReports r'"
    "(case written of Some final \<Rightarrow> final | None \<Rightarrow> cluster) = afterPass ops cluster r" using reconciled.hyps(3) by metis
  from history.passed [OF reconciled.IH pass_reportable [OF run(1)]] show ?case by (simp add: run(2,3) afterPass_def)
next
  case (unanswered oper cluster v oper' patch shrinks st s r written)
  from Reconcile_written [OF unanswered.hyps(2)] obtain r' where run:
    "reconcileCluster ops oper' (initialized ops cluster) shrinks st s = Some r'" "paReports r = paReports r'" by metis
  from history.passed [OF unanswered.IH pass_reportable [OF run(1)]] show ?case by (simp add: run(2) afterPass_def)
qed (auto intro: history.intros)


lemma serving_types [simp]:
  "cType (servingOrNot main) = conditionServing" "cStatus (servingOrNot main) = ConditionTrue \<longleftrightarrow> main \<noteq> []"
  "cType (notConvergedCondition reason message) \<noteq> conditionServing"
  "cType (notUpdatedCondition reason message) \<noteq> conditionServing"
  "cType (trueCondition ConditionUpdated reason message) \<noteq> conditionServing"
  "cType (notServingCondition reason message) = conditionServing" "cStatus (notServingCondition reason message) \<noteq> ConditionTrue"
  by (simp_all add: servingOrNot_def notConvergedCondition_def notUpdatedCondition_def notServingCondition_def trueCondition_def
      newCondition_def conditionServing_def condition_defs ConditionTrue_def ConditionFalse_def)

lemma converged_not_serving [simp]: "ConditionConverged \<noteq> conditionServing"
  by (simp add: conditionServing_def condition_defs)

lemma latest_main [simp]: "obMain (exposedAt (observe topology observed) exposure) = observedMain observed"
  by (simp add: exposedAt_def observe_def split: prod.split)

text \<open>A registration step's verdict is True only on the leader's view of a reachable MAIN.\<close>

lemma registration_verdict:
  assumes "reconcileRegistration en cluster replicas exposure roles claims shrinks st = Some r"
    and "lastVerdict v (rgReports r) = Some True" "v \<noteq> Some True"
  shows "workloadsReady replicas roles \<and> (\<exists>topology leader observed lag w'.
    planned en cluster replicas exposure (psWorld st) topology leader observed lag w' \<and> observedMain observed \<noteq> [])"
  using assms(1)
proof (cases rule: reconcileRegistration_cases)
  case blocked
  with assms(2) show ?thesis by (simp add: lastVerdict_def blockedReport_def)
next
  case (issues topology leader observed lag w' commands)
  have "observedMain observed \<noteq> []"
    using assms(2) issues(5) by (auto simp: lastVerdict_def issueCommands_def Let_def progressCondition_def split: prod.splits option.splits if_splits)
  with issues(1,2) show ?thesis by blast
next
  case (retires topology leader observed lag w')
  have "observedMain observed \<noteq> []"
    using assms(2,3) retires(5) by (auto simp: lastVerdict_def finishRetirement_def split: prod.splits option.splits if_splits)
  with retires(1,2) show ?thesis by blast
next
  case (rolls topology leader observed lag w')
  have "observedMain observed \<noteq> []"
    using rolls(5)
  proof (cases rule: settleAndRoll_cases)
    case waits
    with assms(2) show ?thesis by (auto simp: lastVerdict_def)
  next
    case decides
    with assms(2) show ?thesis
      by (auto simp: lastVerdict_def rollOrFinish_def Let_def split: Action.splits option.splits)
  qed
  with rolls(1,2) show ?thesis by blast
qed

lemma other_verdicts:
  "lastVerdict v (applyFailedReport cluster e) \<noteq> Some True"
  "lastVerdict v (recreatingReport cluster message) = v" "lastVerdict v [] = v"
  by (simp_all add: lastVerdict_def applyFailedReport_def recreatingReport_def)

lemma user_verdict:
  "lastVerdict v (urReports (reconcileSystemUser cy api lister cluster s)) = Some True \<Longrightarrow> v = Some True"
proof (cases rule: reconcileSystemUser_cases [where cy = cy and api = api and lister = lister and cluster = cluster and s = s])
  case fails
  then show "lastVerdict v (urReports (reconcileSystemUser cy api lister cluster s)) = Some True \<Longrightarrow> v = Some True"
    by (simp add: userFailed_def other_verdicts)
next
  case (sends password events s1 fips hash landed)
  then have "urReports (reconcileSystemUser cy api lister cluster s) = []
      \<or> (\<exists>e. urReports (reconcileSystemUser cy api lister cluster s) = applyFailedReport cluster e)"
    by (auto simp: storeHash_def applyDesired_one split: sum.split prod.split)
  then show "lastVerdict v (urReports (reconcileSystemUser cy api lister cluster s)) = Some True \<Longrightarrow> v = Some True"
    using other_verdicts by auto
qed

text \<open>
  C33: A pass turns the serving verdict to True only on what it saw itself. Its counts were trusted and its
  password known, the API server accepted every object it wanted and both prunes succeeded; on the
  StatefulSets as that apply answered, it observed the exposure and the roles, whose pods were ready; it
  settled the license; and in the world the license step left, a coordinator leader's own view, read over
  a connection to that leader, named a reachable MAIN. A pass that stops anywhere before never does.
\<close>

theorem serving_verdict_observed:
  assumes "reconcileCluster ops oper cluster shrinks st s = Some r"
    and "lastVerdict v (paReports r) = Some True" "v \<noteq> Some True"
  shows "\<exists>replicas shrinks' password external monitoring applied s' license st1 exposure roles topology leader observed lag w'.
    provisioned oper cluster shrinks s replicas shrinks' password
    \<and> wants oper (opEnvironment oper password) cluster replicas external monitoring
    \<and> applyDesired (saApply (opSecrets oper)) cluster (passObjects oper cluster replicas external monitoring)
        (urState (userOf oper cluster s)) = (Inr applied, [], passObjects oper cluster replicas external monitoring, s')
    \<and> fst (prunesExternal oper cluster external) = None
    \<and> fst (prunesMonitoring oper (opEnvironment oper password) cluster monitoring) = None
    \<and> exposureOf oper cluster = Inr exposure
    \<and> observeRollout (opReader oper) cluster replicas (appliedSet applied) = Inr roles \<and> workloadsReady replicas roles
    \<and> reconcileLicense (enDialer (opEnvironment oper password)) (enSecrets (opEnvironment oper password)) cluster replicas roles
        ((loggedIn oper cluster s st)\<lparr>psReads := Map.empty\<rparr>) = Some (license, st1)
    \<and> planned (opEnvironment oper password) (setStatus ops cluster (lastObserved cluster) [license]) replicas exposure (psWorld st1)
        topology leader observed lag w'
    \<and> observedMain observed \<noteq> []"
  using assms(1)
proof (cases rule: reconcileCluster_cases)
  case unread
  with assms(2,3) show ?thesis by (simp add: other_verdicts)
next
  case deferred
  with assms(2,3) show ?thesis by (simp add: other_verdicts)
next
  case locked
  with assms(2) have "lastVerdict v (urReports (userOf oper cluster s)) = Some True" by simp
  from user_verdict [OF this] assms(3) show ?thesis by simp
next
  case (runs replicas shrinks' password r')
  from runs(2) show ?thesis
  proof (cases rule: volumeStage_cases)
    case fails
    with runs(3) assms(2,3) show ?thesis by (simp add: other_verdicts)
  next
    case recreates
    with runs(3) assms(2,3) show ?thesis by (simp add: other_verdicts)
  next
    case (grown claims acts r2)
    from grown(2) show ?thesis
    proof (cases rule: applyStage_cases)
      case refused
      with runs(3) grown(3) assms(2,3) show ?thesis by (simp add: other_verdicts)
    next
      case stops
      with runs(3) grown(3) assms(2,3) show ?thesis by (simp add: other_verdicts)
    next
      case halts
      with runs(3) grown(3) assms(2,3) show ?thesis by (simp add: other_verdicts)
    next
      case (proceeds external monitoring applied pruned pruned' s' r3)
      from proceeds(5) show ?thesis
      proof (cases rule: registerStage_cases)
        case fails
        with runs(3) grown(3) proceeds(6) assms(2,3) show ?thesis by (simp add: other_verdicts)
      next
        case (registers exposure roles license st1 reg)
        have "cType license \<noteq> conditionServing"
          using licenseCondition_type [OF registers(3)] by (simp add: conditionServing_def condition_defs)
        then have "lastVerdict v (paReports r) = lastVerdict v (rgReports reg)"
          using runs(3) grown(3) proceeds(6) registers(5) by (simp add: lastVerdict_def)
        with assms(2) have "lastVerdict v (rgReports reg) = Some True" by simp
        note seen = registration_verdict [OF registers(4) this assms(3)]
        have "fst (prunesExternal oper cluster external) = None"
          "fst (prunesMonitoring oper (opEnvironment oper password) cluster monitoring) = None"
          by (simp_all add: proceeds(3,4))
        with runs(1) proceeds(1,2) registers(1-3) seen show ?thesis unfolding passObjects_def by blast
      qed
    qed
  qed
qed

section \<open>A pass from end to end\<close>

text \<open>
  A new cluster: both StatefulSets run at the declared counts, the Secrets are empty, and coordinator 0
  names itself leader and a data instance MAIN, with no Bolt address of its own registered yet.
\<close>

definition exServing :: "Instance list" where
  "exServing = exView0 @ [\<lparr>iName = DataInstanceName 0, iBoltServer = [], iCoordinatorServer = [], iManagementServer = [],
     iHealth = HealthUp, iRole = RoleMain\<rparr>]"

definition exServingWorld :: fakeMemgraph where
  "exServingWorld = newFakeMemgraph\<lparr>fStaleViews := (\<lambda>_. Some exServing)\<rparr>"

definition exLive :: "string \<Rightarrow> StatefulSet" where
  "exLive name = exStatefulSet 1 (if name = CoordinatorName exCluster then 3 else 2)"

definition exOperator :: "(fakeMemgraph, string \<Rightarrow> stringMap option) operator" where
  "exOperator = \<lparr>opEnvironment = (\<lambda>_. exEnvironment),
     opReader = \<lparr>rGet = (\<lambda>(_, name). Found (exLive name)), rList = (\<lambda>_ _. Inr [])\<rparr>,
     opLister = (\<lambda>_. Inr []), opCrypto = exCrypto, opSecrets = exSecretAPI, opVolumes = exVolumeServer, opCmp = lengthCmp,
     opPrune = \<lparr>psList = (\<lambda>_ _ _. Inr []), psDelete = (\<lambda>_ _ _. Accepted)\<rparr>,
     opExposure = exExposureReader, opGatewayAPI = False, opGatewayMissing = [], opGatewayVersion = [], opClusterUID = ''c'',
     opTokens = exTokens, opDigest = id, opHash = (\<lambda>_. []), opDashboard = []\<rparr>"

definition exStart :: "fakeMemgraph passState" where
  "exStart = \<lparr>psWorld = exServingWorld, psReads = Map.empty, psEvents = []\<rparr>"

definition exApplied :: replicaCounts where
  "exApplied = (let role = (\<lambda>name n. \<lparr>rrName = name, rrDeclared = n, rrApplied = n, rrStatefulSet = Some (exLive name)\<rparr>) in
     \<lparr>rcCoordinators = role (CoordinatorName exCluster) 3, rcData = role (DataName exCluster) 2, rcUnseenShrinks = []\<rparr>)"

lemma exOperator_fields [simp]:
  "opEnvironment exOperator = (\<lambda>_. exEnvironment)" "opReader exOperator = \<lparr>rGet = (\<lambda>(_, name). Found (exLive name)), rList = (\<lambda>_ _. Inr [])\<rparr>"
  "opLister exOperator = (\<lambda>_. Inr [])" "opCrypto exOperator = exCrypto" "opSecrets exOperator = exSecretAPI"
  "opVolumes exOperator = exVolumeServer" "opCmp exOperator = lengthCmp"
  "opPrune exOperator = \<lparr>psList = (\<lambda>_ _ _. Inr []), psDelete = (\<lambda>_ _ _. Accepted)\<rparr>"
  "opGatewayAPI exOperator = False"
  by (simp_all add: exOperator_def)

lemma exCounts_resolved: "replicaCountsOf (opReader exOperator) exCluster Map.empty = (Inr exApplied, Map.empty)"
  using role_names [of exCluster]
  by (simp add: replicaCountsOf_def resolveRole_def getStatefulSet_def Satisfied_def currentCount_def exCluster_counts exApplied_def
      Let_def exLive_def exStatefulSet_def)

lemma exUser: "urPassword (reconcileSystemUser exCrypto exSecretAPI (\<lambda>_. Inr []) exCluster Map.empty) = Inr (replicate 43 CHR ''A'')"
  using exPasses_succeed(1) by (simp add: exPasses_def Let_def)

lemma exProvisioned_pass:
  "provisioned exOperator exCluster Map.empty Map.empty exApplied Map.empty (replicate 43 CHR ''A'')"
  using exCounts_resolved exUser by (simp add: provisioned_def exApplied_def Let_def)

lemma exVolumes: "volumesOf exOperator exCluster exApplied = Some (noOutcome, [], None, [])"
proof -
  have grew: "\<not> templatesGrew cmp desired []" for cmp desired by (induction desired) (auto simp: templatesGrew_def)
  have observed: "observeClaims (opReader exOperator) exVolumeServer ns (claimed role sts selector) = Inr
      \<lparr>rvStatefulSet = bsName sts, rvDesired = TemplateSizes (map cloTemplate (bsClaims sts)),
       rvLive = map_option (\<lambda>sts. TemplateSizes (ssTemplates sts)) (rrStatefulSet role), rvClaims = [], rvPods = []\<rparr>"
    for ns role sts selector by (simp add: observeClaims_def claimed_def exVolumeServer_def Let_def List.map_filter_simps)
  have live: "rrStatefulSet (rcCoordinators exApplied) = Some (exLive (CoordinatorName exCluster))"
    "rrStatefulSet (rcData exApplied) = Some (exLive (DataName exCluster))" by (simp_all add: exApplied_def Let_def)
  have templates: "TemplateSizes (ssTemplates (exLive name)) = []" "\<not> ssDeleting (exLive name)" for name
    by (simp_all add: exLive_def exStatefulSet_def TemplateSizes_def)
  have none: "Decide cmp \<lparr>rvStatefulSet = n, rvDesired = d, rvLive = Some [], rvClaims = [], rvPods = []\<rparr> = noDecision" for cmp n d
    by (simp add: Decide_def grew noDecision_def)
  have "crReplicas (claimed role sts selector) = role" for role sts selector by (simp add: claimed_def)
  then show ?thesis
    by (simp add: observed [unfolded exOperator_fields] live templates none noDecision_def noOutcome_def)
qed

lemma exRollout: "\<exists>roles. observeRollout (opReader exOperator) exCluster exApplied g = Inr roles \<and> workloadsReady exApplied roles
    \<and> rPods (rlData roles) = [] \<and> rPods (rlCoordinators roles) = []"
  by (simp add: observeRollout_def observeRolloutRole_def exApplied_def Let_def podsByOrdinal_def index_by_def workloadsReady_def
      roleReady_def exLive_def exStatefulSet_def wrap32_def List.map_filter_def role_names [symmetric])

lemma settleEndpoints_no_pods: "settleEndpoints dl cluster action plan describe [] eps outcome st = (outcome, st)"
  by (induction eps) (simp_all add: readyPod_def)

lemma exLicensed:
  assumes "rPods (rlData roles) = []" "rPods (rlCoordinators roles) = []"
  shows "\<exists>license. reconcileLicense dl secrets exCluster exApplied roles st = Some (license, st)"
proof -
  have "DataEndpoints exCluster (rrApplied (rcData exApplied)) \<noteq> None" "CoordinatorEndpoints exCluster (rrApplied (rcCoordinators exApplied)) \<noteq> None"
    using endpoints_exist(1) [of 2 exCluster] endpoints_exist(2) [of 3 exCluster] by (auto simp: exApplied_def Let_def int32_max_def)
  then show ?thesis using assms
    by (auto simp: reconcileLicense_def Let_def settleEndpoints_no_pods split: sum.split simp del: not_None_eq)
qed

lemma exServing_leader: "observedLeader exServing = CoordinatorInstanceName 0" "observedMain exServing = DataInstanceName 0"
  by (simp_all add: exServing_def exView0_def observedLeader_def observedMain_def IsLeader_def IsMain_def IsUp_def)

lemma exServing_index: "index exServing (CoordinatorInstanceName i) = Some r \<Longrightarrow> iBoltServer r = []"
  using index_by_SomeD [of iName exServing] by (fastforce simp: index_def exServing_def exView0_def)

lemma exRegistered:
  assumes "mcSpec cluster = mcSpec exCluster" "workloadsReady exApplied roles" "psWorld st = exServingWorld"
  shows "\<exists>reg. reconcileRegistration exEnvironment cluster exApplied noExternalAccess roles claims shrinks st = Some reg
    \<and> lastVerdict v (rgReports reg) = Some True \<and> length (rgSteps reg) = 1"
proof -
  have counts: "rrApplied (rcCoordinators exApplied) = 3" "rrApplied (rcData exApplied) = 2" by (simp_all add: exApplied_def Let_def)
  obtain eps where eps: "CoordinatorEndpoints cluster 3 = Some eps"
    using endpoints_exist(2) [of 3 cluster] by (auto simp: int32_max_def)
  have "[0..3 - 1 :: int] = [0, 1, 2]" by (simp add: upto_rec1)
  with CoordinatorEndpoints_eq [OF eps] obtain e rest where e: "eps = e # rest" "epName e = CoordinatorInstanceName 0" by simp
  have found: "observeCluster exEnvironment eps exServingWorld = (Inr (epAddress e, exServing), exServingWorld)"
    unfolding observeCluster_def e(1)
    by (simp add: e(2) showInstances_def exEnvironment_def fakeClient_def fakeShowInstances_def exServingWorld_def
        newFakeMemgraph_def exServing_leader)
  from declared_spec [OF assms(1)] exCounts_bounds exCluster_counts
    passTopology_shape [of cluster "rrApplied (rcCoordinators exApplied)" "rrApplied (rcData exApplied)" "xaAddresses noExternalAccess"]
  obtain topology where top: "passTopology cluster (xaAddresses noExternalAccess) 3 2 = Some topology"
    "wellFormed topology" "length (tCoordinators topology) = 3"
    by (auto simp: counts int32_max_def)
  let ?lag = "case clShowReplicationLag (enClient exEnvironment (epAddress e)) exServingWorld of Inl e \<Rightarrow> [] | Inr rows \<Rightarrow> rows"
  obtain commands where plan: "Plan topology exServing ?lag = Some commands" using Plan_total by blast
  have "commands \<noteq> []"
  proof
    assume "commands = []"
    with plan top(2) have "settled topology exServing ?lag"
      by (simp add: Plan_settled_iff [symmetric] namedMembers_def wellFormed_def Ball_def)
    then have "\<forall>c \<in> set (tCoordinators topology). \<exists>r. index exServing (csName c) = Some r \<and> iBoltServer r \<noteq> []"
      unfolding settled_def by blast
    moreover obtain c where "c \<in> set (tCoordinators topology)" using top(3) by (cases "tCoordinators topology") auto
    ultimately obtain r where "index exServing (csName c) = Some r" "iBoltServer r \<noteq> []" by blast
    with index_by_SomeD show False by (fastforce simp: index_def exServing_def exView0_def)
  qed
  then have run: "reconcileRegistration exEnvironment cluster exApplied noExternalAccess roles claims shrinks st
      = Some (issueCommands exEnvironment cluster shrinks (epAddress e) (exposedAt (observe topology exServing) noExternalAccess)
          (retirementMessage topology) commands (st\<lparr>psWorld := exServingWorld\<rparr>))"
    using assms(2,3) top(1) eps found plan by (simp add: reconcileRegistration_def counts Let_def)
  have "lastVerdict v (rgReports (issueCommands exEnvironment cluster shrinks l (exposedAt (observe topology exServing) noExternalAccess)
      m cs t)) = Some True" for l m cs t
    by (auto simp: issueCommands_def Let_def progressCondition_def lastVerdict_def exServing_leader DataInstanceName_def instancePrefix_def
        split: prod.split option.split)
  with run show ?thesis by (auto simp: issueCommands_steps)
qed

lemma exAccepted: "\<exists>applied s'. applyObjects (saApply exSecretAPI) cluster objs applied0 s = (Inr applied, [], objs, s')"
proof (induction objs arbitrary: applied0 s)
  case (Cons obj objs)
  obtain w s1 where call: "saApply exSecretAPI obj s = (Inr w, s1)" by (simp add: exSecretAPI_def)
  obtain applied s' where "applyObjects (saApply exSecretAPI) cluster objs (applied0(appliedKey obj \<mapsto> w)) s1 = (Inr applied, [], objs, s')"
    using Cons.IH by blast
  with call show ?case by simp
qed simp

text \<open>The pass applies everything and runs a plan on a view with a MAIN.\<close>

lemma exWholePass:
  "\<exists>r external. reconcileCluster ops exOperator exCluster Map.empty exStart Map.empty = Some r
     \<and> lastVerdict None (paReports r) = Some True
     \<and> set (map Sent (passObjects exOperator exCluster exApplied external [])) \<subseteq> set (paSteps r)"
proof -
  let ?user = "reconcileSystemUser exCrypto exSecretAPI (\<lambda>_. Inr []) exCluster Map.empty"
  let ?st = "exStart\<lparr>psEvents := psEvents exStart @ urEvents ?user\<rparr>"
  let ?cs = "keepLiveSizes (coordinatorSetOf exOperator exCluster exApplied) (rrStatefulSet (rcCoordinators exApplied))"
  let ?ds = "keepLiveSizes (dataSetOf exOperator exCluster exApplied) (rrStatefulSet (rcData exApplied))"
  obtain applied s' where sent: "applyDesired (saApply exSecretAPI) exCluster (desiredObjects exCluster ?cs ?ds [] [])
      (urState ?user) = (Inr applied, [], desiredObjects exCluster ?cs ?ds [] [], s')"
    unfolding applyDesired_def using exAccepted by blast
  have none: "spExternalAccess (mcSpec exCluster) = None" by (simp add: exCluster_def emptySpec_def)
  then have external: "desiredExternal (opGatewayAPI exOperator) exCluster n = Some []" for n
    by (simp add: desiredExternal_def ExternalServices_def UsesGateway_iff)
  have "spMonitoring (mcSpec exCluster) = None" by (simp add: exCluster_def emptySpec_def)
  then have monitoring: "desiredMonitoring api json exCluster n m = Some []" for api json n m
    by (simp add: desiredMonitoring_def UsesServiceMonitor_def UsesGrafanaDashboard_def UsesVMAgent_def UsesVector_def)
  have pruned: "pruneKinds (opPrune exOperator) exCluster uid kinds selector keep = (None, [])" for uid kinds selector keep
    by (induction kinds) (simp_all add: pruneKind_def)
  obtain roles where roles: "observeRollout (opReader exOperator) exCluster exApplied (appliedSet applied) = Inr roles"
    "workloadsReady exApplied roles" "rPods (rlData roles) = []" "rPods (rlCoordinators roles) = []" using exRollout by blast
  obtain license where license: "reconcileLicense (enDialer exEnvironment) (enSecrets exEnvironment) exCluster exApplied roles
      (?st\<lparr>psReads := Map.empty\<rparr>) = Some (license, ?st\<lparr>psReads := Map.empty\<rparr>)" using exLicensed [OF roles(3,4)] by blast
  let ?cluster' = "setStatus ops exCluster (lastObserved exCluster) [license]"
  have world: "psWorld (?st\<lparr>psReads := Map.empty\<rparr>) = exServingWorld" by (simp add: exStart_def)
  obtain reg where reg: "reconcileRegistration exEnvironment ?cluster' exApplied noExternalAccess roles noOutcome Map.empty
      (?st\<lparr>psReads := Map.empty\<rparr>) = Some reg" "lastVerdict None (rgReports reg) = Some True"
    using exRegistered [OF setStatus_spec(1) roles(2) world] by blast
  let ?r = "ended ((lastObserved exCluster, [license]) # rgReports reg) (map OnCluster (rgSteps reg)) (rgOutcome reg)
             (rgShrinks reg) (rgState reg) s'"
  have register: "registerStage ops exOperator exEnvironment exCluster exApplied noOutcome applied Map.empty ?st s' = Some ?r"
    by (simp add: registerStage_def observeExternalAccess_def none roles(1) [unfolded exOperator_fields] license reg(1) Let_def)
  have apply_stage: "applyStage ops exOperator exEnvironment exCluster exApplied noOutcome ?cs ?ds Map.empty ?st (urState ?user)
      = Some (after (map Sent (desiredObjects exCluster ?cs ?ds [] [])) ?r)"
    unfolding applyStage_def external monitoring Option.bind.simps Let_def exOperator_fields(5) sent prod.case sum.case pruneExternal_def
      pruneMonitoring_def pruned by (simp add: register)
  have volume: "volumeStage ops exOperator exEnvironment exCluster exApplied Map.empty ?st (urState ?user)
      = Some (after [] (after (map Sent (desiredObjects exCluster ?cs ?ds [] [])) ?r))"
    unfolding volumeStage_def Let_def exVolumes Option.bind.simps prod.case by (simp add: apply_stage)
  have run: "reconcileCluster ops exOperator exCluster Map.empty exStart Map.empty
      = Some (after (map Sent (urSent ?user)) (after [] (after (map Sent (desiredObjects exCluster ?cs ?ds [] [])) ?r)))"
    unfolding reconcileCluster_def exCounts_resolved prod.case sum.case Let_def exOperator_fields(1,3,4,5) exUser
    using volume by (simp add: exApplied_def Let_def)
  have "cType license \<noteq> conditionServing"
    using licenseCondition_type [OF license] by (simp add: conditionServing_def condition_defs)
  then have "lastVerdict None (paReports ?r) = Some True" using reg(2) by (simp add: lastVerdict_def)
  with run show ?thesis by (intro exI [of _ _] exI [of _ "[]"]) (auto simp: passObjects_def)
qed

lemma exSmallCounts: "smallCounts (opReader exOperator)"
  by (auto simp: smallCounts_def exLive_def exStatefulSet_def int32_max_def)

lemma exWholePass_set:
  "\<exists>r sts. reconcileCluster ops exOperator exCluster Map.empty exStart Map.empty = Some r
     \<and> Sent (StatefulSetOf sts) \<in> set (paSteps r) \<and> bsName sts = DataName exCluster"
proof -
  let ?sts = "keepLiveSizes (dataSetOf exOperator exCluster exApplied) (rrStatefulSet (rcData exApplied))"
  from exWholePass obtain r external where r: "reconcileCluster ops exOperator exCluster Map.empty exStart Map.empty = Some r"
    "set (map Sent (passObjects exOperator exCluster exApplied external [])) \<subseteq> set (paSteps r)" by blast
  have "StatefulSetOf ?sts \<in> set (passObjects exOperator exCluster exApplied external [])"
    by (simp only: passObjects_sets simp_thms)
  with r(2) have "Sent (StatefulSetOf ?sts) \<in> set (paSteps r)" by auto
  moreover have "bsName ?sts = DataName exCluster" by (simp add: keepLiveSizes_fields role_set_fields)
  ultimately show ?thesis using r(1) by blast
qed

lemma exUsesVMAgent: "\<not> UsesVMAgent exCluster"
  by (simp add: UsesVMAgent_def exCluster_def emptySpec_def)

lemma pass_order_witness:
  "\<exists>r stages steps. reconcileCluster frontOps exOperator exCluster Map.empty exStart Map.empty = Some r
     \<and> inOrder (stages @ [(map OnCluster steps, Some (paOutcome r))]) = (paSteps r, Some (paOutcome r)) \<and> length stages = 5
     \<and> length steps \<le> 1 \<and> paSteps r \<noteq> []"
proof -
  from exWholePass_set obtain r sts where r: "reconcileCluster frontOps exOperator exCluster Map.empty exStart Map.empty = Some r"
    "Sent (StatefulSetOf sts) \<in> set (paSteps r)" by blast
  then have "paSteps r \<noteq> []" by auto
  moreover have "\<not> rcUnseenShrinks exApplied \<noteq> []" by (simp add: exApplied_def Let_def)
  from pass_order [OF r(1), unfolded exCounts_resolved prod.case sum.case if_not_P [OF this] Let_def]
  obtain password external monitoring steps where "length steps \<le> 1"
    "inOrder (passStages exOperator exCluster exApplied Map.empty password external monitoring @ [(map OnCluster steps, Some (paOutcome r))])
      = (paSteps r, Some (paOutcome r))" by (elim exE conjE) (rule that)
  moreover have "length (passStages exOperator exCluster exApplied Map.empty password external monitoring) = 5"
    by (simp add: passStages_def)
  ultimately show ?thesis using r(1) by blast
qed




lemma serving_verdict_observed_witness:
  "\<exists>r exposure leader observed. reconcileCluster frontOps exOperator exCluster Map.empty exStart Map.empty = Some r
     \<and> lastVerdict None (paReports r) = Some True \<and> exposureOf exOperator exCluster = Inr exposure \<and> observedMain observed \<noteq> []
     \<and> (\<exists>cluster replicas w topology lag w'. planned exEnvironment cluster replicas exposure w topology leader observed lag w')"
proof -
  from exWholePass obtain r where r: "reconcileCluster frontOps exOperator exCluster Map.empty exStart Map.empty = Some r"
    "lastVerdict None (paReports r) = Some True" by blast
  have "(None :: bool option) \<noteq> Some True" by simp
  from serving_verdict_observed [OF r this] r show ?thesis by (simp only: exOperator_fields) blast
qed

end
