(* ===== verification/Watches.thy ===== *)
theory Watches
  imports Reconcile_Pass
begin

text \<open>
  What wakes the controller: \<open>SetupWithManager\<close>, the mappings from an event to the clusters it concerns and
  the filter of pod updates of \<open>src/internal/controller/memgraphdbcluster_controller.go\<close>, the discovery of the
  kinds a cluster serves, and of \<open>src/cmd/main.go\<close> the scope of the cache and the setup of the reconciler.

  The manager's machinery is outside the model: a watch is the kind it is on and how its events name clusters,
  a mapper is what it answers. The number of workers is left out.
\<close>

section \<open>The watches\<close>

datatype watch = For string | Owns string | WatchesMetadata string | Watches string

text \<open>The kinds of one cluster's resources; the Gateway API and the ServiceMonitor only where they are served.\<close>

definition SetupWithManager :: "bool \<Rightarrow> bool \<Rightarrow> watch list" where
  "SetupWithManager gatewayAPI serviceMonitorAPI =
     [For ''MemgraphDBCluster'', Owns ''StatefulSet'', Owns ''Deployment'', Owns ''Service'', Owns ''ConfigMap'',
      WatchesMetadata ''Secret'', Watches ''PersistentVolumeClaim'', Watches ''Pod'']
     @ (if gatewayAPI then [Owns ''Gateway'', Owns ''TCPRoute''] else [])
     @ (if serviceMonitorAPI then [Owns ''ServiceMonitor''] else [])"

text \<open>The controlling owner of an object, and what an event carries of it.\<close>

record ownerReference =
  owKind :: string
  owAPIVersion :: string
  owName :: string

record objectMeta =
  omNamespace :: string
  omName :: string
  omLabels :: stringMap
  omController :: "ownerReference option"

definition GroupVersionGroup :: string where "GroupVersionGroup = ''memgraph.com''"

definition ownedByCluster :: "objectMeta \<Rightarrow> string option" where
  "ownedByCluster obj = (case omController obj of
       None \<Rightarrow> None
     | Some owner \<Rightarrow> if owKind owner = ''MemgraphDBCluster'' \<and> hasPrefix (owAPIVersion owner) (GroupVersionGroup @ ''/'')
         then Some (owName owner) else None)"

definition clustersForSecret :: "(string \<Rightarrow> goerror + MemgraphDBCluster list) \<Rightarrow> objectMeta \<Rightarrow> NamespacedName list" where
  "clustersForSecret clusters secret =
     (case ownedByCluster secret of
        Some owner \<Rightarrow> [(omNamespace secret, owner)]
      | None \<Rightarrow> (case clusters (omNamespace secret) of
          Inl e \<Rightarrow> []
        | Inr items \<Rightarrow> [(mcNamespace cluster, mcName cluster). cluster \<leftarrow> items,
            lsName (LicenseSecretOf cluster) = omName secret \<or> AWSCredentialsSecretOf cluster = omName secret]))"

definition clusterForClaim :: "objectMeta \<Rightarrow> NamespacedName list" where
  "clusterForClaim claim = (let name = ClusterNameOf (omLabels claim) in
     if name = [] then [] else [(omNamespace claim, name)])"

definition clusterForPod :: "objectMeta \<Rightarrow> NamespacedName list" where
  "clusterForPod pod = (let name = ClusterNameOfMemgraphPod (omLabels pod) in
     if name = [] then [] else [(omNamespace pod, name)])"

text \<open>
  An update is of two objects, which are pods or something else; the predicate passes every other event.
\<close>

datatype podEvent = PodCreated | PodDeleted | PodUpdated "k8sPod option" "k8sPod option"

definition memgraphPodChanged :: "podEvent \<Rightarrow> bool" where
  "memgraphPodChanged e = (case e of
       PodUpdated old new \<Rightarrow> (case (old, new) of
           (Some oldPod, Some newPod) \<Rightarrow> podReady oldPod \<noteq> podReady newPod
             \<or> get (kpLabels oldPod) revisionLabel \<noteq> get (kpLabels newPod) revisionLabel
         | _ \<Rightarrow> True)
     | _ \<Rightarrow> True)"

section \<open>The kinds a cluster serves\<close>

datatype mapping = Mapped | NoMatch | MappingFailed goerror

text \<open>What a \<open>RESTMapper\<close> answers of a kind: at a version, and at any, with the group version it found.\<close>

record restMapper =
  rmVersion :: "string \<Rightarrow> string \<Rightarrow> string \<Rightarrow> mapping"
  rmAny :: "string \<Rightarrow> string \<Rightarrow> string option"

fun kindsServed :: "restMapper \<Rightarrow> string \<Rightarrow> string \<Rightarrow> string list \<Rightarrow> bool \<times> string \<times> goerror option" where
  "kindsServed mapper grp version [] = (True, [], None)"
| "kindsServed mapper grp version (kind # kinds) =
     (case rmVersion mapper grp kind version of
        Mapped \<Rightarrow> kindsServed mapper grp version kinds
      | MappingFailed e \<Rightarrow> (False, [], Some (''discovering '' @ kind @ ''.'' @ grp @ '': '' @ e))
      | NoMatch \<Rightarrow> (case rmAny mapper grp kind of
          Some found \<Rightarrow> (False, kind @ '' is served only as '' @ found, None)
        | None \<Rightarrow> (False, kind @ '' is not served'', None)))"

definition GatewayAPIServed :: "restMapper \<Rightarrow> bool \<times> string \<times> goerror option" where
  "GatewayAPIServed mapper = kindsServed mapper ''gateway.networking.k8s.io'' ''v1'' [''Gateway'', ''TCPRoute'']"

definition ServiceMonitorServed :: "restMapper \<Rightarrow> bool \<times> string \<times> goerror option" where
  "ServiceMonitorServed mapper = kindsServed mapper ''monitoring.coreos.com'' ''v1'' [''ServiceMonitor'']"

text \<open>A kind is taken for served exactly when all of it is, at the version the operator builds.\<close>

lemma kindsServed_True: "kindsServed mapper grp version kinds = (True, missing, err)
    \<longleftrightarrow> missing = [] \<and> err = None \<and> (\<forall>kind \<in> set kinds. rmVersion mapper grp kind version = Mapped)"
  by (induction kinds) (auto split: mapping.splits option.splits)

lemma kindsServed_iff: "kindsServed mapper grp version kinds = (served, missing, None)
    \<Longrightarrow> served \<longleftrightarrow> (\<forall>kind \<in> set kinds. rmVersion mapper grp kind version = Mapped)"
  by (induction kinds) (auto split: mapping.splits option.splits)

lemma kindsServed_missing: "kindsServed mapper grp version kinds = (served, missing, None) \<Longrightarrow> \<not> served \<Longrightarrow> missing \<noteq> []"
  by (induction kinds) (auto split: mapping.splits option.splits)

section \<open>The cache and the setup\<close>

text \<open>The selector the cache holds a kind by; a kind without one is cached whole.\<close>

definition managedByOperator :: stringMap where "managedByOperator = [(ManagedByLabel, ManagedByValue)]"
definition memgraphClaims :: stringMap where "memgraphClaims = [(NameLabel, NameValue)]"

definition cacheByObject :: "(string \<times> stringMap) list" where
  "cacheByObject = [(''Pod'', managedByOperator), (''ConfigMap'', managedByOperator), (''Deployment'', managedByOperator),
     (''PersistentVolumeClaim'', memgraphClaims)]"

definition cached :: "string \<Rightarrow> stringMap \<Rightarrow> bool" where
  "cached kind ls = (case map_of cacheByObject kind of None \<Rightarrow> True | Some selector \<Rightarrow> selects selector ls)"

text \<open>What the operator discovers when it starts, and the watches it sets up then; an error ends it.\<close>

record discovered =
  diGatewayAPI :: bool
  diGatewayAPIMissing :: string
  diServiceMonitorAPI :: bool
  diServiceMonitorAPIMissing :: string
  diWatches :: "watch list"

definition main :: "restMapper \<Rightarrow> goerror + discovered" where
  "main mapper = (case GatewayAPIServed mapper of
       (_, _, Some e) \<Rightarrow> Inl e
     | (gatewayAPI, gatewayMissing, None) \<Rightarrow> (case ServiceMonitorServed mapper of
         (_, _, Some e) \<Rightarrow> Inl e
       | (serviceMonitorAPI, serviceMonitorMissing, None) \<Rightarrow>
           Inr \<lparr>diGatewayAPI = gatewayAPI, diGatewayAPIMissing = gatewayMissing,
             diServiceMonitorAPI = serviceMonitorAPI, diServiceMonitorAPIMissing = serviceMonitorMissing,
             diWatches = SetupWithManager gatewayAPI serviceMonitorAPI\<rparr>))"

text \<open>
  A manager only watches kinds that are served at the version the operator builds: an informer on any other
  would never sync. A kind that is not is said to be missing.
\<close>

lemma main_watches_served:
  assumes "main mapper = Inr setup"
  shows "Owns ''Gateway'' \<in> set (diWatches setup) \<longleftrightarrow>
      rmVersion mapper ''gateway.networking.k8s.io'' ''Gateway'' ''v1'' = Mapped
      \<and> rmVersion mapper ''gateway.networking.k8s.io'' ''TCPRoute'' ''v1'' = Mapped"
    and "Owns ''TCPRoute'' \<in> set (diWatches setup) \<longleftrightarrow> Owns ''Gateway'' \<in> set (diWatches setup)"
    and "Owns ''ServiceMonitor'' \<in> set (diWatches setup) \<longleftrightarrow> rmVersion mapper ''monitoring.coreos.com'' ''ServiceMonitor'' ''v1'' = Mapped"
    and "\<not> diGatewayAPI setup \<Longrightarrow> diGatewayAPIMissing setup \<noteq> []"
    and "\<not> diServiceMonitorAPI setup \<Longrightarrow> diServiceMonitorAPIMissing setup \<noteq> []"
proof -
  from assms obtain gw sm m n where found: "GatewayAPIServed mapper = (gw, m, None)" "ServiceMonitorServed mapper = (sm, n, None)"
    "setup = \<lparr>diGatewayAPI = gw, diGatewayAPIMissing = m, diServiceMonitorAPI = sm, diServiceMonitorAPIMissing = n,
       diWatches = SetupWithManager gw sm\<rparr>"
    by (auto simp: main_def split: prod.splits option.splits)
  note served = found(1,2) [unfolded GatewayAPIServed_def ServiceMonitorServed_def]
  have gw: "gw \<longleftrightarrow> (\<forall>kind \<in> set [''Gateway'', ''TCPRoute'']. rmVersion mapper ''gateway.networking.k8s.io'' kind ''v1'' = Mapped)"
    by (rule kindsServed_iff [OF served(1)])
  have sm: "sm \<longleftrightarrow> (\<forall>kind \<in> set [''ServiceMonitor'']. rmVersion mapper ''monitoring.coreos.com'' kind ''v1'' = Mapped)"
    by (rule kindsServed_iff [OF served(2)])
  show "Owns ''Gateway'' \<in> set (diWatches setup) \<longleftrightarrow>
      rmVersion mapper ''gateway.networking.k8s.io'' ''Gateway'' ''v1'' = Mapped
      \<and> rmVersion mapper ''gateway.networking.k8s.io'' ''TCPRoute'' ''v1'' = Mapped"
    and "Owns ''TCPRoute'' \<in> set (diWatches setup) \<longleftrightarrow> Owns ''Gateway'' \<in> set (diWatches setup)"
    and "Owns ''ServiceMonitor'' \<in> set (diWatches setup) \<longleftrightarrow> rmVersion mapper ''monitoring.coreos.com'' ''ServiceMonitor'' ''v1'' = Mapped"
    using gw sm by (auto simp: found(3) SetupWithManager_def)
  show "\<not> diGatewayAPI setup \<Longrightarrow> diGatewayAPIMissing setup \<noteq> []"
    and "\<not> diServiceMonitorAPI setup \<Longrightarrow> diServiceMonitorAPIMissing setup \<noteq> []"
    using kindsServed_missing [OF served(1)] kindsServed_missing [OF served(2)] by (simp_all add: found(3))
qed

section \<open>Every applied kind is watched\<close>

definition watchedKinds :: "watch list \<Rightarrow> string set" where
  "watchedKinds ws = {kind. For kind \<in> set ws \<or> Owns kind \<in> set ws \<or> WatchesMetadata kind \<in> set ws \<or> Watches kind \<in> set ws}"

lemma watchedKinds_setup: "watchedKinds (SetupWithManager gw sm) =
    {''MemgraphDBCluster'', ''StatefulSet'', ''Deployment'', ''Service'', ''ConfigMap'', ''Secret'', ''PersistentVolumeClaim'', ''Pod''}
    \<union> (if gw then {''Gateway'', ''TCPRoute''} else {}) \<union> (if sm then {''ServiceMonitor''} else {})"
  by (auto simp: watchedKinds_def SetupWithManager_def)

lemma desiredExternal_kinds:
  assumes "desiredExternal gw cluster n = Some objs" "obj \<in> set objs"
  shows "objectKind obj = ''Service'' \<or> gw \<and> (objectKind obj = ''Gateway'' \<or> objectKind obj = ''TCPRoute'')"
  using assms by (auto simp: desiredExternal_def bind_eq_Some_conv split: if_splits)

lemma desiredMonitoring_kinds:
  assumes "desiredMonitoring sm json cluster n m = Some objs" "obj \<in> set objs"
  shows "monitoringKind obj = ''ConfigMap'' \<or> monitoringKind obj = ''Deployment'' \<or> sm \<and> monitoringKind obj = ''ServiceMonitor''"
proof -
  have "(monitoringKind obj, monitoringName obj) \<in> set (map (\<lambda>obj. (monitoringKind obj, monitoringName obj)) objs)"
    using assms(2) by auto
  then show ?thesis unfolding desiredMonitoring_names [OF assms(1)] by (auto split: if_splits)
qed

lemma passObjects_kinds:
  assumes "obj \<in> set (passObjects oper cluster replicas external monitoring)"
    and "wants oper en cluster replicas external monitoring"
  shows "desiredKind obj \<in> watchedKinds (SetupWithManager (opGatewayAPI oper) (enServiceMonitorAPI en))"
proof -
  from assms(1) consider s where "obj = ServiceOf s" | c where "obj = ConfigMapOf c" | sts where "obj = StatefulSetOf sts"
    | e where "obj = ExternalOf e" "e \<in> set external" | m where "obj = MonitoringOf m" "m \<in> set monitoring"
    unfolding passObjects_def desiredObjects_def workloadObjects_def by auto
  then show ?thesis
  proof cases
    case (4 e)
    with desiredExternal_kinds [OF assms(2) [unfolded wants_def, THEN conjunct1]] show ?thesis by (auto simp: watchedKinds_setup)
  next
    case (5 m)
    with desiredMonitoring_kinds [OF assms(2) [unfolded wants_def, THEN conjunct2]] show ?thesis by (auto simp: watchedKinds_setup)
  qed (simp_all add: watchedKinds_setup)
qed

text \<open>
  C37: Nothing a pass applies can change or disappear unseen: on a manager set up for the kinds this operator
  uses, every object any pass sends to the API server is of a kind that is watched, the Gateway API's and
  the ServiceMonitor included exactly where they are built, so its next event brings another pass.
\<close>

theorem applied_kinds_watched:
  assumes "reconcileCluster ops oper cluster shrinks st s = Some r" and "Sent obj \<in> set (paSteps r)"
    and "\<And>password. enServiceMonitorAPI (opEnvironment oper password) = serviceMonitorAPI"
  shows "desiredKind obj \<in> watchedKinds (SetupWithManager (opGatewayAPI oper) serviceMonitorAPI)"
  using assms(1,2)
proof (cases rule: pass_sent)
  case (hash hash)
  then show ?thesis by (simp add: watchedKinds_setup)
next
  case (wanted replicas shrinks' password external monitoring)
  from passObjects_kinds [OF wanted(3,2)] show ?thesis by (simp only: assms(3))
qed

section \<open>Pods and claims wake their cluster\<close>

lemma memgraph_component_differ: "coordinatorComponent \<noteq> dataComponent" "coordinatorComponent \<noteq> []" "dataComponent \<noteq> []" "NameValue \<noteq> []"
  by (simp_all add: label_defs)

lemma get_Some: "v \<noteq> [] \<Longrightarrow> get ls k = v \<longleftrightarrow> map_of ls k = Some v"
  by (auto simp: get_def split: option.splits)

lemma selects_role: "selects (selectorLabels cluster component) ls \<longleftrightarrow>
    map_of ls NameLabel = Some NameValue \<and> map_of ls instanceLabel = Some (mcName cluster) \<and> map_of ls componentLabel = Some component"
  by (simp add: selects_def selectorLabels_def)

lemma ClusterNameOf_selects:
  assumes "mcName cluster \<noteq> []"
  shows "ClusterNameOf ls = mcName cluster \<longleftrightarrow> map_of ls NameLabel = Some NameValue \<and> map_of ls instanceLabel = Some (mcName cluster)"
  using assms memgraph_component_differ by (auto simp: ClusterNameOf_def get_Some)

text \<open>
  C38: The event of a pod wakes exactly the cluster whose passes read the pod: its labels name the cluster
  if and only if one of the two selectors the passes list pods by selects them, which every pod made from a
  template of the operator's StatefulSets satisfies whatever labels the spec and Kubernetes add; a claim those selectors
  select wakes it too; and both are in the scope of the operator's cache, so a pass can see what woke it.
\<close>

theorem pods_wake_their_cluster:
  assumes "mcName cluster \<noteq> []"
  shows "(clusterForPod pod = [(omNamespace pod, mcName cluster)] \<longleftrightarrow>
      selects (CoordinatorPodSelector cluster) (omLabels pod) \<or> selects (DataPodSelector cluster) (omLabels pod))
    \<and> (selects (CoordinatorPodSelector cluster) (omLabels claim) \<or> selects (DataPodSelector cluster) (omLabels claim)
        \<longrightarrow> clusterForClaim claim = [(omNamespace claim, mcName cluster)] \<and> cached ''PersistentVolumeClaim'' (omLabels claim))
    \<and> (\<forall>data. map_le (map_of (potLabels (bsTemplate (roleSet tk digest hash cluster data n)))) (map_of (omLabels pod))
        \<longrightarrow> clusterForPod pod = [(omNamespace pod, mcName cluster)] \<and> cached ''Pod'' (omLabels pod))"
proof -
  have sel: "selects (selectorLabels cluster component) ls \<longleftrightarrow> ClusterNameOf ls = mcName cluster \<and> map_of ls componentLabel = Some component"
    for component ls using ClusterNameOf_selects [OF assms] by (auto simp: selects_role)
  have pod: "clusterForPod pod = [(omNamespace pod, mcName cluster)] \<longleftrightarrow>
      selects (CoordinatorPodSelector cluster) (omLabels pod) \<or> selects (DataPodSelector cluster) (omLabels pod)"
    using assms memgraph_component_differ
    by (auto simp: clusterForPod_def Let_def ClusterNameOfMemgraphPod_def CoordinatorPodSelector_def DataPodSelector_def sel get_Some)
  have made: "map_of ls k = Some v" if "map_le (map_of (potLabels (bsTemplate (roleSet tk digest hash cluster data n)))) (map_of ls)"
      "map_of (labels cluster (if data then dataComponent else coordinatorComponent) (nroPodLabels (roleOf cluster data))) k = Some v"
    for ls data k v
    using that by (cases data) (force simp: map_le_def roleSet_def DataStatefulSet_def CoordinatorStatefulSet_def statefulSet_def Let_def)+
  have managed: "cached ''Pod'' ls" if "map_le (map_of (potLabels (bsTemplate (roleSet tk digest hash cluster data n)))) (map_of ls)" for ls data
    using made [OF that] by (simp add: cached_def cacheByObject_def managedByOperator_def selects_def map_of_labels)
  have built: "selects (selectorLabels cluster (if data then dataComponent else coordinatorComponent)) ls"
    if "map_le (map_of (potLabels (bsTemplate (roleSet tk digest hash cluster data n)))) (map_of ls)" for ls data
    using made [OF that, of NameLabel] made [OF that, of instanceLabel] made [OF that, of componentLabel]
    by (simp add: selects_role map_of_labels label_defs)
  have named: "cached ''PersistentVolumeClaim'' ls" if "selects (selectorLabels cluster component) ls" for ls component
    using that by (simp add: cached_def cacheByObject_def memgraphClaims_def selects_role) (simp add: selects_def)
  have role: "selects (CoordinatorPodSelector cluster) ls \<or> selects (DataPodSelector cluster) ls"
    if "map_le (map_of (potLabels (bsTemplate (roleSet tk digest hash cluster data n)))) (map_of ls)" for ls data
    using built [OF that] by (cases data) (simp_all add: CoordinatorPodSelector_def DataPodSelector_def)
  have claims: "clusterForClaim claim = [(omNamespace claim, mcName cluster)] \<and> cached ''PersistentVolumeClaim'' (omLabels claim)"
    if "selects (CoordinatorPodSelector cluster) (omLabels claim) \<or> selects (DataPodSelector cluster) (omLabels claim)"
    using that assms named by (auto simp: clusterForClaim_def Let_def CoordinatorPodSelector_def DataPodSelector_def sel)
  show ?thesis using pod role managed claims by blast
qed

section \<open>What may be missed\<close>

text \<open>Two pods that a pass cannot tell apart.\<close>

definition same_pod :: "k8sPod \<Rightarrow> k8sPod \<Rightarrow> bool" where
  "same_pod p q \<longleftrightarrow> kpName p = kpName q \<and> kpUID p = kpUID q \<and> kpDeleting p = kpDeleting q
     \<and> kpAnnotations p = kpAnnotations q \<and> podReady p = podReady q \<and> get (kpLabels p) revisionLabel = get (kpLabels q) revisionLabel"

lemma find_rel: "list_all2 R xs ys \<Longrightarrow> (\<And>x y. R x y \<Longrightarrow> P x = Q y) \<Longrightarrow> rel_option R (find P xs) (find Q ys)"
  by (induction rule: list_all2_induct) auto

lemma index_by_rel:
  assumes "list_all2 R xs ys" "\<And>x y. R x y \<Longrightarrow> key x = key' y"
  shows "rel_option R (index_by key xs k) (index_by key' ys k)"
  unfolding index_by_find using assms by (intro find_rel) simp_all

lemma podsByOrdinal_rel:
  assumes "list_all2 same_pod xs ys"
  shows "list_all2 (rel_prod (=) same_pod) (podsByOrdinal name applied xs) (podsByOrdinal name applied ys)"
proof -
  have one: "rel_option same_pod (index_by kpName xs k) (index_by kpName ys k)" for k
    using assms by (rule index_by_rel) (simp add: same_pod_def)
  have "list_all2 (rel_prod (=) same_pod) (List.map_filter (\<lambda>n. map_option (Pair n) (index_by kpName xs (PodName name n))) ns)
      (List.map_filter (\<lambda>n. map_option (Pair n) (index_by kpName ys (PodName name n))) ns)" for ns
  proof (induction ns)
    case (Cons n ns)
    from one [of "PodName name n"] Cons show ?case by (cases rule: option.rel_cases) (simp_all add: List.map_filter_simps)
  qed (simp add: List.map_filter_simps)
  then show ?thesis by (simp add: podsByOrdinal_def)
qed

lemma podAnnotations_rel:
  assumes "list_all2 (rel_prod (=) same_pod) found found'"
  shows "podAnnotations annotation found = podAnnotations annotation found'"
proof
  fix name
  have "rel_option (rel_prod (=) same_pod) (index_by (kpName \<circ> snd) found name) (index_by (kpName \<circ> snd) found' name)"
    using assms by (rule index_by_rel) (auto simp: same_pod_def)
  then show "podAnnotations annotation found name = podAnnotations annotation found' name"
    by (cases rule: option.rel_cases) (auto simp: podAnnotations_def same_pod_def)
qed

lemma observePod_rel:
  assumes "list_all2 (rel_prod (=) same_pod) found found'"
  shows "map (\<lambda>(ordinal, pod). observePod instanceName ordinal pod) found
       = map (\<lambda>(ordinal, pod). observePod instanceName ordinal pod) found'"
  using assms by (induction rule: list_all2_induct) (auto simp: observePod_def same_pod_def)


text \<open>
  C40: What becomes of the event of a Secret that a cluster of its namespace reads: take any Secret whose
  holding, missing or refusing something else makes the license step or the AWS credentials step of the
  cluster do anything else. If no MemgraphDBCluster controls the Secret and the clusters of its namespace
  can be listed, the event wakes the cluster. If one controls it, the event wakes that one alone, and if
  the list fails nobody: in those two cases the cluster waits for its next pass, which another event or
  the resync brings.
\<close>

theorem unmapped_secret_unread:
  assumes "\<And>items. clusters (omNamespace secret) = Inr items \<Longrightarrow> cluster \<in> set items"
    and "\<And>name. name \<noteq> omName secret \<Longrightarrow> secrets name = secrets' name"
    and "reconcileLicense dl secrets cluster replicas roles st \<noteq> reconcileLicense dl secrets' cluster replicas roles st
      \<or> reconcileAWSCredentials dl secrets cluster replicas roles st \<noteq> reconcileAWSCredentials dl secrets' cluster replicas roles st"
  shows "case ownedByCluster secret of
      Some owner \<Rightarrow> clustersForSecret clusters secret = [(omNamespace secret, owner)]
    | None \<Rightarrow> (case clusters (omNamespace secret) of
        Inl e \<Rightarrow> clustersForSecret clusters secret = []
      | Inr items \<Rightarrow> (mcNamespace cluster, mcName cluster) \<in> set (clustersForSecret clusters secret))"
proof -
  have "lsName (LicenseSecretOf cluster) = omName secret \<or> AWSCredentialsSecretOf cluster = omName secret"
  proof (rule ccontr)
    assume other: "\<not> ?thesis"
    then have "readLicense secrets (LicenseSecretOf cluster) = readLicense secrets' (LicenseSecretOf cluster)"
      "readAWSCredentials secrets (AWSCredentialsSecretOf cluster) = readAWSCredentials secrets' (AWSCredentialsSecretOf cluster)"
      using assms(2) by (simp_all add: readLicense_def readAWSCredentials_def)
    then have "reconcileLicense dl secrets cluster replicas roles st = reconcileLicense dl secrets' cluster replicas roles st"
      "reconcileAWSCredentials dl secrets cluster replicas roles st = reconcileAWSCredentials dl secrets' cluster replicas roles st"
      by (simp_all add: reconcileLicense_def reconcileAWSCredentials_def Let_def)
    with assms(3) show False by blast
  qed
  with assms(1) show ?thesis by (auto simp: clustersForSecret_def split: option.split sum.split)
qed

section \<open>Examples\<close>

lemma applied_kinds_watched_witness:
  "\<exists>r sts. reconcileCluster frontOps exOperator exCluster Map.empty exStart Map.empty = Some r
     \<and> Sent (StatefulSetOf sts) \<in> set (paSteps r) \<and> ''StatefulSet'' \<in> watchedKinds (SetupWithManager (opGatewayAPI exOperator) True)"
proof -
  from exWholePass_set obtain r sts where r: "reconcileCluster frontOps exOperator exCluster Map.empty exStart Map.empty = Some r"
    "Sent (StatefulSetOf sts) \<in> set (paSteps r)" by blast
  have "enServiceMonitorAPI (opEnvironment exOperator password) = True" for password by (simp add: exEnvironment_def)
  from applied_kinds_watched [OF r this] r show ?thesis by auto
qed

lemma pods_wake_their_cluster_witness:
  "\<forall>tk digest hash. clusterForPod \<lparr>omNamespace = ''prod'', omName = ''x-data-0'',
      omLabels = potLabels (bsTemplate (roleSet tk digest hash exCluster True 2)), omController = None\<rparr> = [(''prod'', mcName exCluster)]"
proof (intro allI)
  fix tk digest hash
  have name: "mcName exCluster \<noteq> []" by (simp add: exCluster_def)
  show "clusterForPod \<lparr>omNamespace = ''prod'', omName = ''x-data-0'',
      omLabels = potLabels (bsTemplate (roleSet tk digest hash exCluster True 2)), omController = None\<rparr> = [(''prod'', mcName exCluster)]"
    using pods_wake_their_cluster [OF name, of "\<lparr>omNamespace = ''prod'', omName = ''x-data-0'',
        omLabels = potLabels (bsTemplate (roleSet tk digest hash exCluster True 2)), omController = None\<rparr>" _ tk digest hash 2,
        THEN conjunct2, THEN conjunct2, THEN spec, of True] by simp
qed

text \<open>A pod of which only a container status moved, and the Secret with a cluster's license.\<close>

definition exWatchedPod :: "(string \<times> string) list \<Rightarrow> k8sPod" where
  "exWatchedPod conditions = \<lparr>kpName = PodName (DataName exCluster) 0, kpUID = ''u'', kpDeleting = False,
     kpLabels = [(revisionLabel, ''r1'')], kpAnnotations = [], kpConditions = conditions\<rparr>"


definition exSecret :: objectMeta where
  "exSecret = \<lparr>omNamespace = mcNamespace exCluster, omName = lsName (LicenseSecretOf exCluster), omLabels = [], omController = None\<rparr>"

lemma unmapped_secret_unread_witness:
  "\<forall>(dl :: fakeFleet dialer) replicas roles st.
     reconcileLicense dl (\<lambda>_. NotFound) exCluster replicas roles st
       \<noteq> reconcileLicense dl ((\<lambda>_. NotFound)(omName exSecret := Failed ''gone'')) exCluster replicas roles st
     \<and> (mcNamespace exCluster, mcName exCluster) \<in> set (clustersForSecret (\<lambda>_. Inr [exCluster]) exSecret)"
proof (intro allI)
  fix dl :: "fakeFleet dialer" and replicas roles st
  let ?before = "\<lambda>_. NotFound" and ?after = "(\<lambda>_. NotFound)(omName exSecret := Failed ''gone'')"
  have differ: "reconcileLicense dl ?before exCluster replicas roles st \<noteq> reconcileLicense dl ?after exCluster replicas roles st"
    by (simp add: reconcileLicense_def readLicense_def exSecret_def Let_def notLicenseAppliedCondition_def newCondition_def)
  have "ownedByCluster exSecret = None" by (simp add: ownedByCluster_def exSecret_def)
  moreover have "\<And>items. (Inr [exCluster] :: goerror + MemgraphDBCluster list) = Inr items \<Longrightarrow> exCluster \<in> set items" by auto
  moreover have "\<And>name. name \<noteq> omName exSecret \<Longrightarrow> ?before name = ?after name" by simp
  ultimately have "(mcNamespace exCluster, mcName exCluster) \<in> set (clustersForSecret (\<lambda>_. Inr [exCluster]) exSecret)"
    using unmapped_secret_unread [where clusters = "\<lambda>_. Inr [exCluster]" and secret = exSecret and cluster = exCluster
        and secrets = ?before and secrets' = ?after and dl = dl and replicas = replicas and roles = roles and st = st] differ by simp
  with differ show "reconcileLicense dl ?before exCluster replicas roles st \<noteq> reconcileLicense dl ?after exCluster replicas roles st
     \<and> (mcNamespace exCluster, mcName exCluster) \<in> set (clustersForSecret (\<lambda>_. Inr [exCluster]) exSecret)" by blast
qed

end
